theory Spec2Isabelle
  imports Complex_Main "HOL-Library.Word" "HOL-Library.Multiset"
begin

unbundle bit_operations_syntax

section \<open>JavaScript 32-bit integer operators\<close>


definition shiftCount :: "int \<Rightarrow> nat" where
  "shiftCount n = unat (word_of_int n :: 32 word) mod 32"

definition js_shl :: "int \<Rightarrow> int \<Rightarrow> int" where
  "js_shl a n = sint (push_bit (shiftCount n) (word_of_int a :: 32 word))"

definition js_sar :: "int \<Rightarrow> int \<Rightarrow> int" where
  "js_sar a n = sint (signed_drop_bit (shiftCount n) (word_of_int a :: 32 word))"

definition js_shr :: "int \<Rightarrow> int \<Rightarrow> int" where
  "js_shr a n = uint (drop_bit (shiftCount n) (word_of_int a :: 32 word))"

definition js_and :: "int \<Rightarrow> int \<Rightarrow> int" where
  "js_and a b = sint ((word_of_int a :: 32 word) AND word_of_int b)"

definition js_or :: "int \<Rightarrow> int \<Rightarrow> int" where
  "js_or a b = sint ((word_of_int a :: 32 word) OR word_of_int b)"

definition js_not :: "int \<Rightarrow> int" where
  "js_not a = sint (NOT (word_of_int a :: 32 word))"

section \<open>Bitstream buffer (DemoBuffer.ts)\<close>

text \<open>
  \<open>bytes\<close> is the \<open>Uint8Array\<close>, \<open>cursor\<close> the bit cursor.  Bit addresses and
  widths are natural numbers.
\<close>

record DemoBuffer =
  bytes :: "8 word list"
  cursor :: nat

datatype error =
    RangeError
  | Thrown string

text \<open>\<open>this.bytes[i] || 0\<close>: a read past the end of a typed array is \<open>undefined\<close>.\<close>

definition byteAt :: "DemoBuffer \<Rightarrow> nat \<Rightarrow> int" where
  "byteAt b i = (if i < length (bytes b) then uint (bytes b ! i) else 0)"

definition getBit :: "DemoBuffer \<Rightarrow> nat \<Rightarrow> int" where
  "getBit b pos =
     (let bitOffset = pos mod 8;
          byteOffset = pos div 8;
          byte = byteAt b byteOffset
      in js_and (js_sar byte (int bitOffset)) 1)"

definition getByte :: "DemoBuffer \<Rightarrow> nat \<Rightarrow> int" where
  "getByte b pos =
     (let bitOffset = pos mod 8;
          byteOffset = pos div 8;
          left = byteAt b byteOffset
      in if bitOffset = 0 then left
         else let right = byteAt b (byteOffset + 1)
              in js_or (js_shr left (int bitOffset))
                       (js_and (js_shl right (8 - int bitOffset)) 255))"

text \<open>
  The body of \<open>getBitSlice\<close> for \<open>from \<le> to\<close> and for \<open>to - from > -8\<close>, where the
  output array has \<open>\<lceil>(to - from) / 8\<rceil>\<close> bytes (none when \<open>to < from\<close>); the store
  into the \<open>Uint8Array\<close> keeps the low eight bits.
\<close>

definition sliceBytes :: "DemoBuffer \<Rightarrow> nat \<Rightarrow> nat \<Rightarrow> 8 word list" where
  "sliceBytes b from to =
     (let bitOffset = (to - from) mod 8;
          n = (to - from + 7) div 8;
          output = map (\<lambda>k. (word_of_int (getByte b (from + 8 * k)) :: 8 word)) [0..<n]
      in if bitOffset \<noteq> 0 \<and> output \<noteq> []
         then output[length output - 1 :=
                word_of_int (js_and (uint (last output)) (js_shl 1 (int bitOffset) - 1))]
         else output)"

text \<open>\<open>new Uint8Array(n)\<close> raises a \<open>RangeError\<close> for \<open>n \<le> -1\<close>, that is \<open>to - from \<le> -8\<close>.\<close>

definition getBitSlice :: "DemoBuffer \<Rightarrow> nat \<Rightarrow> nat \<Rightarrow> error + 8 word list" where
  "getBitSlice b from to =
     (if to + 8 \<le> from then Inl RangeError else Inr (sliceBytes b from to))"

text \<open>
  Numbers of the source language are double-precision floats. A non-negative integer
  below \<open>2 ^ 53\<close> is one of them; a larger one is rounded to 53 significant bits, to the
  nearest, a tie to the even one. \<open>bitLength n\<close> is the number of binary digits of \<open>n\<close>.
\<close>

function bitLength :: "int \<Rightarrow> nat" where
  "bitLength n = (if n \<le> 0 then 0 else Suc (bitLength (n div 2)))"
  by auto

termination
  by (relation "measure nat") auto

declare bitLength.simps [simp del]

definition toDouble :: "int \<Rightarrow> int" where
  "toDouble n =
     (if n < 2 ^ 53 then n
      else let e = bitLength n - 53;
               q = n div 2 ^ e;
               r = n mod 2 ^ e;
               half = 2 ^ (e - 1)
           in (if r > half \<or> (r = half \<and> odd q) then q + 1 else q) * 2 ^ e)"

text \<open>
  In \<open>getInt\<close> the slice is \<open>[from, from + size)\<close>, so the array constructor cannot fail.
  The loop runs from the last byte of the slice to the first; \<open>output * 256\<close> is exact and
  the sum with the byte is rounded. (From \<open>2 ^ 1024\<close> on, reached only by a width of 1024
  bits or more, the sum is \<open>Infinity\<close> in the source language; the integers here do not
  have that value.)
\<close>

definition getInt :: "DemoBuffer \<Rightarrow> nat \<Rightarrow> nat \<Rightarrow> int" where
  "getInt b from sz =
     foldr (\<lambda>byte output. toDouble (output * 256 + uint byte))
       (sliceBytes b from (from + sz)) 0"

definition getSignedInt :: "DemoBuffer \<Rightarrow> nat \<Rightarrow> nat \<Rightarrow> int" where
  "getSignedInt b from sz =
     (let v = getInt b from sz;
          signBit = js_shl 1 (int sz - 1)
      in if js_and v signBit \<noteq> 0 then v - js_shl 1 (int sz) else v)"

definition nextBit :: "DemoBuffer \<Rightarrow> int \<times> DemoBuffer" where
  "nextBit b = (getBit b (cursor b), b\<lparr>cursor := cursor b + 1\<rparr>)"

definition nextByte :: "DemoBuffer \<Rightarrow> int \<times> DemoBuffer" where
  "nextByte b = (getByte b (cursor b), b\<lparr>cursor := cursor b + 8\<rparr>)"

definition nextBytes :: "DemoBuffer \<Rightarrow> nat \<Rightarrow> 8 word list \<times> DemoBuffer" where
  "nextBytes b sz =
     (sliceBytes b (cursor b) (cursor b + sz), b\<lparr>cursor := cursor b + sz\<rparr>)"

definition nextInt :: "DemoBuffer \<Rightarrow> nat \<Rightarrow> int \<times> DemoBuffer" where
  "nextInt b sz = (getInt b (cursor b) sz, b\<lparr>cursor := cursor b + sz\<rparr>)"

definition nextSignedInt :: "DemoBuffer \<Rightarrow> nat \<Rightarrow> int \<times> DemoBuffer" where
  "nextSignedInt b sz = (getSignedInt b (cursor b) sz, b\<lparr>cursor := cursor b + sz\<rparr>)"

text \<open>
  \<open>setBit\<close>: the flag is the truthiness of the written value; a store past the end of
  the typed array is ignored.
\<close>

definition setBit :: "DemoBuffer \<Rightarrow> nat \<Rightarrow> bool \<Rightarrow> DemoBuffer" where
  "setBit b pos v =
     (let byteIndex = pos div 8;
          bitIndex = pos mod 8;
          byte = byteAt b byteIndex;
          mask = js_shl 1 (int bitIndex);
          new = (if v then js_or byte mask else js_and byte (js_not mask))
      in if byteIndex < length (bytes b)
         then b\<lparr>bytes := (bytes b)[byteIndex := word_of_int new]\<rparr>
         else b)"

definition setInt :: "DemoBuffer \<Rightarrow> nat \<Rightarrow> nat \<Rightarrow> int \<Rightarrow> DemoBuffer" where
  "setInt b from sz v =
     foldl (\<lambda>b' i. setBit b' (from + i) (js_and v (js_shl 1 (int i)) \<noteq> 0)) b [0..<sz]"


text \<open>The value of the bit at an absolute address; bits past the end of the blob are clear.\<close>

definition bitval :: "DemoBuffer \<Rightarrow> nat \<Rightarrow> bool" where
  "bitval b k = (k div 8 < length (bytes b) \<and> bit (bytes b ! (k div 8)) (k mod 8))"

text \<open>
  The number whose binary digits are the \<open>sz\<close> bits from address \<open>from\<close>: the value of
  \<open>getInt\<close> when no sum of its loop is rounded.
\<close>

definition bitsValue :: "DemoBuffer \<Rightarrow> nat \<Rightarrow> nat \<Rightarrow> int" where
  "bitsValue b from sz =
     foldr (\<lambda>byte output. output * 256 + uint byte) (sliceBytes b from (from + sz)) 0"
section \<open>Numbers\<close>

text \<open>
  A JavaScript number that need not be integral: a finite value, kept as an exact real,
  or one of the three non-finite values.  Rounding to double precision and the sign of
  zero are not modelled.  The arithmetic follows the language's rules for the
  non-finite cases (\<open>x / 0\<close>, \<open>\<infinity> - \<infinity>\<close>, \<open>0 * \<infinity>\<close>, comparisons with \<open>NaN\<close>).
\<close>

datatype number = Num real | NaN | PosInf | NegInf

definition num_of_int :: "int \<Rightarrow> number" where
  "num_of_int i = Num (of_int i)"

fun num_neg :: "number \<Rightarrow> number" where
  "num_neg (Num a) = Num (- a)"
| "num_neg NaN = NaN"
| "num_neg PosInf = NegInf"
| "num_neg NegInf = PosInf"

fun num_add :: "number \<Rightarrow> number \<Rightarrow> number" where
  "num_add (Num a) (Num b) = Num (a + b)"
| "num_add NaN _ = NaN"
| "num_add _ NaN = NaN"
| "num_add PosInf NegInf = NaN"
| "num_add NegInf PosInf = NaN"
| "num_add PosInf _ = PosInf"
| "num_add NegInf _ = NegInf"
| "num_add (Num a) PosInf = PosInf"
| "num_add (Num a) NegInf = NegInf"

definition num_sub :: "number \<Rightarrow> number \<Rightarrow> number" where
  "num_sub x y = num_add x (num_neg y)"

definition num_inf :: "bool \<Rightarrow> number" where
  "num_inf negative = (if negative then NegInf else PosInf)"

fun num_sign :: "number \<Rightarrow> real" where
  "num_sign (Num a) = a"
| "num_sign PosInf = 1"
| "num_sign NegInf = - 1"
| "num_sign NaN = 0"

fun num_mul :: "number \<Rightarrow> number \<Rightarrow> number" where
  "num_mul (Num a) (Num b) = Num (a * b)"
| "num_mul NaN _ = NaN"
| "num_mul _ NaN = NaN"
| "num_mul x y =
     (if num_sign x = 0 \<or> num_sign y = 0 then NaN
      else num_inf ((num_sign x < 0) \<noteq> (num_sign y < 0)))"

fun num_div :: "number \<Rightarrow> number \<Rightarrow> number" where
  "num_div (Num a) (Num b) =
     (if b \<noteq> 0 then Num (a / b) else if a = 0 then NaN else num_inf (a < 0))"
| "num_div NaN _ = NaN"
| "num_div _ NaN = NaN"
| "num_div (Num a) _ = Num 0"
| "num_div x (Num b) = num_inf ((num_sign x < 0) \<noteq> (b < 0))"
| "num_div _ _ = NaN"

fun num_less :: "number \<Rightarrow> number \<Rightarrow> bool" where
  "num_less (Num a) (Num b) = (a < b)"
| "num_less NaN _ = False"
| "num_less _ NaN = False"
| "num_less NegInf y = (y \<noteq> NegInf)"
| "num_less x PosInf = (x \<noteq> PosInf)"
| "num_less _ _ = False"


section \<open>Schema tables (DataTable.ts)\<close>

text \<open>
  The type tag is a five-bit number; the enum names its first seven values (\<open>Int\<close> is
  the ASCII notation for set intersection, so the constructors carry a prefix).
\<close>

datatype DataTablePropertyType =
  PInt | PFloat | PVector3 | PVector2 | PString | PArray | PDataTable | POther nat

datatype DataTablePropertyFlag =
  Unsigned | Coord | NoScale | RoundDown | RoundUp | Normal | Exclude | Xyze | InsideArray
  | ProxyAlwaysYes | IsVectorElem | Collapsible | CoordMp | CoordMpLp | CoordMpInt
  | CellCoord | CellCoordLp | CellCoordInt | ChangesOften

fun flagIndex :: "DataTablePropertyFlag \<Rightarrow> int" where
  "flagIndex Unsigned = 0"
| "flagIndex Coord = 1"
| "flagIndex NoScale = 2"
| "flagIndex RoundDown = 3"
| "flagIndex RoundUp = 4"
| "flagIndex Normal = 5"
| "flagIndex Exclude = 6"
| "flagIndex Xyze = 7"
| "flagIndex InsideArray = 8"
| "flagIndex ProxyAlwaysYes = 9"
| "flagIndex IsVectorElem = 10"
| "flagIndex Collapsible = 11"
| "flagIndex CoordMp = 12"
| "flagIndex CoordMpLp = 13"
| "flagIndex CoordMpInt = 14"
| "flagIndex CellCoord = 15"
| "flagIndex CellCoordLp = 16"
| "flagIndex CellCoordInt = 17"
| "flagIndex ChangesOften = 18"

record PropertyRange =
  low :: number
  high :: number
  bits :: nat

record DataTableProperty =
  propType :: DataTablePropertyType
  propName :: string
  flags :: int
  priority :: int
  excludeName :: "string option"
  propValue :: "PropertyRange option"
  arrayElements :: "int option"

definition hasFlag :: "DataTableProperty \<Rightarrow> DataTablePropertyFlag \<Rightarrow> bool" where
  "hasFlag p flag = (js_and (flags p) (js_shl 1 (flagIndex flag)) \<noteq> 0)"

record DataTable =
  needsDecoder :: bool
  tableName :: string
  properties :: "DataTableProperty list"

record ServerClass =
  tableID :: nat
  className :: string
  classTableName :: string

record FlatProperty =
  flatName :: string
  baseProperty :: DataTableProperty
  baseArrayProperty :: "DataTableProperty option"

record ParserClass =
  serverClass :: ServerClass
  flatProperties :: "FlatProperty list"

subsection \<open>Priority bucket sort\<close>

text \<open>
  \<open>new Set(priorities)\<close> iterates its elements in insertion order, each value once at its
  first occurrence.
\<close>

definition setOrder :: "'a list \<Rightarrow> 'a list" where
  "setOrder xs = rev (remdups (rev xs))"

definition prioritySet :: "FlatProperty list \<Rightarrow> int list" where
  "prioritySet flat = setOrder (sort (map (\<lambda>entry. priority (baseProperty entry)) flat @ [64]))"

text \<open>
  One turn of the inner loop at index \<open>i\<close>, on the list and the \<open>start\<close> counter.  The
  list is built by \<open>push\<close> only and has no gaps, so the two gap checks do not fire.
\<close>

definition sortStep :: "int \<Rightarrow> FlatProperty list \<times> nat \<Rightarrow> nat \<Rightarrow> FlatProperty list \<times> nat" where
  "sortStep prio st i =
     (let flat = fst st; start = snd st;
          flatProperty = flat ! i;
          base = baseProperty flatProperty
      in if priority base \<noteq> prio \<and> \<not> (hasFlag base ChangesOften \<and> prio = 64) then st
         else ((if start \<noteq> i then flat[i := flat ! start, start := flatProperty] else flat),
               start + 1))"

definition sortBucket :: "FlatProperty list \<times> nat \<Rightarrow> int \<Rightarrow> FlatProperty list \<times> nat" where
  "sortBucket st prio = foldl (sortStep prio) st [snd st..<length (fst st)]"

definition sortProperties :: "FlatProperty list \<Rightarrow> FlatProperty list" where
  "sortProperties flat = fst (foldl sortBucket (flat, 0) (prioritySet flat))"

text \<open>
  The test of the inner loop: a property joins the bucket of \<open>prio\<close> when its declared
  priority is \<open>prio\<close>, or when it is flagged "changes often" and \<open>prio\<close> is 64.
\<close>

definition bucketMatch :: "int \<Rightarrow> FlatProperty \<Rightarrow> bool" where
  "bucketMatch p x = (priority (baseProperty x) = p \<or> (hasFlag (baseProperty x) ChangesOften \<and> p = 64))"

text \<open>
  The bucket a property ends up in: buckets are visited in ascending order, so a
  "changes often" property is taken by bucket 64 only if its own priority is not smaller.
\<close>

definition bucketKey :: "FlatProperty \<Rightarrow> int" where
  "bucketKey x = (if hasFlag (baseProperty x) ChangesOften \<and> 64 \<le> priority (baseProperty x)
                  then 64 else priority (baseProperty x))"

text \<open>
  The claim's reading of the sort, in the spec's words: every "changes often" property
  belongs to bucket 64 whatever its declared priority, and the partition is stable.
\<close>

definition specBucket :: "FlatProperty \<Rightarrow> int" where
  "specBucket x = (if hasFlag (baseProperty x) ChangesOften then 64 else priority (baseProperty x))"

definition specSortProperties :: "FlatProperty list \<Rightarrow> FlatProperty list" where
  "specSortProperties flat = sort_key specBucket flat"

text \<open>A flattened integer property with the given name, priority and flag bits.\<close>

definition intProp :: "string \<Rightarrow> int \<Rightarrow> int \<Rightarrow> FlatProperty" where
  "intProp n prio fl = \<lparr>flatName = n,
     baseProperty = \<lparr>propType = PInt, propName = n, flags = fl, priority = prio,
        excludeName = None, propValue = Some \<lparr>low = Num 0, high = Num 0, bits = 8\<rparr>,
        arrayElements = None\<rparr>,
     baseArrayProperty = None\<rparr>"

text \<open>Loop invariants of the sort: one bucket pass up to index \<open>m\<close>, and the buckets done so far.\<close>

definition pass_inv :: "int \<Rightarrow> FlatProperty list \<Rightarrow> nat \<Rightarrow> nat \<Rightarrow> FlatProperty list \<times> nat \<Rightarrow> bool" where
  "pass_inv p xs s0 m st =
     (let ys = fst st; s = snd st in
        length ys = length xs \<and> mset ys = mset xs \<and> s0 \<le> s \<and> s \<le> m \<and>
        take s0 ys = take s0 xs \<and>
        (\<forall>j. s0 \<le> j \<and> j < s \<longrightarrow> bucketMatch p (ys ! j)) \<and>
        (\<forall>j. s \<le> j \<and> j < m \<longrightarrow> \<not> bucketMatch p (ys ! j)))"

definition outer_inv :: "FlatProperty list \<Rightarrow> int set \<Rightarrow> FlatProperty list \<times> nat \<Rightarrow> bool" where
  "outer_inv xs P st =
     (let ys = fst st; s = snd st in
        mset ys = mset xs \<and> s \<le> length ys \<and> sorted (map bucketKey (take s ys)) \<and>
        (\<forall>x \<in> set (take s ys). bucketKey x \<in> P) \<and>
        (\<forall>x \<in> set (drop s ys). \<forall>q \<in> P. \<not> bucketMatch q x))"

subsection \<open>Exclusion pairs\<close>





subsection \<open>Flattening\<close>






subsection \<open>Auxiliary notions for the flattening proofs\<close>





subsection \<open>A small schema\<close>

text \<open>
  A small schema: table \<open>T\<close> holds an array property in first position (no definition
  precedes it), an array element marked "inside array" (flag bit 8), the array property
  it belongs to, and a plain integer.
\<close>

definition schemaProp :: "DataTablePropertyType \<Rightarrow> string \<Rightarrow> int \<Rightarrow> DataTableProperty" where
  "schemaProp ty n fl = \<lparr>propType = ty, propName = n, flags = fl, priority = 0,
      excludeName = None,
      propValue = (if ty = PArray then None else Some \<lparr>low = Num 0, high = Num 0, bits = 8\<rparr>),
      arrayElements = (if ty = PArray then Some 4 else None)\<rparr>"

definition schemaTables :: "(string \<times> DataTable) list" where
  "schemaTables = [(''T'', \<lparr>needsDecoder = False, tableName = ''T'',
      properties = [schemaProp PArray ''first'' 0, schemaProp PInt ''el'' 256,
                    schemaProp PArray ''arr'' 0, schemaProp PInt ''x'' 0]\<rparr>)]"

definition schemaClass :: ServerClass where
  "schemaClass = \<lparr>tableID = 0, className = ''C'', classTableName = ''T''\<rparr>"

section \<open>More of the bitstream buffer: strings, floats, variable-length integers\<close>

text \<open>
  \<open>getString\<close>: one character per byte of the slice.  \<open>getNullTerminatedString\<close> takes at
  most \<open>bytes.length\<close> turns of its loop (the warning it prints when they run out is not
  recorded).
\<close>

definition getString :: "DemoBuffer \<Rightarrow> nat \<Rightarrow> nat \<Rightarrow> string" where
  "getString b from sz = map (\<lambda>c. char_of (uint c)) (sliceBytes b from (from + sz))"

fun nullTerminated :: "DemoBuffer \<Rightarrow> nat \<Rightarrow> nat \<Rightarrow> string" where
  "nullTerminated b pos 0 = []"
| "nullTerminated b pos (Suc turns) =
     (let byte = getByte b pos
      in if byte = 0 then [] else char_of byte # nullTerminated b (pos + 8) turns)"

definition getNullTerminatedString :: "DemoBuffer \<Rightarrow> nat \<Rightarrow> string" where
  "getNullTerminatedString b from = nullTerminated b from (length (bytes b))"

definition nextString :: "DemoBuffer \<Rightarrow> nat \<Rightarrow> string \<times> DemoBuffer" where
  "nextString b sz = (getString b (cursor b) sz, b\<lparr>cursor := cursor b + sz\<rparr>)"

definition nextNullTerminatedString :: "DemoBuffer \<Rightarrow> string \<times> DemoBuffer" where
  "nextNullTerminatedString b =
     (let s = getNullTerminatedString b (cursor b)
      in (s, b\<lparr>cursor := cursor b + (length s * 8 + 8)\<rparr>))"

text \<open>
  \<open>getFloat\<close> reads 32 bits, least significant byte first, as an IEEE-754 single; every
  single is a rational number or non-finite.
\<close>

definition float32 :: "int \<Rightarrow> number" where
  "float32 w =
     (let negative = (w div 2 ^ 31) mod 2 = 1;
          e = (w div 2 ^ 23) mod 256;
          m = w mod 2 ^ 23;
          mag = (if e = 0 then of_int m / 2 ^ 149
                 else if e < 150 then of_int (2 ^ 23 + m) / 2 ^ nat (150 - e)
                 else of_int (2 ^ 23 + m) * 2 ^ nat (e - 150))
      in if e = 255 then (if m = 0 then num_inf negative else NaN)
         else Num (if negative then - mag else mag))"

definition getFloat :: "DemoBuffer \<Rightarrow> nat \<Rightarrow> number" where
  "getFloat b from = float32 (getInt b from 32)"

definition nextFloat :: "DemoBuffer \<Rightarrow> number \<times> DemoBuffer" where
  "nextFloat b = (getFloat b (cursor b), b\<lparr>cursor := cursor b + 32\<rparr>)"

definition nextBitInt :: "DemoBuffer \<Rightarrow> int \<times> DemoBuffer" where
  "nextBitInt b =
     (let (ret, b1) = nextInt b 4;
          (sel, b2) = nextInt b1 2
      in if sel = 1 then (let (v, b3) = nextInt b2 4 in (js_or ret (js_shl v 4), b3))
         else if sel = 2 then (let (v, b3) = nextByte b2 in (js_or ret (js_shl v 4), b3))
         else if sel = 3
         then (let (v, b3) = nextInt b2 28 in (js_or ret (js_shr (js_shl v 4) 0), b3))
         else (ret, b2))"

definition nextPropertyIndex :: "DemoBuffer \<Rightarrow> int \<Rightarrow> bool \<Rightarrow> int \<times> DemoBuffer" where
  "nextPropertyIndex b lastIndex newScheme =
     (let (plusOne, b1) = (if newScheme then nextBit b else (0, b))
      in if newScheme \<and> plusOne \<noteq> 0 then (lastIndex + 1, b1)
         else
           (let (short, b2) = (if newScheme then nextBit b1 else (0, b1));
                (ret, b3) =
                  (if newScheme \<and> short \<noteq> 0 then nextInt b2 3
                   else (let (r0, c1) = nextInt b2 5;
                             (sel, c2) = nextInt c1 2
                         in if sel = 1 then (let (v, c3) = nextInt c2 2 in (js_or r0 (js_shl v 5), c3))
                            else if sel = 2
                            then (let (v, c3) = nextInt c2 4 in (js_or r0 (js_shl v 5), c3))
                            else if sel = 3
                            then (let (v, c3) = nextInt c2 7 in (js_or r0 (js_shl v 5), c3))
                            else (r0, c2)))
            in if ret = 4095 then (- 1, b3) else (lastIndex + 1 + ret, b3)))"

fun highestBitFrom :: "int \<Rightarrow> nat \<Rightarrow> int" where
  "highestBitFrom i 0 = (if js_and i (js_shl 1 0) = 0 then - 1 else 0)"
| "highestBitFrom i (Suc j) =
     (if js_and i (js_shl 1 (int (Suc j))) = 0 then highestBitFrom i j else int (Suc j))"

definition highestBitIndex :: "int \<Rightarrow> int" where
  "highestBitIndex i = highestBitFrom i 31"

section \<open>Property values (Entity.ts)\<close>

text \<open>\<open>new Vector(x, y, z)\<close> replaces a \<open>NaN\<close> component by 0.\<close>

record Vector =
  vx :: number
  vy :: number
  vz :: number

definition numberOr0 :: "number \<Rightarrow> number" where
  "numberOr0 n = (if n = NaN then Num 0 else n)"

definition newVector :: "number \<Rightarrow> number \<Rightarrow> number \<Rightarrow> Vector" where
  "newVector x y z = \<lparr>vx = numberOr0 x, vy = numberOr0 y, vz = numberOr0 z\<rparr>"

datatype EntityPropertyValueType =
    VNumber number
  | VString string
  | VVector Vector
  | VNumbers "number list"
  | VStrings "string list"
  | VVectors "Vector list"

fun isArray :: "EntityPropertyValueType \<Rightarrow> bool" where
  "isArray (VNumbers _) = True"
| "isArray (VStrings _) = True"
| "isArray (VVectors _) = True"
| "isArray _ = False"

record EntityProperty =
  epIndex :: nat
  epProperty :: FlatProperty
  bufferFrom :: nat
  bufferSize :: nat
  epValue :: EntityPropertyValueType

subsection \<open>Decoding\<close>

definition decodeInt :: "DemoBuffer \<Rightarrow> DataTableProperty \<Rightarrow> error + (number \<times> DemoBuffer)" where
  "decodeInt b base =
     (case propValue base of
        None \<Rightarrow> Inl (Thrown ''Invalid property definition.'')
      | Some rng \<Rightarrow>
          (let (v, b1) = (if hasFlag base Unsigned then nextInt b (bits rng)
                          else nextSignedInt b (bits rng))
           in Inr (num_of_int v, b1)))"

text \<open>\<open>1 / (1 << n)\<close> and \<open>x * (1 / d)\<close> on integers, in exact arithmetic.\<close>

definition fraction :: "int \<Rightarrow> int \<Rightarrow> real" where
  "fraction x d = of_int x * (1 / of_int d)"

definition negateIf :: "bool \<Rightarrow> real \<Rightarrow> real" where
  "negateIf sign v = (if sign then - v else v)"

definition decodeFloat :: "DemoBuffer \<Rightarrow> DataTableProperty \<Rightarrow> error + (number \<times> DemoBuffer)" where
  "decodeFloat b base =
     (case propValue base of
        None \<Rightarrow> Inl (Thrown ''Invalid property definition.'')
      | Some rng \<Rightarrow>
          if hasFlag base Coord then
            (let (hasInt, b1) = nextBit b;
                 (hasFrac, b2) = nextBit b1
             in if hasInt \<noteq> 0 \<or> hasFrac \<noteq> 0 then
                  (let (sign, b3) = nextBit b2;
                       (intPart, b4) = (if hasInt \<noteq> 0 then nextInt b3 14 else (0, b3));
                       v1 = (if hasInt \<noteq> 0 then of_int (intPart + 1) else 0);
                       (fracPart, b5) = (if hasFrac \<noteq> 0 then nextInt b4 5 else (0, b4));
                       v2 = (if hasFrac \<noteq> 0 then v1 + fraction fracPart (js_shl 1 5) else v1)
                   in Inr (Num (negateIf (sign \<noteq> 0) v2), b5))
                else Inr (Num 0, b2))
          else if hasFlag base CoordMp \<or> hasFlag base CoordMpLp \<or> hasFlag base CoordMpInt then
            (let (inBounds, b1) = nextBit b
             in if hasFlag base CoordMpInt then
                  (let (present, b2) = nextBit b1
                   in if present \<noteq> 0 then
                        (let (sign, b3) = nextBit b2;
                             (v, b4) = (if inBounds \<noteq> 0 then nextInt b3 11 else nextInt b3 14)
                         in Inr (Num (negateIf (sign \<noteq> 0) (of_int (v + 1))), b4))
                      else Inr (Num 0, b2))
                else
                  (let (intVal0, b2) = nextBit b1;
                       (sign, b3) = nextBit b2;
                       (intVal, b4) =
                          (if intVal0 \<noteq> 0
                           then (let (v, c) = (if inBounds \<noteq> 0 then nextInt b3 11 else nextInt b3 14)
                                 in (v + 1, c))
                           else (intVal0, b3));
                       lp = hasFlag base CoordMpLp;
                       (fractVal, b5) = nextInt b4 (if lp then 3 else 5);
                       v = of_int intVal + fraction fractVal (js_shl 1 (if lp then 3 else 5))
                   in Inr (Num (negateIf (sign \<noteq> 0) v), b5)))
          else if hasFlag base NoScale then Inr (nextFloat b)
          else if hasFlag base Normal then
            (let (sign, b1) = nextBit b;
                 (v, b2) = nextInt b1 11
             in Inr (Num (negateIf (sign \<noteq> 0) (fraction v (js_shl 1 11 - 1))), b2))
          else if hasFlag base CellCoord \<or> hasFlag base CellCoordLp \<or> hasFlag base CellCoordInt then
            (let (integer, b1) = nextInt b (bits rng)
             in if hasFlag base CellCoordInt then Inr (num_of_int integer, b1)
                else
                  (let lp = hasFlag base CellCoordLp;
                       (frac, b2) = nextInt b1 (if lp then 3 else 5)
                   in Inr (Num (of_int integer + fraction frac (js_shl 1 (if lp then 3 else 5))), b2)))
          else
            (let (dwInterp, b1) = nextInt b (bits rng);
                 v = num_div (num_of_int dwInterp) (num_of_int (js_shl 1 (int (bits rng)) - 1))
             in Inr (num_add (low rng) (num_mul (num_sub (high rng) (low rng)) v), b1)))"

text \<open>
  \<open>Math.sqrt\<close>.  The real square root is not computed by evaluation, so the equations
  of \<open>num_sqrt\<close> are kept out of the code equations.
\<close>

fun num_sqrt :: "number \<Rightarrow> number" where
  "num_sqrt (Num a) = (if a < 0 then NaN else Num (sqrt a))"
| "num_sqrt PosInf = PosInf"
| "num_sqrt _ = NaN"

declare num_sqrt.simps [code del]

definition decodeVector2 :: "DemoBuffer \<Rightarrow> DataTableProperty \<Rightarrow> error + (Vector \<times> DemoBuffer)" where
  "decodeVector2 b base =
     (case decodeFloat b base of Inl e \<Rightarrow> Inl e
      | Inr (x, b1) \<Rightarrow>
          (case decodeFloat b1 base of Inl e \<Rightarrow> Inl e
           | Inr (y, b2) \<Rightarrow> Inr (newVector x y (Num 0), b2)))"

definition decodeVector3 :: "DemoBuffer \<Rightarrow> DataTableProperty \<Rightarrow> error + (Vector \<times> DemoBuffer)" where
  "decodeVector3 b base =
     (case decodeVector2 b base of Inl e \<Rightarrow> Inl e
      | Inr (vector, b2) \<Rightarrow>
          if hasFlag base Normal then
            (let (sign, b3) = nextBit b2;
                 distSqr = num_add (num_mul (vx vector) (vx vector)) (num_mul (vy vector) (vy vector));
                 z = (if num_less distSqr (Num 1) then num_sqrt (num_sub (Num 1) distSqr) else Num 0)
             in Inr (vector\<lparr>vz := (if sign \<noteq> 0 then num_neg z else z)\<rparr>, b3))
          else
            (case decodeFloat b2 base of Inl e \<Rightarrow> Inl e
             | Inr (z, b3) \<Rightarrow> Inr (vector\<lparr>vz := z\<rparr>, b3)))"

definition decodeString :: "DemoBuffer \<Rightarrow> DataTableProperty \<Rightarrow> error + (string \<times> DemoBuffer)" where
  "decodeString b base =
     (let (len, b1) = nextInt b 9 in Inr (nextString b1 (nat len * 8)))"

text \<open>A \<open>for\<close> loop that decodes \<open>count\<close> elements and pushes them.\<close>

fun decodeMany ::
    "(DemoBuffer \<Rightarrow> DataTableProperty \<Rightarrow> error + ('a \<times> DemoBuffer)) \<Rightarrow> nat \<Rightarrow> DemoBuffer
       \<Rightarrow> DataTableProperty \<Rightarrow> error + ('a list \<times> DemoBuffer)" where
  "decodeMany decode 0 b base = Inr ([], b)"
| "decodeMany decode (Suc n) b base =
     (case decode b base of Inl e \<Rightarrow> Inl e
      | Inr (v, b1) \<Rightarrow>
          (case decodeMany decode n b1 base of Inl e \<Rightarrow> Inl e
           | Inr (vs, b2) \<Rightarrow> Inr (v # vs, b2)))"

definition wrapValue :: "('a \<Rightarrow> EntityPropertyValueType) \<Rightarrow> error + ('a \<times> DemoBuffer)
    \<Rightarrow> error + (EntityPropertyValueType \<times> DemoBuffer)" where
  "wrapValue mk r = (case r of Inl e \<Rightarrow> Inl e | Inr (v, b) \<Rightarrow> Inr (mk v, b))"

definition decodeArray ::
    "DemoBuffer \<Rightarrow> DataTableProperty \<Rightarrow> DataTableProperty option
       \<Rightarrow> error + (EntityPropertyValueType \<times> DemoBuffer)" where
  "decodeArray b base baseArray =
     (case baseArray of
        None \<Rightarrow> Inl (Thrown ''Invalid array property definition.'')
      | Some elem \<Rightarrow>
          (case arrayElements base of
             None \<Rightarrow> Inl (Thrown ''Array property definition missing element count.'')
           | Some n \<Rightarrow>
               (let countBits = highestBitIndex n + 1;
                    (count, b1) = nextInt b (nat countBits)
                in case propType elem of
                     PInt \<Rightarrow> wrapValue VNumbers (decodeMany decodeInt (nat count) b1 elem)
                   | PFloat \<Rightarrow> wrapValue VNumbers (decodeMany decodeFloat (nat count) b1 elem)
                   | PString \<Rightarrow> wrapValue VStrings (decodeMany decodeString (nat count) b1 elem)
                   | PVector3 \<Rightarrow> wrapValue VVectors (decodeMany decodeVector3 (nat count) b1 elem)
                   | PVector2 \<Rightarrow> wrapValue VVectors (decodeMany decodeVector2 (nat count) b1 elem)
                   | _ \<Rightarrow> Inl (Thrown ''Unknown array property type.''))))"

text \<open>\<open>EntityProperty.fromDemo\<close>; named after its class, as \<open>fromDemo\<close> is the schema's.\<close>

definition entityPropertyFromDemo ::
    "DemoBuffer \<Rightarrow> nat \<Rightarrow> FlatProperty \<Rightarrow> error + (EntityProperty \<times> DemoBuffer)" where
  "entityPropertyFromDemo b idx flatProperty =
     (let from = cursor b;
          base = baseProperty flatProperty;
          r = (case propType base of
                 PInt \<Rightarrow> wrapValue VNumber (decodeInt b base)
               | PFloat \<Rightarrow> wrapValue VNumber (decodeFloat b base)
               | PVector3 \<Rightarrow> wrapValue VVector (decodeVector3 b base)
               | PVector2 \<Rightarrow> wrapValue VVector (decodeVector2 b base)
               | PString \<Rightarrow> wrapValue VString (decodeString b base)
               | PArray \<Rightarrow> decodeArray b base (baseArrayProperty flatProperty)
               | _ \<Rightarrow> Inl (Thrown ''Unknown property type.''))
      in case r of Inl e \<Rightarrow> Inl e
         | Inr (v, b1) \<Rightarrow>
             Inr (\<lparr>epIndex = idx, epProperty = flatProperty, bufferFrom = from,
                   bufferSize = cursor b1 - from, epValue = v\<rparr>, b1))"

text \<open>
  \<open>readProperties\<close>.  Each turn of the \<open>while\<close> loop reads an index larger than the last
  one and stops when it is not below \<open>flatProperties.length\<close>, so the loop takes at most
  \<open>length + 1\<close> turns; the recursion is on that number of turns.  The result carries the
  warning, if one is printed.
\<close>

fun readLoop ::
    "nat \<Rightarrow> DemoBuffer \<Rightarrow> FlatProperty list \<Rightarrow> bool \<Rightarrow> int \<Rightarrow> EntityProperty list
       \<Rightarrow> error + (EntityProperty list \<times> DemoBuffer \<times> string list)" where
  "readLoop 0 b flat newScheme i acc = Inr (acc, b, [])"
| "readLoop (Suc turns) b flat newScheme i acc =
     (let (i', b1) = nextPropertyIndex b i newScheme
      in if i' = - 1 then Inr (acc, b1, [])
         else if i' < 0 \<or> i' \<ge> int (length flat)
         then Inr (acc, b1, [''Overflowed expected entity property count.''])
         else (case entityPropertyFromDemo b1 (nat i') (flat ! nat i') of
                 Inl e \<Rightarrow> Inl e
               | Inr (p, b2) \<Rightarrow> readLoop turns b2 flat newScheme i' (acc @ [p])))"

definition readProperties ::
    "DemoBuffer \<Rightarrow> FlatProperty list
       \<Rightarrow> error + (EntityProperty list \<times> DemoBuffer \<times> string list)" where
  "readProperties b flat =
     (let (newScheme, b1) = nextBit b
      in readLoop (length flat + 1) b1 flat (newScheme \<noteq> 0) (- 1) [])"

section \<open>Entities (Entity.ts)\<close>

text \<open>
  Sparse arrays: a slot holds a value or is empty.  A read past the end is \<open>undefined\<close>, a
  store past the end extends the array, \<open>delete\<close> empties a slot and keeps the length.
\<close>

definition arrayGet :: "'a option list \<Rightarrow> nat \<Rightarrow> 'a option" where
  "arrayGet xs i = (if i < length xs then xs ! i else None)"

definition arraySet :: "'a option list \<Rightarrow> nat \<Rightarrow> 'a \<Rightarrow> 'a option list" where
  "arraySet xs i v =
     (if i < length xs then xs[i := Some v]
      else xs @ replicate (i - length xs) None @ [Some v])"

definition arrayDelete :: "'a option list \<Rightarrow> nat \<Rightarrow> 'a option list" where
  "arrayDelete xs i = (if i < length xs then xs[i := None] else xs)"

record StaticBaseline =
  baselineClass :: ServerClass
  entityProperties :: "EntityProperty option list"

text \<open>\<open>source\<close> is the demo the entity was read from, or absent.\<close>

record Entity =
  entityClass :: ServerClass
  entityProps :: "EntityProperty option list"
  serial :: int
  entityIndex :: nat
  inPVS :: bool
  hasSource :: bool

text \<open>
  The session.  Entities are objects: \<open>entityHeap\<close> holds them by address (a new one is
  appended) and each slot of \<open>entities\<close> holds an address, so that a change to an entity
  is a change at its address whoever refers to it.  Property objects are kept by value:
  only array-valued ones are ever changed, and each entity owns private copies of those.
  \<open>warnings\<close> collects what the parser prints with \<open>console.warn\<close>.
\<close>

record StringTableClass =
  stClassName :: string
  stClassData :: "string option"

record PlayerInfo =
  steamID :: int
  playerName :: string
  userID :: int
  GUID :: string
  friendsID :: int
  friendsName :: string
  fakePlayer :: bool
  isHLTV :: bool
  customFilesCRC :: "int list"
  filesDownloaded :: int

datatype EntryData =
    NoData
  | PlayerInfoData PlayerInfo
  | QueryPort int
  | InstanceBaseline "ServerClass option" "EntityProperty list option"
  | StringEntryData string
  | LightStyle string
  | PrecacheData int

record StringTableEntry =
  entryTable :: string
  entryName :: string
  entryData :: EntryData

record StringTable =
  stName :: string
  entries :: "StringTableEntry list"
  stClasses :: "StringTableClass list"
  maxEntries :: "int option"
  userDataSize :: int
  userDataSizeBits :: int

record Demo =
  buf :: DemoBuffer
  dataTables :: "(string \<times> DataTable) list option"
  serverClasses :: "ServerClass list option"
  stringTables :: "(string \<times> StringTable) list"
  parserClasses :: "ParserClass list option"
  baselines :: "StaticBaseline option list"
  tick :: int
  entities :: "nat option list option"
  entityHeap :: "Entity list"
  warnings :: "string list"

definition warn :: "string \<Rightarrow> Demo \<Rightarrow> Demo" where
  "warn msg d = d\<lparr>warnings := warnings d @ [msg]\<rparr>"

definition withWarnings :: "string list \<Rightarrow> Demo \<Rightarrow> Demo" where
  "withWarnings ws d = d\<lparr>warnings := warnings d @ ws\<rparr>"

definition setCursor :: "nat \<Rightarrow> Demo \<Rightarrow> Demo" where
  "setCursor c d = d\<lparr>buf := (buf d)\<lparr>cursor := c\<rparr>\<rparr>"

subsection \<open>Array-valued properties\<close>

definition copyArrayProperty :: "EntityProperty \<Rightarrow> error + EntityProperty" where
  "copyArrayProperty p =
     (if \<not> isArray (epValue p) then Inl (Thrown ''Tried to copy array of non-array property.'')
      else Inr p)"

text \<open>\<open>this.updateArrayProperty(other)\<close> returns \<open>other\<close> as changed.\<close>

definition updateArrayProperty :: "EntityProperty \<Rightarrow> EntityProperty \<Rightarrow> error + EntityProperty" where
  "updateArrayProperty this other =
     (if \<not> isArray (epValue this)
      then Inl (Thrown ''Tried to update array from non-array property.'')
      else if \<not> isArray (epValue other)
      then Inl (Thrown ''Tried to update array of non-array property.'')
      else Inr (other\<lparr>bufferFrom := bufferFrom this, bufferSize := bufferSize this,
                       epValue := epValue this\<rparr>))"

subsection \<open>Baselines\<close>

definition updateBaselineStep ::
    "error + EntityProperty option list \<Rightarrow> EntityProperty \<Rightarrow> error + EntityProperty option list" where
  "updateBaselineStep acc from =
     (case acc of Inl e \<Rightarrow> Inl e
      | Inr props \<Rightarrow>
          (case arrayGet props (epIndex from) of
             Some to \<Rightarrow>
               if isArray (epValue to)
               then (case updateArrayProperty from to of Inl e \<Rightarrow> Inl e
                     | Inr to' \<Rightarrow> Inr (arraySet props (epIndex from) to'))
               else if isArray (epValue from)
               then (case copyArrayProperty from of Inl e \<Rightarrow> Inl e
                     | Inr c \<Rightarrow> Inr (arraySet props (epIndex from) c))
               else Inr (arraySet props (epIndex from) from)
           | None \<Rightarrow>
               if isArray (epValue from)
               then (case copyArrayProperty from of Inl e \<Rightarrow> Inl e
                     | Inr c \<Rightarrow> Inr (arraySet props (epIndex from) c))
               else Inr (arraySet props (epIndex from) from)))"

definition updateBaseline ::
    "Demo \<Rightarrow> ServerClass \<Rightarrow> EntityProperty list \<Rightarrow> nat \<Rightarrow> error + Demo" where
  "updateBaseline d sc props flatPropertyCount =
     (let i = tableID sc;
          baseLine = (case arrayGet (baselines d) i of
                        Some bl \<Rightarrow> bl
                      | None \<Rightarrow> \<lparr>baselineClass = sc,
                                  entityProperties = replicate flatPropertyCount None\<rparr>)
      in case foldl updateBaselineStep (Inr (entityProperties baseLine)) props of
           Inl e \<Rightarrow> Inl e
         | Inr ps \<Rightarrow> Inr (d\<lparr>baselines := arraySet (baselines d) i
                                (baseLine\<lparr>entityProperties := ps\<rparr>)\<rparr>))"

subsection \<open>Entity life cycle\<close>

text \<open>The four kinds of update; \<open>EntityEnterPVS\<close> extends \<open>EntityDelta\<close>.\<close>

record EntityDelta =
  deltaClass :: ServerClass
  deltaIndex :: nat
  deltaProperties :: "EntityProperty list"

record EntityEnterPVS = EntityDelta +
  enterSerial :: int
  isNew :: bool

record EntityLeavePVS =
  leaveClass :: ServerClass
  leaveIndex :: nat
  doDelete :: bool

text \<open>
  \<open>Entity.fromBaseline\<close>: the new entity and the session, which gains a blank baseline
  (and a warning) when the class has none.
\<close>

definition fromBaseline :: "Demo \<Rightarrow> ServerClass \<Rightarrow> int \<Rightarrow> nat \<Rightarrow> Entity \<times> Demo" where
  "fromBaseline d sc ser idx =
     (let (baseline, d1) =
            (case arrayGet (baselines d) (tableID sc) of
               Some bl \<Rightarrow> (bl, d)
             | None \<Rightarrow>
                 (let blank = \<lparr>baselineClass = sc, entityProperties = []\<rparr>
                  in (blank, (warn ''Missing baseline, creating blank.'' d)
                               \<lparr>baselines := arraySet (baselines d) (tableID sc) blank\<rparr>)))
      in (\<lparr>entityClass = sc, entityProps = entityProperties baseline, serial = ser,
            entityIndex = idx, inPVS = True, hasSource = True\<rparr>, d1))"

text \<open>The loop of \<open>applyDelta\<close> over the properties of the update, on the entity's own array.\<close>

definition applyStep ::
    "error + EntityProperty option list \<Rightarrow> EntityProperty \<Rightarrow> error + EntityProperty option list" where
  "applyStep acc property =
     (case acc of Inl e \<Rightarrow> Inl e
      | Inr props \<Rightarrow>
          (let oldProperty = arrayGet props (epIndex property) in
           if isArray (epValue property) then
             (case oldProperty of
                None \<Rightarrow>
                  (case copyArrayProperty property of Inl e \<Rightarrow> Inl e
                   | Inr c \<Rightarrow> Inr (arraySet props (epIndex property) c))
              | Some old \<Rightarrow>
                  (case updateArrayProperty property old of Inl e \<Rightarrow> Inl e
                   | Inr old' \<Rightarrow> Inr (arraySet props (epIndex property) old')))
           else Inr (arraySet props (epIndex property) property)))"

definition applyProperties ::
    "EntityProperty option list \<Rightarrow> EntityProperty list \<Rightarrow> error + EntityProperty option list" where
  "applyProperties props delta = foldl applyStep (Inr props) delta"

definition applyDelta :: "Demo \<Rightarrow> nat \<Rightarrow> EntityProperty list \<Rightarrow> error + Demo" where
  "applyDelta d idx delta =
     (case entities d of
        None \<Rightarrow> Inl (Thrown ''Tried to parse entity update without entities.'')
      | Some slots \<Rightarrow>
          (case arrayGet slots idx of
             None \<Rightarrow> Inl (Thrown ''Tried to apply delta to non-existent entity.'')
           | Some a \<Rightarrow>
               (case applyProperties (entityProps (entityHeap d ! a)) delta of
                  Inl e \<Rightarrow> Inl e
                | Inr ps \<Rightarrow>
                    Inr (d\<lparr>entityHeap := (entityHeap d)[a := (entityHeap d ! a)\<lparr>entityProps := ps\<rparr>]\<rparr>))))"

definition enterPVS :: "Demo \<Rightarrow> EntityEnterPVS \<Rightarrow> error + Demo" where
  "enterPVS d update =
     (if length (baselines d) = 0
      then Inl (Thrown ''Tried to parse entity update without baselines.'')
      else case entities d of
        None \<Rightarrow> Inl (Thrown ''Tried to parse entity update without entities.'')
      | Some slots \<Rightarrow>
          (let (entity, d1) =
                 (if isNew update
                  then (let (e, d') = fromBaseline d (deltaClass update) (enterSerial update)
                                        (deltaIndex update);
                            a = length (entityHeap d')
                        in (Some a, d'\<lparr>entityHeap := entityHeap d' @ [e],
                                       entities := Some (arraySet slots (deltaIndex update) a)\<rparr>))
                  else (arrayGet slots (deltaIndex update), d))
           in case entity of
                None \<Rightarrow> Inr (warn ''Untracked entity entered PVS.'' d1)
              | Some a \<Rightarrow>
                  applyDelta
                    (d1\<lparr>entityHeap := (entityHeap d1)[a := (entityHeap d1 ! a)\<lparr>inPVS := True\<rparr>]\<rparr>)
                    (deltaIndex update) (deltaProperties update)))"

definition leavePVS :: "Demo \<Rightarrow> EntityLeavePVS \<Rightarrow> error + Demo" where
  "leavePVS d update =
     (case entities d of
        None \<Rightarrow> Inl (Thrown ''Tried to parse entity update without entities.'')
      | Some slots \<Rightarrow>
          if doDelete update
          then Inr (d\<lparr>entities := Some (arrayDelete slots (leaveIndex update))\<rparr>)
          else (case arrayGet slots (leaveIndex update) of
                  None \<Rightarrow> Inr d
                | Some a \<Rightarrow>
                    Inr (d\<lparr>entityHeap := (entityHeap d)[a := (entityHeap d ! a)\<lparr>inPVS := False\<rparr>]\<rparr>)))"

section \<open>Writing property values back (Entity.ts)\<close>

subsection \<open>\<open>Math\<close> functions and number-valued writes\<close>











subsection \<open>The setters of \<open>EntityProperty\<close>\<close>








text \<open>
  \<open>Entity.SetProperty\<close>, with the demo the entity was read from: the first property that
  is present and carries the name.
\<close>

definition findProperty :: "Entity \<Rightarrow> string \<Rightarrow> EntityProperty option" where
  "findProperty entity n =
     (case filter (\<lambda>p. case p of None \<Rightarrow> False | Some q \<Rightarrow> flatName (epProperty q) = n)
             (entityProps entity) of
        [] \<Rightarrow> None
      | p # _ \<Rightarrow> p)"


definition GetProperty :: "Entity \<Rightarrow> string \<Rightarrow> EntityPropertyValueType option" where
  "GetProperty entity n = map_option epValue (findProperty entity n)"

section \<open>String tables (StringTable.ts, SvcUpdateStringTable)\<close>

subsection \<open>Entries\<close>

text \<open>\<open>string.slice(0, string.indexOf('\0'))\<close>: without a NUL the last character is dropped.\<close>

definition trimmed :: "string \<Rightarrow> string" where
  "trimmed s = (if CHR 0x00 \<in> set s then takeWhile (\<lambda>c. c \<noteq> CHR 0x00) s else butlast s)"

definition nextTrimmedString :: "DemoBuffer \<Rightarrow> nat \<Rightarrow> string \<times> DemoBuffer" where
  "nextTrimmedString b sz = (let (s, b1) = nextString b sz in (trimmed s, b1))"

text \<open>
  \<open>parseInt\<close> without a radix: leading white space, a sign, then hexadecimal digits after
  \<open>0x\<close> or decimal digits; \<open>None\<close> is \<open>NaN\<close>. The characters of a name are bytes of the
  blob (\<open>String.fromCharCode\<close> of a byte), among which the white space and line
  terminators of the language are 9 to 13, 32 and 160 (the no-break space).
\<close>

definition digitValue :: "char \<Rightarrow> nat option" where
  "digitValue c =
     (let n = of_char c :: nat
      in if 48 \<le> n \<and> n \<le> 57 then Some (n - 48)
         else if 97 \<le> n \<and> n \<le> 102 then Some (n - 87)
         else if 65 \<le> n \<and> n \<le> 70 then Some (n - 55)
         else None)"

definition digitsValue :: "nat \<Rightarrow> string \<Rightarrow> int option" where
  "digitsValue radix s =
     (let ds = takeWhile (\<lambda>c. case digitValue c of None \<Rightarrow> False | Some v \<Rightarrow> v < radix) s
      in if ds = [] then None
         else Some (foldl (\<lambda>acc c. acc * int radix + int (the (digitValue c))) 0 ds))"

definition parseInt :: "string \<Rightarrow> int option" where
  "parseInt s =
     (let s1 = dropWhile (\<lambda>c. (of_char c :: nat) \<in> {9, 10, 11, 12, 13, 32, 160}) s;
          negative = (s1 \<noteq> [] \<and> hd s1 = CHR ''-'');
          s2 = (if s1 \<noteq> [] \<and> (hd s1 = CHR ''-'' \<or> hd s1 = CHR ''+'') then tl s1 else s1);
          r = (if take 2 s2 = ''0x'' \<or> take 2 s2 = ''0X'' then digitsValue 16 (drop 2 s2)
               else digitsValue 10 s2)
      in map_option (\<lambda>v. if negative then - v else v) r)"

definition bigEndian :: "8 word list \<Rightarrow> int" where
  "bigEndian bs = foldl (\<lambda>acc byte. acc * 256 + uint byte) 0 bs"

definition readPlayerInfo :: "DemoBuffer \<Rightarrow> PlayerInfo \<times> DemoBuffer" where
  "readPlayerInfo b =
     (let (sid, b1) = nextBytes b 64;
          (nm, b2) = nextTrimmedString b1 (32 * 8);
          (uid, b3) = nextSignedInt b2 32;
          (guid, b4) = nextTrimmedString b3 (33 * 8);
          (pad1, b5) = nextInt b4 (3 * 8);
          (fid, b6) = nextInt b5 32;
          (fname, b7) = nextTrimmedString b6 (32 * 8);
          (fake, b8) = nextByte b7;
          (hltv, b9) = nextByte b8;
          (pad2, b10) = nextInt b9 (2 * 8);
          (crc0, b11) = nextInt b10 32;
          (crc1, b12) = nextInt b11 32;
          (crc2, b13) = nextInt b12 32;
          (crc3, b14) = nextInt b13 32;
          (files, b15) = nextByte b14
      in (\<lparr>steamID = bigEndian sid, playerName = nm, userID = uid, GUID = guid,
            friendsID = fid, friendsName = fname, fakePlayer = (fake \<noteq> 0),
            isHLTV = (hltv \<noteq> 0), customFilesCRC = [crc0, crc1, crc2, crc3],
            filesDownloaded = files\<rparr>, b15))"

definition readInstanceBaseline :: "string \<Rightarrow> Demo \<Rightarrow> error + (EntryData \<times> Demo)" where
  "readInstanceBaseline name d =
     (case parserClasses d of
        None \<Rightarrow> Inr (InstanceBaseline None None,
                      warn ''Received InstanceBaseline before DataTables.'' d)
      | Some parsers \<Rightarrow>
          (case parseInt name of
             None \<Rightarrow> Inl (Thrown ''Name is not a valid server class index.'')
           | Some i \<Rightarrow>
               if i < 0 \<or> i \<ge> int (length parsers)
               then Inl (Thrown ''Name is not a valid server class index.'')
               else
                 (let parserClass = parsers ! nat i
                  in case readProperties (buf d) (flatProperties parserClass) of
                       Inl e \<Rightarrow> Inl e
                     | Inr (props, b1, ws) \<Rightarrow>
                         (case updateBaseline (withWarnings ws (d\<lparr>buf := b1\<rparr>))
                                 (serverClass parserClass) props
                                 (length (flatProperties parserClass)) of
                            Inl e \<Rightarrow> Inl e
                          | Inr d1 \<Rightarrow>
                              Inr (InstanceBaseline (Some (serverClass parserClass)) (Some props),
                                   d1)))))"

text \<open>\<open>StringTableEntry.fromDemo\<close>: the variant is chosen by the table name.\<close>

definition entryFromDemo :: "string \<Rightarrow> string \<Rightarrow> Demo \<Rightarrow> error + (StringTableEntry \<times> Demo)" where
  "entryFromDemo table name d =
     (let mk = (\<lambda>x. \<lparr>entryTable = table, entryName = name, entryData = x\<rparr>)
      in if table = ''userinfo''
         then (let (p, b1) = readPlayerInfo (buf d) in Inr (mk (PlayerInfoData p), d\<lparr>buf := b1\<rparr>))
         else if table = ''server_query_info''
         then (let (p, b1) = nextInt (buf d) 32 in Inr (mk (QueryPort p), d\<lparr>buf := b1\<rparr>))
         else if table = ''instancebaseline''
         then (case readInstanceBaseline name d of Inl e \<Rightarrow> Inl e
               | Inr (x, d1) \<Rightarrow> Inr (mk x, d1))
         else if table = ''GameRulesCreation'' \<or> table = ''InfoPanel''
         then (let (s, b1) = nextNullTerminatedString (buf d)
               in Inr (mk (StringEntryData s), d\<lparr>buf := b1\<rparr>))
         else if table = ''lightstyles''
         then (let (s, b1) = nextNullTerminatedString (buf d)
               in Inr (mk (LightStyle s), d\<lparr>buf := b1\<rparr>))
         else if table = ''modelprecache'' \<or> table = ''genericprecache''
                 \<or> table = ''soundprecache'' \<or> table = ''decalprecache''
         then (let (f, b1) = nextInt (buf d) 2 in Inr (mk (PrecacheData f), d\<lparr>buf := b1\<rparr>))
         else Inr (mk NoData, d))"

subsection \<open>Incremental update\<close>

text \<open>
  \<open>nextInt\<close> with the width \<open>highestBitIndex(maxEntries)\<close>, which is \<open>-1\<close> for an empty
  table: the slice is then empty, the value 0, and the cursor moves back by one bit.
\<close>

definition nextIntSigned :: "DemoBuffer \<Rightarrow> int \<Rightarrow> int \<times> DemoBuffer" where
  "nextIntSigned b sz =
     (if 0 \<le> sz then nextInt b (nat sz) else (0, b\<lparr>cursor := cursor b - nat (- sz)\<rparr>))"

text \<open>The rolling history: at most 32 names, the oldest dropped first.\<close>

definition pushHistory :: "string list \<Rightarrow> string \<Rightarrow> string list" where
  "pushHistory history name = (if length history = 32 then tl history else history) @ [name]"

text \<open>
  The name of one entry: a warning when the update has to be given up, the name otherwise.
  \<open>!historyItem\<close> holds for a missing history slot and for the empty name.
\<close>

definition readEntryName :: "DemoBuffer \<Rightarrow> string list \<Rightarrow> (string + string) \<times> DemoBuffer" where
  "readEntryName b history =
     (let (hasName, b1) = nextBit b
      in if hasName = 0 then (Inr [], b1)
         else
           (let (compressed, b2) = nextBit b1
            in if compressed = 0 then (let (s, b3) = nextNullTerminatedString b2 in (Inr s, b3))
               else
                 (let (historyIndex, b3) = nextInt b2 5
                  in if nat historyIndex \<ge> length history \<or> history ! nat historyIndex = []
                     then (Inl ''Tried to retrieve non-existent entry from string table update history.'', b3)
                     else
                       (let historyItem = history ! nat historyIndex;
                            (substringLength, b4) = nextInt b3 5
                        in if substringLength > int (length historyItem)
                           then (Inl ''String table update entry substring longer than entry name.'', b4)
                           else (let (s, b5) = nextNullTerminatedString b4
                                 in (Inr (take (nat substringLength) historyItem @ s), b5))))))"

datatype updateOutcome = NextEntry int "string list" Demo | StopUpdate Demo

definition putEntry :: "nat \<Rightarrow> nat \<Rightarrow> StringTableEntry \<Rightarrow> Demo \<Rightarrow> Demo" where
  "putEntry tid entryIndex newEntry d =
     (let (key, table) = stringTables d ! tid;
          table' = table\<lparr>entries :=
                     (if entryIndex < length (entries table)
                      then (entries table)[entryIndex := newEntry]
                      else entries table @ [newEntry])\<rparr>
      in d\<lparr>stringTables := (stringTables d)[tid := (key, table')]\<rparr>)"

text \<open>The index of an entry: the one after the last, or sent in full.\<close>

definition readEntryIndex :: "StringTable \<Rightarrow> int \<Rightarrow> DemoBuffer \<Rightarrow> int \<times> DemoBuffer" where
  "readEntryIndex table entryIndex0 b =
     (let (incr, b1) = nextBit b
      in if incr \<noteq> 0 then (entryIndex0 + 1, b1)
         else nextIntSigned b1 (highestBitIndex (the (maxEntries table))))"

definition updateEntry ::
    "nat \<Rightarrow> nat \<Rightarrow> int \<Rightarrow> string list \<Rightarrow> Demo \<Rightarrow> error + updateOutcome" where
  "updateEntry dataEnd tid entryIndex0 history d =
     (let table = snd (stringTables d ! tid);
          (entryIndex, b2) = readEntryIndex table entryIndex0 (buf d);
          d2 = d\<lparr>buf := b2\<rparr>
      in if entryIndex > int (length (entries table))
         then Inr (StopUpdate (setCursor dataEnd
                (warn ''Overflowed string table size when parsing update.'' d2)))
         else
           (case readEntryName b2 history of
              (Inl msg, b3) \<Rightarrow> Inr (StopUpdate (setCursor dataEnd (warn msg (d\<lparr>buf := b3\<rparr>))))
            | (Inr name, b3) \<Rightarrow>
                (let history' = pushHistory history name;
                     (hasData, b4) = nextBit b3
                 in if hasData = 0 then Inr (NextEntry entryIndex history' (d\<lparr>buf := b4\<rparr>))
                    else
                      (let (entryDataLength, b5) =
                             (if userDataSizeBits table \<noteq> 0 then (userDataSizeBits table, b4)
                              else (let (n, b) = nextInt b4 14 in (n * 8, b)))
                       in if entryDataLength = 0
                          then Inr (NextEntry entryIndex history' (d\<lparr>buf := b5\<rparr>))
                          else
                            (let entryDataEnd = cursor b5 + nat entryDataLength
                             in case entryFromDemo (stName table) name (d\<lparr>buf := b5\<rparr>) of
                                  Inl e \<Rightarrow> Inl e
                                | Inr (newEntry, d6) \<Rightarrow>
                                    Inr (NextEntry entryIndex history'
                                      (setCursor entryDataEnd
                                         (putEntry tid (nat entryIndex) newEntry d6))))))))"

fun updateEntries ::
    "nat \<Rightarrow> nat \<Rightarrow> nat \<Rightarrow> int \<Rightarrow> string list \<Rightarrow> Demo \<Rightarrow> error + updateOutcome" where
  "updateEntries 0 dataEnd tid entryIndex history d = Inr (NextEntry entryIndex history d)"
| "updateEntries (Suc n) dataEnd tid entryIndex history d =
     (case updateEntry dataEnd tid entryIndex history d of
        Inl e \<Rightarrow> Inl e
      | Inr (StopUpdate d') \<Rightarrow> Inr (StopUpdate d')
      | Inr (NextEntry entryIndex' history' d') \<Rightarrow>
          updateEntries n dataEnd tid entryIndex' history' d')"

text \<open>
  The header of the message: the index of the table, the number of changed entries and the
  declared end of the message.
\<close>

definition updateHeader :: "DemoBuffer \<Rightarrow> nat \<times> nat \<times> nat \<times> DemoBuffer" where
  "updateHeader b =
     (let (tid, b1) = nextInt b 5;
          (hasCount, b2) = nextBit b1;
          (changedEntries, b3) = (if hasCount \<noteq> 0 then nextInt b2 16 else (1, b2));
          (dataLength, b4) = nextInt b3 20
      in (nat tid, nat changedEntries, cursor b4 + nat dataLength, b4))"

definition updateTableID :: "Demo \<Rightarrow> nat" where
  "updateTableID d0 = fst (updateHeader (buf d0))"

definition updateDataEnd :: "Demo \<Rightarrow> nat" where
  "updateDataEnd d0 = fst (snd (snd (updateHeader (buf d0))))"

definition SvcUpdateStringTable :: "Demo \<Rightarrow> error + Demo" where
  "SvcUpdateStringTable d0 =
     (let (tid, changedEntries, dataEnd, b4) = updateHeader (buf d0);
          d = d0\<lparr>buf := b4\<rparr>
      in if tid \<ge> length (stringTables d)
         then Inr (setCursor dataEnd (warn ''Tried to update non-existent string table.'' d))
         else if maxEntries (snd (stringTables d ! tid)) = None
         then Inr (setCursor dataEnd
                (warn ''Got SvcUpdateStringTable before SvcCreateStringTable.'' d))
         else
           (let (dictionaryEnabled, b5) = nextBit (buf d);
                d1 = d\<lparr>buf := b5\<rparr>
            in if dictionaryEnabled \<noteq> 0
               then Inr (setCursor dataEnd
                      (warn ''Unsupported string table update with dictionary.'' d1))
               else
                 (case updateEntries changedEntries dataEnd tid (- 1) [] d1 of
                    Inl e \<Rightarrow> Inl e
                  | Inr (StopUpdate d2) \<Rightarrow> Inr d2
                  | Inr (NextEntry i h d2) \<Rightarrow> Inr (setCursor dataEnd d2))))"
section \<open>Snapshot messages (NetSvcMessage.ts, SvcPacketEntities)\<close>

text \<open>
  One turn of the update loop either goes on with the new entity index or ends the message
  early.  An early end moves the cursor to the declared end of the message and prints a
  warning.  The \<open>updates\<close> list of the message object is not kept.
\<close>

datatype outcome = Next int Demo | Stop Demo

definition desync :: "string \<Rightarrow> nat \<Rightarrow> Demo \<Rightarrow> error + outcome" where
  "desync msg dataEnd d = Inr (Stop (setCursor dataEnd (warn msg d)))"

text \<open>
  The enter-visibility update built from what was read: it is new when the slot is empty
  or holds an entity with another serial number.
\<close>

definition enterUpdate ::
    "Entity list \<Rightarrow> nat option list \<Rightarrow> ParserClass \<Rightarrow> nat \<Rightarrow> int \<Rightarrow> EntityProperty list
       \<Rightarrow> EntityEnterPVS" where
  "enterUpdate heap slots parserClass idx ser props =
     \<lparr>deltaClass = serverClass parserClass, deltaIndex = idx, deltaProperties = props,
      enterSerial = ser,
      isNew = (case arrayGet slots idx of None \<Rightarrow> True | Some a \<Rightarrow> serial (heap ! a) \<noteq> ser)\<rparr>"

definition entityUpdate :: "nat \<Rightarrow> int \<Rightarrow> Demo \<Rightarrow> error + outcome" where
  "entityUpdate dataEnd index0 d =
     (let (step, b1) = nextBitInt (buf d);
          index = index0 + (step + 1);
          d1 = d\<lparr>buf := b1\<rparr>
      in case (entities d1, serverClasses d1, parserClasses d1) of
           (Some slots, Some classes, Some parsers) \<Rightarrow>
             if index < 0 \<or> index > int (length slots)
             then desync ''Entity update index overflowed.'' dataEnd d1
             else
               (let (updateType, b2) = nextInt (buf d1) 2;
                    d2 = d1\<lparr>buf := b2\<rparr>;
                    slot = arrayGet slots (nat index)
                in if updateType = 0 then
                     (case slot of
                        None \<Rightarrow> desync ''Tried to apply delta to non-existent entity.'' dataEnd d2
                      | Some a \<Rightarrow>
                          (case arrayGet (map Some parsers) (tableID (entityClass (entityHeap d2 ! a))) of
                             None \<Rightarrow> desync ''Missing parser class for entity.'' dataEnd d2
                           | Some parserClass \<Rightarrow>
                               (case readProperties (buf d2) (flatProperties parserClass) of
                                  Inl e \<Rightarrow> Inl e
                                | Inr (props, b3, ws) \<Rightarrow>
                                    (case applyDelta (withWarnings ws (d2\<lparr>buf := b3\<rparr>)) (nat index) props of
                                       Inl e \<Rightarrow> Inl e
                                     | Inr d3 \<Rightarrow> Inr (Next index d3)))))
                   else if updateType = 2 then
                     (let idBits = highestBitIndex (int (length classes)) + 1;
                          (tid, b3) = nextInt (buf d2) (nat idBits);
                          (ser, b4) = nextInt b3 10;
                          d4 = d2\<lparr>buf := b4\<rparr>
                      in case arrayGet (map Some parsers) (nat tid) of
                           None \<Rightarrow> desync ''Missing parser class for new entity.'' dataEnd d4
                         | Some parserClass \<Rightarrow>
                             (case readProperties (buf d4) (flatProperties parserClass) of
                                Inl e \<Rightarrow> Inl e
                              | Inr (props, b5, ws) \<Rightarrow>
                                  (case enterPVS (withWarnings ws (d4\<lparr>buf := b5\<rparr>))
                                          (enterUpdate (entityHeap d4) slots parserClass
                                             (nat index) ser props) of
                                     Inl e \<Rightarrow> Inl e
                                   | Inr d5 \<Rightarrow> Inr (Next index d5))))
                   else if updateType = 1 \<or> updateType = 3 then
                     (case slot of
                        None \<Rightarrow> desync ''Tried to delete non-existent entity.'' dataEnd d2
                      | Some a \<Rightarrow>
                          (case leavePVS d2 \<lparr>leaveClass = entityClass (entityHeap d2 ! a),
                                  leaveIndex = nat index, doDelete = (updateType = 3)\<rparr> of
                             Inl e \<Rightarrow> Inl e
                           | Inr d3 \<Rightarrow> Inr (Next index d3)))
                   else desync ''Unknown entity update type.'' dataEnd d2)
         | _ \<Rightarrow> Inl (Thrown ''TypeError''))"

fun entityUpdates :: "nat \<Rightarrow> nat \<Rightarrow> int \<Rightarrow> Demo \<Rightarrow> error + outcome" where
  "entityUpdates 0 dataEnd index d = Inr (Next index d)"
| "entityUpdates (Suc n) dataEnd index d =
     (case entityUpdate dataEnd index d of
        Inl e \<Rightarrow> Inl e
      | Inr (Stop d') \<Rightarrow> Inr (Stop d')
      | Inr (Next index' d') \<Rightarrow> entityUpdates n dataEnd index' d')"

text \<open>
  The explicit deletions that close a delta snapshot: \<open>while (nextBit())\<close>.  A bit past the
  end of the blob reads as 0, which ends the loop.
\<close>

function explicitDeletes :: "Demo \<Rightarrow> error + Demo" where
  "explicitDeletes d =
     (if getBit (buf d) (cursor (buf d)) = 0 then Inr (d\<lparr>buf := snd (nextBit (buf d))\<rparr>)
      else
        (let (index, b2) = nextInt (snd (nextBit (buf d))) 11;
             d1 = d\<lparr>buf := b2\<rparr>
         in case entities d1 of
              None \<Rightarrow> Inl (Thrown ''TypeError'')
            | Some slots \<Rightarrow>
                (case arrayGet slots (nat index) of
                   None \<Rightarrow> explicitDeletes d1
                 | Some a \<Rightarrow>
                     (case leavePVS d1 \<lparr>leaveClass = entityClass (entityHeap d1 ! a),
                             leaveIndex = nat index, doDelete = True\<rparr> of
                        Inl e \<Rightarrow> Inl e
                      | Inr d2 \<Rightarrow> explicitDeletes d2))))"
  by pat_completeness auto
termination
proof (relation "measure (\<lambda>d. 8 * length (bytes (buf d)) - cursor (buf d))")
  show "wf (measure (\<lambda>d. 8 * length (bytes (buf d)) - cursor (buf d)))" by simp
next
  fix d :: Demo and x index b2 d1 slots a d2
  assume nz: "getBit (buf d) (cursor (buf d)) \<noteq> 0"
    and x: "x = nextInt (snd (nextBit (buf d))) 11" "(index, b2) = x" and d1: "d1 = d\<lparr>buf := b2\<rparr>"
  have "cursor (buf d) div 8 < length (bytes (buf d))"
  proof (rule ccontr)
    assume "\<not> cursor (buf d) div 8 < length (bytes (buf d))"
    then have "byteAt (buf d) (cursor (buf d) div 8) = 0" by (simp add: byteAt_def)
    then have "getBit (buf d) (cursor (buf d)) = 0"
      by (simp add: getBit_def Let_def js_sar_def js_and_def)
    then show False using nz by simp
  qed
  then have lt: "cursor (buf d) < 8 * length (bytes (buf d))"
    by (simp add: div_less_iff_less_mult mult.commute)
  have b2: "bytes b2 = bytes (buf d)" "cursor b2 = cursor (buf d) + 12"
    using x by (auto simp: nextInt_def nextBit_def)
  show "(d1, d) \<in> measure (\<lambda>d. 8 * length (bytes (buf d)) - cursor (buf d))"
    using lt b2 d1 by simp
  assume "entities d1 = Some slots"
    and "leavePVS d1 \<lparr>leaveClass = entityClass (entityHeap d1 ! a),
            leaveIndex = nat index, doDelete = True\<rparr> = Inr d2"
  then have "buf d2 = buf d1" by (auto simp: leavePVS_def)
  then show "(d2, d) \<in> measure (\<lambda>d. 8 * length (bytes (buf d)) - cursor (buf d))"
    using lt b2 d1 by simp
qed

text \<open>
  The fixed fields at the head of the message: whether it is a delta, the tick it is a
  delta from, the number of updated entries, and the declared end of the message.
\<close>

definition packetHeader :: "DemoBuffer \<Rightarrow> bool \<times> int \<times> int \<times> nat \<times> DemoBuffer" where
  "packetHeader b =
     (let (maxEntries, b1) = nextInt b 11;
          (isDeltaBit, b2) = nextBit b1;
          isDelta = (isDeltaBit \<noteq> 0);
          (deltaFrom, b3) = (if isDelta then nextSignedInt b2 32 else (0, b2));
          (baselineIndex, b4) = nextBit b3;
          (updatedEntries, b5) = nextInt b4 11;
          (dataLength, b6) = nextInt b5 20;
          (updateBaseline, b7) = nextBit b6
      in (isDelta, deltaFrom, updatedEntries, cursor b7 + nat dataLength, b7))"

definition packetDataEnd :: "Demo \<Rightarrow> nat" where
  "packetDataEnd d0 = fst (snd (snd (snd (packetHeader (buf d0)))))"

definition SvcPacketEntities :: "Demo \<Rightarrow> error + Demo" where
  "SvcPacketEntities d0 =
     (let (isDelta, deltaFrom, updatedEntries, dataEnd, b7) = packetHeader (buf d0);
          d = d0\<lparr>buf := b7\<rparr>
      in if dataTables d = None \<or> serverClasses d = None \<or> parserClasses d = None
         then Inr (setCursor dataEnd (warn ''Tried to parse SvcPacketEntities before DataTables.'' d))
         else if isDelta \<and> deltaFrom \<noteq> 0 \<and> deltaFrom > tick d
         then Inr (setCursor dataEnd (warn ''Received entity delta from the future.'' d))
         else
           (let d1 = (if \<not> isDelta then d\<lparr>entities := Some (replicate 2048 None)\<rparr> else d)
            in if entities d1 = None
               then Inr (setCursor dataEnd (warn ''Received entity delta before a full snapshot.'' d1))
               else
                 (case entityUpdates (nat updatedEntries) dataEnd (- 1) d1 of
                    Inl e \<Rightarrow> Inl e
                  | Inr (Stop d2) \<Rightarrow> Inr d2
                  | Inr (Next index d2) \<Rightarrow>
                      (if isDelta
                       then (case explicitDeletes d2 of
                               Inl e \<Rightarrow> Inl e
                             | Inr d3 \<Rightarrow> Inr (setCursor dataEnd d3))
                       else Inr (setCursor dataEnd d2)))))"

subsection \<open>A small session for the entity scenarios\<close>

text \<open>
  One class with one integer property \<open>m_iHealth\<close>, whose baseline value is 100, and an
  entity store of eight empty slots.
\<close>

definition healthFlat :: FlatProperty where
  "healthFlat = intProp ''m_iHealth'' 0 0"

definition healthParser :: ParserClass where
  "healthParser = \<lparr>serverClass = schemaClass, flatProperties = [healthFlat]\<rparr>"

definition healthProp :: "int \<Rightarrow> EntityProperty" where
  "healthProp v = \<lparr>epIndex = 0, epProperty = healthFlat, bufferFrom = 0, bufferSize = 8,
                   epValue = VNumber (num_of_int v)\<rparr>"

definition scenarioDemo :: "nat option list \<Rightarrow> Entity list \<Rightarrow> Demo" where
  "scenarioDemo slots heap =
     \<lparr>buf = \<lparr>bytes = [], cursor = 0\<rparr>, dataTables = Some schemaTables,
      serverClasses = Some [schemaClass], stringTables = [],
      parserClasses = Some [healthParser],
      baselines = [Some \<lparr>baselineClass = schemaClass, entityProperties = [Some (healthProp 100)]\<rparr>],
      tick = 0, entities = Some slots, entityHeap = heap, warnings = []\<rparr>"

definition healthEntity :: "int \<Rightarrow> int \<Rightarrow> Entity" where
  "healthEntity ser v =
     \<lparr>entityClass = schemaClass, entityProps = [Some (healthProp v)], serial = ser,
      entityIndex = 4, inPVS = True, hasSource = True\<rparr>"

text \<open>
  An array-valued property at index 1, read from \<open>sz\<close> bits at address \<open>from\<close>, and the
  entity of the scenario with such a property next to its health.
\<close>

definition tagsFlat :: FlatProperty where
  "tagsFlat = \<lparr>flatName = ''m_tags'',
     baseProperty = \<lparr>propType = PArray, propName = ''m_tags'', flags = 0, priority = 0,
        excludeName = None, propValue = None, arrayElements = Some 4\<rparr>,
     baseArrayProperty = Some (baseProperty healthFlat)\<rparr>"

definition tagsProp :: "nat \<Rightarrow> nat \<Rightarrow> int list \<Rightarrow> EntityProperty" where
  "tagsProp from sz vs = \<lparr>epIndex = 1, epProperty = tagsFlat, bufferFrom = from,
                           bufferSize = sz, epValue = VNumbers (map num_of_int vs)\<rparr>"

definition taggedEntity :: "int \<Rightarrow> int \<Rightarrow> EntityProperty \<Rightarrow> Entity" where
  "taggedEntity ser v t = (healthEntity ser v)\<lparr>entityProps := [Some (healthProp v), Some t]\<rparr>"

text \<open>The session before its first snapshot, about to read a message from the given bytes.\<close>

definition messageDemo :: "8 word list \<Rightarrow> Demo" where
  "messageDemo bs = (scenarioDemo [] [])\<lparr>buf := \<lparr>bytes = bs, cursor = 0\<rparr>, entities := None\<rparr>"

text \<open>
  Three snapshot messages in a row: a full snapshot in which an entity of serial 7 enters
  slot 0; a delta snapshot that deletes slot 0; a delta snapshot with a delta for slot 0.
\<close>

definition deleteThenDelta :: "8 word list" where
  "deleteThenDelta = [0, 32, 0, 36, 0, 0, 208, 1, 249, 255, 1, 16, 0, 0, 0, 64, 0, 18, 0, 0,
                      48, 0, 4, 0, 0, 0, 16, 0, 4, 0, 0, 0]"

text \<open>
  A full snapshot whose only update is an enter-visibility at entity index 2048, the
  length of the entity store.
\<close>

definition enterAtLength :: "8 word list" where
  "enterAtLength = [0, 32, 0, 44, 0, 0, 4, 212, 1, 249, 255, 1]"

text \<open>A float property definition with a range, a bit width and no flag.\<close>

definition floatProp :: "real \<Rightarrow> real \<Rightarrow> nat \<Rightarrow> DataTableProperty" where
  "floatProp l h n = \<lparr>propType = PFloat, propName = ''f'', flags = 0, priority = 0,
      excludeName = None, propValue = Some \<lparr>low = Num l, high = Num h, bits = n\<rparr>,
      arrayElements = None\<rparr>"

text \<open>No flag that selects a special float encoding.\<close>

definition plainFloat :: "DataTableProperty \<Rightarrow> bool" where
  "plainFloat p = (\<not> hasFlag p Coord \<and> \<not> hasFlag p CoordMp \<and> \<not> hasFlag p CoordMpLp \<and>
     \<not> hasFlag p CoordMpInt \<and> \<not> hasFlag p NoScale \<and> \<not> hasFlag p Normal \<and>
     \<not> hasFlag p CellCoord \<and> \<not> hasFlag p CellCoordLp \<and> \<not> hasFlag p CellCoordInt)"


subsection \<open>Value shapes\<close>








subsection \<open>What an update may change\<close>

text \<open>
  The string tables of \<open>d'\<close> are those of \<open>d\<close> except for the entries of table \<open>tid\<close>: every
  other table, and the key and every other field of table \<open>tid\<close>, are the same.
\<close>

definition entriesOnly :: "nat \<Rightarrow> Demo \<Rightarrow> Demo \<Rightarrow> bool" where
  "entriesOnly tid d d' =
     (stringTables d' =
        (stringTables d)[tid := (fst (stringTables d ! tid),
           (snd (stringTables d ! tid))\<lparr>entries := entries (snd (stringTables d' ! tid))\<rparr>)])"

text \<open>The warnings with which an update is given up at an entry.\<close>

definition malformedWarnings :: "string list" where
  "malformedWarnings =
     [''Overflowed string table size when parsing update.'',
      ''Tried to retrieve non-existent entry from string table update history.'',
      ''String table update entry substring longer than entry name.'']"

text \<open>A step that returns an entry and a session with the string tables of \<open>d\<close>, or throws.\<close>

definition keepsTables :: "Demo \<Rightarrow> error + ('a \<times> Demo) \<Rightarrow> bool" where
  "keepsTables d r = (case r of Inl e \<Rightarrow> True | Inr (x, d') \<Rightarrow> stringTables d' = stringTables d)"

text \<open>
  An entry that cannot be applied, read at the cursor of \<open>d\<close> after the entry of index
  \<open>entryIndex0\<close>: its index is past the end of the table, or its name is compressed and
  refers to a history slot that is missing, or declares a shared prefix longer than the
  name in that slot.
\<close>

definition malformedEntry :: "nat \<Rightarrow> int \<Rightarrow> string list \<Rightarrow> Demo \<Rightarrow> bool" where
  "malformedEntry tid entryIndex0 history d =
     (let table = snd (stringTables d ! tid);
          (entryIndex, b2) = readEntryIndex table entryIndex0 (buf d);
          (hasName, b3) = nextBit b2;
          (compressed, b4) = nextBit b3;
          (historyIndex, b5) = nextInt b4 5;
          (substringLength, b6) = nextInt b5 5
      in entryIndex > int (length (entries table))
         \<or> (hasName \<noteq> 0 \<and> compressed \<noteq> 0 \<and>
              (nat historyIndex \<ge> length history
               \<or> substringLength > int (length (history ! nat historyIndex)))))"

subsection \<open>A session with two string tables, and update messages for the first\<close>

definition plainTable :: "string \<Rightarrow> StringTable" where
  "plainTable n = \<lparr>stName = n, entries = [], stClasses = [], maxEntries = Some 64,
                    userDataSize = 0, userDataSizeBits = 0\<rparr>"

definition tablesDemo :: "8 word list \<Rightarrow> Demo" where
  "tablesDemo bs =
     \<lparr>buf = \<lparr>bytes = bs, cursor = 0\<rparr>, dataTables = None, serverClasses = None,
      stringTables = [(''downloadables'', plainTable ''downloadables''),
                      (''lightstyles'', plainTable ''lightstyles'')],
      parserClasses = None, baselines = [], tick = 0, entities = None, entityHeap = [],
      warnings = []\<rparr>"

text \<open>The names of the entries of each table, in order.\<close>

definition entryNames :: "Demo \<Rightarrow> string list list" where
  "entryNames d = map (\<lambda>(key, table). map entryName (entries table)) (stringTables d)"

definition plainEntry :: "string \<Rightarrow> StringTableEntry" where
  "plainEntry n = \<lparr>entryTable = ''downloadables'', entryName = n, entryData = NoData\<rparr>"

text \<open>
  Each message updates table 0 with two entries at the indices 0 and 1, each with one byte
  of data.

  \<^item> \<open>partialUpdate\<close>: the name \<open>a\<close> in full, then a name compressed against history slot 5.
  \<^item> \<open>compressedUpdate\<close>: the name \<open>abc\<close> in full, then history slot 0, prefix length 2,
    suffix \<open>d\<close>.
  \<^item> \<open>uncompressedUpdate\<close>: the names \<open>abc\<close> and \<open>abd\<close> in full.
  \<^item> \<open>longPrefixUpdate\<close>: as \<open>compressedUpdate\<close>, with prefix length 4.
  \<^item> \<open>emptyReferenceUpdate\<close>: no name for the first entry, then history slot 0, prefix
    length 0, suffix \<open>ab\<close>.
  \<^item> \<open>plainNameUpdate\<close>: no name for the first entry, then the name \<open>ab\<close> in full.

  \<open>overflowUpdate\<close> has one entry, sent with the index 5.
\<close>

definition partialUpdate :: "8 word list" where
  "partialUpdate = [160, 0, 192, 12, 0, 88, 24, 192, 0, 64, 245, 5]"

definition compressedUpdate :: "8 word list" where
  "compressedUpdate = [160, 0, 192, 27, 0, 88, 152, 216, 24, 192, 0, 64, 245, 64, 144, 1, 12,
                       0, 84, 1]"

definition uncompressedUpdate :: "8 word list" where
  "uncompressedUpdate = [160, 0, 64, 29, 0, 88, 152, 216, 24, 192, 0, 64, 117, 97, 98, 100, 0,
                         3, 0, 85]"

definition longPrefixUpdate :: "8 word list" where
  "longPrefixUpdate = [160, 0, 192, 27, 0, 88, 152, 216, 24, 192, 0, 64, 245, 128, 144, 1, 12,
                       0, 84, 1]"

definition emptyReferenceUpdate :: "8 word list" where
  "emptyReferenceUpdate = [160, 0, 128, 21, 0, 104, 0, 160, 122, 0, 194, 196, 0, 6, 0, 170]"

definition plainNameUpdate :: "8 word list" where
  "plainNameUpdate = [160, 0, 0, 19, 0, 104, 0, 160, 186, 48, 49, 128, 1, 128, 42]"

definition overflowUpdate :: "8 word list" where
  "overflowUpdate = [96, 0, 128, 2, 0, 80, 0]"
section \<open>Bitstream buffer: bit-level characterisation\<close>

lemma shiftCount_small: "0 \<le> n \<Longrightarrow> n < 32 \<Longrightarrow> shiftCount n = nat n"
  unfolding shiftCount_def
  by (simp add: unat_eq_nat_uint uint_word_of_int take_bit_eq_mod nat_mod_distrib)

lemma shiftCount_nat: "n < 32 \<Longrightarrow> shiftCount (int n) = n"
  using shiftCount_small[of "int n"] by simp

lemma byteAt_bit: "bit (byteAt b i) j \<longleftrightarrow> j < 8 \<and> bitval b (8 * i + j)"
  unfolding byteAt_def bitval_def
  by (auto simp: bit_uint_iff dest: bit_imp_le_length)

lemma byteAt_range: "0 \<le> byteAt b i" "byteAt b i < 256"
  unfolding byteAt_def using uint_bounded[of "bytes b ! i"] by auto

text \<open>bits of the JS operators\<close>

lemma bit_js_and: "bit (js_and a c) n \<longleftrightarrow> bit a (min n 31) \<and> bit c (min n 31)"
  unfolding js_and_def
  by (auto simp: bit_sint_iff bit_and_iff bit_word_of_int_iff min_def)

lemma bit_js_or: "bit (js_or a c) n \<longleftrightarrow> bit a (min n 31) \<or> bit c (min n 31)"
  unfolding js_or_def
  by (auto simp: bit_sint_iff bit_or_iff bit_word_of_int_iff min_def)


lemma bit_js_shl: "k < 32 \<Longrightarrow> bit (js_shl a (int k)) n \<longleftrightarrow> k \<le> min n 31 \<and> bit a (min n 31 - k)"
  unfolding js_shl_def
  by (auto simp: shiftCount_nat bit_sint_iff bit_push_bit_iff bit_word_of_int_iff min_def)

lemma bit_js_shr: "k < 32 \<Longrightarrow> bit (js_shr a (int k)) n \<longleftrightarrow> n + k < 32 \<and> bit a (n + k)"
  unfolding js_shr_def
  by (auto simp: shiftCount_nat bit_uint_iff bit_drop_bit_eq bit_word_of_int_iff add.commute dest: bit_imp_le_length)

lemma bit_js_sar: "k < 32 \<Longrightarrow> bit (js_sar a (int k)) n \<longleftrightarrow> bit a (min (n + k) 31)"
proof -
  assume k: "k < 32"
  define m where "m = min n 31"
  have m: "m < 32" by (simp add: m_def)
  have "bit (js_sar a (int k)) n \<longleftrightarrow> bit (signed_drop_bit k (word_of_int a :: 32 word)) m"
    unfolding js_sar_def shiftCount_nat[OF k] m_def
    by (auto simp: bit_sint_iff min_def dest: bit_imp_le_length)
  also have "\<dots> \<longleftrightarrow> bit (word_of_int a :: 32 word) (if 32 - k \<le> m then 31 else k + m)"
    using m by (simp add: bit_signed_drop_bit_iff)
  also have "\<dots> \<longleftrightarrow> bit a (min (n + k) 31)"
  proof (cases "32 - k \<le> m")
    case True
    then have "min (n + k) 31 = 31" by (auto simp: min_def m_def)
    with True show ?thesis by (simp add: bit_word_of_int_iff)
  next
    case False
    then have "k + m < 32" "min (n + k) 31 = k + m" using k by (auto simp: min_def m_def)
    with False show ?thesis by (simp add: bit_word_of_int_iff)
  qed
  finally show ?thesis .
qed

lemma getBit_eq: "getBit b pos = of_bool (bitval b pos)"
proof (rule bit_eqI)
  fix n
  show "bit (getBit b pos) n = bit (of_bool (bitval b pos) :: int) n"
  proof (cases n)
    case 0
    then show ?thesis
      unfolding getBit_def Let_def
      by (simp add: bit_js_and bit_js_sar byteAt_bit bit_of_bool_iff)
  next
    case (Suc m)
    then show ?thesis
      unfolding getBit_def Let_def
      by (simp add: bit_js_and bit_of_bool_iff bit_1_iff min_def)
  qed
qed

lemma bit_255: "bit (255 :: int) n \<longleftrightarrow> n < 8"
proof -
  have h: "(255 :: int) = mask 8" by (simp add: mask_eq_exp_minus_1)
  show ?thesis unfolding h by (simp add: bit_mask_iff)
qed

lemma getByte_bit: "bit (getByte b pos) j \<longleftrightarrow> j < 8 \<and> bitval b (pos + j)"
proof (cases "pos mod 8 = 0")
  case True
  then have "8 * (pos div 8) = pos" by (metis mult_div_mod_eq add.right_neutral)
  with True show ?thesis
    unfolding getByte_def Let_def by (simp add: byteAt_bit)
next
  case False
  define r where "r = pos mod 8"
  define q where "q = pos div 8"
  have pos: "pos = 8 * q + r" and r: "0 < r" "r < 8" using False by (auto simp: r_def q_def)
  define s where "s = 8 - r"
  have e: "8 - int r = int s" using r by (simp add: s_def)
  have k: "s < 32" "s \<le> 8" "r + s = 8" using r by (simp_all add: s_def)
  have g: "getByte b pos = js_or (js_shr (byteAt b q) (int r))
                       (js_and (js_shl (byteAt b (q + 1)) (int s)) 255)"
    unfolding getByte_def Let_def r_def[symmetric] q_def[symmetric] e using r by simp
  show ?thesis
  proof (cases "j < 8")
    case True
    then have m: "min j 31 = j" by simp
    have "bit (getByte b pos) j \<longleftrightarrow>
        (j + r < 8 \<and> bitval b (8 * q + (j + r))) \<or> (s \<le> j \<and> bitval b (8 * (q + 1) + (j - s)))"
      unfolding g using True r k
      by (auto simp add: bit_js_or bit_js_and bit_js_shr bit_js_shl[OF k(1)] m bit_255 byteAt_bit)
    also have "\<dots> \<longleftrightarrow> bitval b (pos + j)"
    proof (cases "j + r < 8")
      case True
      then have "\<not> s \<le> j" using k by simp
      with True show ?thesis by (simp add: pos add_ac)
    next
      case False
      then have "8 * (q + 1) + (j - s) = pos + j" "s \<le> j" using r k by (simp_all add: pos)
      with False show ?thesis by simp
    qed
    finally show ?thesis using True by simp
  next
    case False
    then have "8 \<le> min j 31" by simp
    then have "\<not> bit (255::int) (min j 31)" "\<not> (min j 31 + r < 8)" by (simp_all add: bit_255)
    then show ?thesis unfolding g using False r
      by (simp add: bit_js_or bit_js_and bit_js_shr byteAt_bit)
  qed
qed

lemma int_of_bits_nonneg:
  fixes x :: int
  assumes "\<And>n. m \<le> n \<Longrightarrow> \<not> bit x n"
  shows "0 \<le> x" "x < 2 ^ m"
proof -
  have "take_bit m x = x"
    by (rule bit_eqI) (use assms in \<open>auto simp: bit_take_bit_iff not_le[symmetric]\<close>)
  then show "0 \<le> x" "x < 2 ^ m"
    by (metis take_bit_nonnegative, metis take_bit_int_less_exp)
qed

lemma getByte_range: "0 \<le> getByte b pos" "getByte b pos < 256"
  using int_of_bits_nonneg[of 8 "getByte b pos"] by (simp_all add: getByte_bit)

lemma word8_getByte: "bit (word_of_int (getByte b pos) :: 8 word) j \<longleftrightarrow> j < 8 \<and> bitval b (pos + j)"
  by (auto simp: bit_word_of_int_iff getByte_bit)

text \<open>little-endian byte list to integer\<close>

lemma bit_foldr_bytes:
  "bit (foldr (\<lambda>byte output. output * 256 + uint byte) (bs :: 8 word list) 0) j
     \<longleftrightarrow> j div 8 < length bs \<and> bit (bs ! (j div 8)) (j mod 8)"
proof (induction bs arbitrary: j)
  case Nil
  then show ?case by simp
next
  case (Cons x xs)
  let ?r = "foldr (\<lambda>byte output. output * 256 + uint byte) xs 0"
  have "uint x mod 256 = uint x" using uint_bounded[of x] by simp
  then have "?r * 256 + uint x = concat_bit 8 (uint x) ?r"
    by (simp add: concat_bit_eq take_bit_eq_mod push_bit_eq_mult)
  then have "bit (?r * 256 + uint x) j \<longleftrightarrow> (j < 8 \<and> bit x j) \<or> (8 \<le> j \<and> bit ?r (j - 8))"
    by (simp add: bit_concat_bit_iff bit_uint_iff)
  moreover have "j div 8 = Suc ((j - 8) div 8)" "j mod 8 = (j - 8) mod 8" if "8 \<le> j"
    using that by (simp_all add: le_div_geq le_mod_geq)
  ultimately show ?case
    by (cases "j < 8") (simp_all add: Cons.IH)
qed

lemma bit_js_shl_1: "i < 32 \<Longrightarrow> bit (js_shl 1 (int i)) m \<longleftrightarrow> min m 31 = i"
proof -
  assume i: "i < 32"
  have "bit (js_shl 1 (int i)) m \<longleftrightarrow> i \<le> min m 31 \<and> min m 31 - i = 0"
    using i by (simp add: bit_js_shl bit_1_iff)
  also have "\<dots> \<longleftrightarrow> min m 31 = i" by linarith
  finally show ?thesis .
qed

lemma js_shl_1: "k < 31 \<Longrightarrow> js_shl 1 (int k) = 2 ^ k"
proof (rule bit_eqI)
  fix n assume k: "k < 31"
  have "min n 31 = k \<longleftrightarrow> n = k" using k by linarith
  then show "bit (js_shl 1 (int k)) n = bit (2 ^ k :: int) n"
    using k by (simp add: bit_js_shl_1 bit_exp_iff)
qed



lemma ceil8_exact: "sz mod 8 = 0 \<Longrightarrow> sz = 8 * ((sz + 7) div 8)" for sz :: nat
proof -
  assume "sz mod 8 = 0"
  then obtain c where c: "sz = 8 * c" by (auto simp: mod_eq_0_iff_dvd)
  have "(8 * c + 7) div 8 = c" by simp
  then show ?thesis by (simp add: c)
qed

lemma ceil8_rest: "sz mod 8 \<noteq> 0 \<Longrightarrow> sz = 8 * ((sz + 7) div 8 - 1) + sz mod 8" for sz :: nat
proof -
  assume a: "sz mod 8 \<noteq> 0"
  define q where "q = sz div 8"
  define r where "r = sz mod 8"
  have sz: "sz = 8 * q + r" and r: "0 < r" "r < 8" using a by (auto simp: q_def r_def)
  obtain t where t: "r = Suc t" using r by (cases r) auto
  have t8: "t < 8" using r(2) unfolding t by linarith
  have "sz + 7 = 8 * (q + 1) + t" unfolding sz t by simp
  then have "(sz + 7) div 8 = (8 * (q + 1) + t) div 8" by (rule arg_cong)
  also have "\<dots> = q + 1" using t8 by (simp only: div_mult_self4 div_less)
  finally have "8 * ((sz + 7) div 8 - 1) + sz mod 8 = 8 * q + r" by (simp add: r_def)
  then show ?thesis using sz by linarith
qed

lemma div8_lt_ceil: "j < sz \<Longrightarrow> j div 8 < (sz + 7) div 8" for sz :: nat
proof -
  assume "j < sz"
  then have "j + 8 \<le> sz + 7" by simp
  then have "(j + 8) div 8 \<le> (sz + 7) div 8" by (rule div_le_mono)
  then show ?thesis by simp
qed

lemma length_sliceBytes: "length (sliceBytes b from to) = (to - from + 7) div 8"
  unfolding sliceBytes_def Let_def by simp

lemma sliceBytes_bit:
  assumes "k < (sz + 7) div 8"
  shows "bit (sliceBytes b from (from + sz) ! k) j \<longleftrightarrow> j < 8 \<and> 8 * k + j < sz \<and> bitval b (from + 8 * k + j)"
proof -
  define n where "n = (sz + 7) div 8"
  define out where "out = map (\<lambda>k. (word_of_int (getByte b (from + 8 * k)) :: 8 word)) [0..<n]"
  have len: "length out = n" by (simp add: out_def)
  have k: "k < n" using assms by (simp add: n_def)
  have outk: "bit (out ! k) j \<longleftrightarrow> j < 8 \<and> bitval b (from + 8 * k + j)"
    using k by (simp add: out_def word8_getByte)
  have ne: "out \<noteq> []" using k len by auto
  show ?thesis
  proof (cases "sz mod 8 = 0")
    case True
    then have "sz = 8 * n" unfolding n_def by (rule ceil8_exact)
    then have "8 * k + j < sz" if "j < 8" using that k by simp
    with True show ?thesis
      unfolding sliceBytes_def Let_def by (auto simp: outk out_def[symmetric] n_def[symmetric])
  next
    case False
    note False0 = False
    define r where "r = sz mod 8"
    have r: "0 < r" "r < 8" using False by (simp_all add: r_def)
    have m: "js_shl 1 (int r) - 1 = mask r" using r by (simp add: js_shl_1 mask_eq_exp_minus_1)
    have s: "sliceBytes b from (from + sz) =
        out[n - 1 := word_of_int (js_and (uint (last out)) (mask r))]"
      unfolding sliceBytes_def Let_def using False ne
      by (simp add: out_def[symmetric] n_def[symmetric] r_def[symmetric] m len)
    show ?thesis
    proof (cases "k = n - 1")
      case True
      have l: "last out = out ! k" using ne True len by (simp add: last_conv_nth)
      have "sz = 8 * (n - 1) + r" using False0 unfolding n_def r_def by (rule ceil8_rest)
      then have q: "8 * k + j < sz \<longleftrightarrow> j < r" using True by simp
      have u: "(out[n - 1 := word_of_int (js_and (uint (last out)) (mask r))]) ! k
          = word_of_int (js_and (uint (out ! k)) (mask r))"
        using True k len by (simp add: l)
      have "min j 31 < r \<longleftrightarrow> j < r" using r by auto
      then show ?thesis
        unfolding s u q using r
        by (auto simp: bit_word_of_int_iff bit_js_and bit_uint_iff bit_mask_iff outk)
    next
      case False
      have "sz = 8 * (n - 1) + r" using False0 unfolding n_def r_def by (rule ceil8_rest)
      then have "8 * k + j < sz" if "j < 8" using that k False by simp
      with False show ?thesis unfolding s using k len by (auto simp: outk)
    qed
  qed
qed

lemma bitsValue_bit: "bit (bitsValue b from sz) j \<longleftrightarrow> j < sz \<and> bitval b (from + j)"
proof -
  have "j div 8 < (sz + 7) div 8" if "j < sz" using that by (rule div8_lt_ceil)
  moreover have "8 * (j div 8) + j mod 8 = j" by simp
  ultimately show ?thesis
    unfolding bitsValue_def bit_foldr_bytes length_sliceBytes
    by (auto simp: sliceBytes_bit add.assoc)
qed

lemma bitsValue_range: "0 \<le> bitsValue b from sz" "bitsValue b from sz < 2 ^ sz"
  using int_of_bits_nonneg[of sz "bitsValue b from sz"] by (simp_all add: bitsValue_bit)

text \<open>No sum is rounded as long as the value stays below \<open>2 ^ 53\<close>.\<close>

lemma toDouble_small: "n < 2 ^ 53 \<Longrightarrow> toDouble n = n"
  by (simp add: toDouble_def)

lemma exact_fold_nonneg: "0 \<le> foldr (\<lambda>byte output. output * 256 + uint byte) bs (0::int)"
  by (induction bs) simp_all

lemma rounded_fold_exact:
  "foldr (\<lambda>byte output. output * 256 + uint byte) bs 0 < 2 ^ 53 \<Longrightarrow>
     foldr (\<lambda>byte output. toDouble (output * 256 + uint byte)) bs 0
       = foldr (\<lambda>byte output. output * 256 + uint byte) bs 0"
proof (induction bs)
  case Nil
  then show ?case by simp
next
  case (Cons x xs)
  let ?e = "foldr (\<lambda>byte output. output * 256 + uint byte) xs (0::int)"
  have n: "0 \<le> ?e" by (rule exact_fold_nonneg)
  have s: "?e * 256 + uint x < 2 ^ 53" using Cons.prems by simp
  have "0 \<le> uint x" by simp
  then have "?e \<le> ?e * 256 + uint x" using n by linarith
  then have "?e < 2 ^ 53" using s by linarith
  then have "foldr (\<lambda>byte output. toDouble (output * 256 + uint byte)) xs 0 = ?e"
    by (rule Cons.IH)
  then show ?case using s by (simp add: toDouble_small)
qed

lemma getInt_exact: "sz \<le> 53 \<Longrightarrow> getInt b from sz = bitsValue b from sz"
proof -
  assume "sz \<le> 53"
  then have "(2::int) ^ sz \<le> 2 ^ 53" by (rule power_increasing) simp
  then have "bitsValue b from sz < 2 ^ 53"
    using bitsValue_range(2)[of b "from" sz] by linarith
  then show ?thesis
    unfolding getInt_def bitsValue_def by (rule rounded_fold_exact)
qed

lemma getInt_bit:
  "sz \<le> 53 \<Longrightarrow> bit (getInt b from sz) j \<longleftrightarrow> j < sz \<and> bitval b (from + j)"
  by (simp add: getInt_exact bitsValue_bit)

lemma getInt_range:
  assumes "sz \<le> 53"
  shows "0 \<le> getInt b from sz" "getInt b from sz < 2 ^ sz"
  using bitsValue_range[of b "from" sz] assms by (simp_all add: getInt_exact)


lemma cursor_setBit: "cursor (setBit b pos v) = cursor b"
  unfolding setBit_def Let_def by simp


lemma setInt_Suc: "setInt b from (Suc n) v =
    setBit (setInt b from n v) (from + n) (js_and v (js_shl 1 (int n)) \<noteq> 0)"
  unfolding setInt_def by simp


lemma cursor_setInt: "cursor (setInt b from sz v) = cursor b"
  by (induction sz) (simp_all add: setInt_Suc cursor_setBit, simp add: setInt_def)








lemma bitval_past_end: "8 * length (bytes b) \<le> k \<Longrightarrow> \<not> bitval b k"
  unfolding bitval_def by (simp add: less_mult_imp_div_less mult.commute not_less div_less_iff_less_mult)

lemma int_no_bits: "(\<And>n. \<not> bit (x::int) n) \<Longrightarrow> x = 0"
  by (rule bit_eqI) simp

lemma getBit_past_end: "8 * length (bytes b) \<le> a \<Longrightarrow> getBit b a = 0"
  by (simp add: getBit_eq bitval_past_end)

lemma getByte_past_end: "8 * length (bytes b) \<le> a \<Longrightarrow> getByte b a = 0"
  by (rule int_no_bits) (simp add: getByte_bit bitval_past_end)

lemma bitsValue_past_end: "8 * length (bytes b) \<le> a \<Longrightarrow> bitsValue b a w = 0"
  by (rule int_no_bits) (simp add: bitsValue_bit bitval_past_end)

lemma rounded_fold_zeros:
  "foldr (\<lambda>byte output. toDouble (output * 256 + uint byte)) (replicate n (0 :: 8 word)) 0 = 0"
  by (induction n) (simp_all add: toDouble_def)


lemma sliceBytes_past_end:
  "8 * length (bytes b) \<le> a \<Longrightarrow> sliceBytes b a (a + w) = replicate ((w + 7) div 8) 0"
proof (rule nth_equalityI)
  show "length (sliceBytes b a (a + w)) = length (replicate ((w + 7) div 8) (0 :: 8 word))"
    by (simp add: length_sliceBytes)
next
  fix i assume a: "8 * length (bytes b) \<le> a" and "i < length (sliceBytes b a (a + w))"
  then have i: "i < (w + 7) div 8" by (simp add: length_sliceBytes)
  have "\<not> bitval b (a + 8 * i + n)" for n
    using a by (intro bitval_past_end) simp
  then have "sliceBytes b a (a + w) ! i = 0"
    by (intro bit_eqI) (simp add: sliceBytes_bit[OF i])
  then show "sliceBytes b a (a + w) ! i = replicate ((w + 7) div 8) 0 ! i" using i by simp
qed

text \<open>Past the end every byte of the slice is zero, and so is the sum, at every width.\<close>

lemma getInt_past_end:
  assumes "8 * length (bytes b) \<le> a"
  shows "getInt b a w = 0"
  unfolding getInt_def sliceBytes_past_end[OF assms] by (rule rounded_fold_zeros)

lemma getSignedInt_past_end: "8 * length (bytes b) \<le> a \<Longrightarrow> getSignedInt b a w = 0"
  unfolding getSignedInt_def Let_def by (simp add: getInt_past_end js_and_def)
section \<open>Bitstream buffer: write then read\<close>




section \<open>Bitstream buffer: reads past the end\<close>

text \<open>
  C10.  The absolute-address readers \<open>getBit\<close>, \<open>getByte\<close>, \<open>getInt\<close>, \<open>getSignedInt\<close> and
  the cursor readers built on them return a value for every bit address, and so does
  \<open>getBitSlice\<close> on a forward range \<open>[a, a + w)\<close>. Each bit they take from an address at or
  beyond \<open>8 * length bytes\<close> is zero: a set bit of the result of \<open>getBit\<close>, \<open>getByte\<close>,
  \<open>getBitSlice\<close>, or of \<open>getInt\<close> at a width of at most 53 bits, comes from an address inside
  the blob; and a read that starts at or past the end returns zero at every width (zero
  bytes for a slice) while the cursor still advances by the width read.
\<close>

theorem reads_past_end_are_zero:
  "(getBit b a \<noteq> 0 \<longrightarrow> a < 8 * length (bytes b)) \<and>
   (bit (getByte b a) j \<longrightarrow> a + j < 8 * length (bytes b)) \<and>
   (w \<le> 53 \<and> bit (getInt b a w) j \<longrightarrow> a + j < 8 * length (bytes b)) \<and>
   (\<exists>bs. getBitSlice b a (a + w) = Inr bs \<and> length bs = (w + 7) div 8 \<and>
      (\<forall>k < length bs. bit (bs ! k) j \<longrightarrow> a + 8 * k + j < 8 * length (bytes b))) \<and>
   (8 * length (bytes b) \<le> a \<longrightarrow>
      getBit b a = 0 \<and> getByte b a = 0 \<and> getInt b a w = 0 \<and> getSignedInt b a w = 0 \<and>
      getBitSlice b a (a + w) = Inr (replicate ((w + 7) div 8) 0)) \<and>
   (8 * length (bytes b) \<le> cursor b \<longrightarrow>
      nextBit b = (0, b\<lparr>cursor := cursor b + 1\<rparr>) \<and>
      nextByte b = (0, b\<lparr>cursor := cursor b + 8\<rparr>) \<and>
      nextInt b w = (0, b\<lparr>cursor := cursor b + w\<rparr>) \<and>
      nextSignedInt b w = (0, b\<lparr>cursor := cursor b + w\<rparr>) \<and>
      nextBytes b w = (replicate ((w + 7) div 8) 0, b\<lparr>cursor := cursor b + w\<rparr>))"
proof -
  have in_blob: "k < 8 * length (bytes b)" if "bitval b k" for k
    using that bitval_past_end[of b k] by (cases "8 * length (bytes b) \<le> k") simp_all
  have 1: "getBit b a \<noteq> 0 \<longrightarrow> a < 8 * length (bytes b)"
    using in_blob[of a] by (auto simp: getBit_eq)
  have 2: "bit (getByte b a) j \<longrightarrow> a + j < 8 * length (bytes b)"
    using in_blob[of "a + j"] by (simp add: getByte_bit)
  have 3: "w \<le> 53 \<and> bit (getInt b a w) j \<longrightarrow> a + j < 8 * length (bytes b)"
    using in_blob[of "a + j"] by (auto simp: getInt_bit)
  have s: "getBitSlice b a (a + w) = Inr (sliceBytes b a (a + w))"
    unfolding getBitSlice_def by simp
  have "\<forall>k < length (sliceBytes b a (a + w)).
          bit (sliceBytes b a (a + w) ! k) j \<longrightarrow> a + 8 * k + j < 8 * length (bytes b)"
    using in_blob by (auto simp: length_sliceBytes sliceBytes_bit)
  then have 4: "\<exists>bs. getBitSlice b a (a + w) = Inr bs \<and> length bs = (w + 7) div 8 \<and>
      (\<forall>k < length bs. bit (bs ! k) j \<longrightarrow> a + 8 * k + j < 8 * length (bytes b))"
    unfolding s by (simp add: length_sliceBytes)
  have 5: "8 * length (bytes b) \<le> a \<longrightarrow>
      getBit b a = 0 \<and> getByte b a = 0 \<and> getInt b a w = 0 \<and> getSignedInt b a w = 0 \<and>
      getBitSlice b a (a + w) = Inr (replicate ((w + 7) div 8) 0)"
    unfolding s
    by (simp add: getBit_past_end getByte_past_end getInt_past_end getSignedInt_past_end
        sliceBytes_past_end)
  have 6: "8 * length (bytes b) \<le> cursor b \<longrightarrow>
      nextBit b = (0, b\<lparr>cursor := cursor b + 1\<rparr>) \<and>
      nextByte b = (0, b\<lparr>cursor := cursor b + 8\<rparr>) \<and>
      nextInt b w = (0, b\<lparr>cursor := cursor b + w\<rparr>) \<and>
      nextSignedInt b w = (0, b\<lparr>cursor := cursor b + w\<rparr>) \<and>
      nextBytes b w = (replicate ((w + 7) div 8) 0, b\<lparr>cursor := cursor b + w\<rparr>)"
    unfolding nextBit_def nextByte_def nextInt_def nextSignedInt_def nextBytes_def
    by (simp add: getBit_past_end getByte_past_end getInt_past_end getSignedInt_past_end
        sliceBytes_past_end)
  from 1 2 3 4 5 6 show ?thesis by blast
qed

theorem reads_past_end_are_zero_witness:
  "getBit \<lparr>bytes = [255], cursor = 8\<rparr> 3 \<noteq> 0 \<and> (3::nat) < 8 * length [255 :: 8 word] \<and>
   (12::nat) \<le> 53 \<and> bit (getInt \<lparr>bytes = [255], cursor = 8\<rparr> 4 12) 3 \<and>
   getInt \<lparr>bytes = [255], cursor = 8\<rparr> 4 12 = 15 \<and>
   (4::nat) + 3 < 8 * length [255 :: 8 word] \<and>
   getByte \<lparr>bytes = [255], cursor = 8\<rparr> 8 = 0 \<and>
   getInt \<lparr>bytes = [255], cursor = 8\<rparr> 8 5 = 0 \<and>
   getSignedInt \<lparr>bytes = [255], cursor = 8\<rparr> 8 5 = 0 \<and>
   getBitSlice \<lparr>bytes = [255], cursor = 8\<rparr> 8 (8 + 12) = Inr [0, 0] \<and>
   nextInt \<lparr>bytes = [255], cursor = 8\<rparr> 12 = (0, \<lparr>bytes = [255], cursor = 20\<rparr>)"
proof -
  let ?b = "\<lparr>bytes = [255 :: 8 word], cursor = 8\<rparr>"
  have l: "8 * length (bytes ?b) = 8" "cursor ?b = 8" by simp_all
  have a: "getBit ?b 3 \<noteq> 0" by code_simp
  have c: "getInt ?b 4 12 = 15" by code_simp
  have d: "bit (15 :: int) 3" by code_simp
  have e: "replicate ((12 + 7) div 8) (0 :: 8 word) = [0, 0]" by code_simp
  have 1: "getBit ?b 3 \<noteq> 0 \<longrightarrow> 3 < 8 * length (bytes ?b)"
    using reads_past_end_are_zero[of ?b 3 0 12] by blast
  have 3: "(12::nat) \<le> 53 \<and> bit (getInt ?b 4 12) 3 \<longrightarrow> 4 + 3 < 8 * length (bytes ?b)"
    using reads_past_end_are_zero[of ?b 4 3 12] by blast
  have "8 * length (bytes ?b) \<le> 8 \<longrightarrow>
      getBit ?b 8 = 0 \<and> getByte ?b 8 = 0 \<and> getInt ?b 8 5 = 0 \<and> getSignedInt ?b 8 5 = 0 \<and>
      getBitSlice ?b 8 (8 + 5) = Inr (replicate ((5 + 7) div 8) 0)"
    using reads_past_end_are_zero[of ?b 8 0 5] by blast
  then have 5: "getByte ?b 8 = 0" "getInt ?b 8 5 = 0" "getSignedInt ?b 8 5 = 0"
    using l(1) by simp_all
  have "8 * length (bytes ?b) \<le> 8 \<longrightarrow>
      getBit ?b 8 = 0 \<and> getByte ?b 8 = 0 \<and> getInt ?b 8 12 = 0 \<and> getSignedInt ?b 8 12 = 0 \<and>
      getBitSlice ?b 8 (8 + 12) = Inr (replicate ((12 + 7) div 8) 0)"
    using reads_past_end_are_zero[of ?b 8 0 12] by blast
  then have 6: "getBitSlice ?b 8 (8 + 12) = Inr [0, 0]"
    using l(1) e by simp
  have "8 * length (bytes ?b) \<le> cursor ?b \<longrightarrow>
      nextBit ?b = (0, ?b\<lparr>cursor := cursor ?b + 1\<rparr>) \<and>
      nextByte ?b = (0, ?b\<lparr>cursor := cursor ?b + 8\<rparr>) \<and>
      nextInt ?b 12 = (0, ?b\<lparr>cursor := cursor ?b + 12\<rparr>) \<and>
      nextSignedInt ?b 12 = (0, ?b\<lparr>cursor := cursor ?b + 12\<rparr>) \<and>
      nextBytes ?b 12 = (replicate ((12 + 7) div 8) 0, ?b\<lparr>cursor := cursor ?b + 12\<rparr>)"
    using reads_past_end_are_zero[of ?b 8 0 12] by blast
  then have 7: "nextInt ?b 12 = (0, \<lparr>bytes = [255], cursor = 20\<rparr>)"
    by simp
  have 8: "(3::nat) < 8 * length [255 :: 8 word]" "(4::nat) + 3 < 8 * length [255 :: 8 word]"
    using 1 3 a c d by simp_all
  show ?thesis
    using a c d 5 6 7 8 by simp
qed
text \<open>
  Two reads that the claim does not allow for. A slice whose end lies 8 bits or more
  before its start makes the array constructor raise a \<open>RangeError\<close>. And at a width above
  53 bits \<open>getInt\<close> is rounded: over seven bytes \<open>0xFF\<close> it returns \<open>2 ^ 56\<close> at width 56,
  whose only set bit is bit 56, the first one past the end of the blob.
\<close>

theorem reads_that_fault_or_round:
  "getBitSlice \<lparr>bytes = [1, 2, 3], cursor = 0\<rparr> 16 8 = Inl RangeError \<and>
   getInt \<lparr>bytes = [255, 255, 255, 255, 255, 255, 255], cursor = 0\<rparr> 0 56 = 2 ^ 56 \<and>
   bitsValue \<lparr>bytes = [255, 255, 255, 255, 255, 255, 255], cursor = 0\<rparr> 0 56 = 2 ^ 56 - 1"
  by code_simp
section \<open>Schema resolver: priority bucket sort\<close>

lemma sorted_wrt_remdups: "sorted_wrt P xs \<Longrightarrow> sorted_wrt P (remdups xs)"
  by (induction xs) auto

lemma setOrder_set: "set (setOrder xs) = set xs"
  by (simp add: setOrder_def)

lemma setOrder_distinct: "distinct (setOrder xs)"
  by (simp add: setOrder_def)

lemma setOrder_sorted: "sorted xs \<Longrightarrow> sorted (setOrder xs)"
proof -
  assume "sorted xs"
  then have "sorted_wrt (\<ge>) (rev xs)" by (simp add: sorted_wrt_rev)
  then have "sorted_wrt (\<ge>) (remdups (rev xs))" by (rule sorted_wrt_remdups)
  then show ?thesis unfolding setOrder_def by (simp add: sorted_wrt_rev)
qed

lemma prioritySet_props:
  "sorted (prioritySet flat)" "distinct (prioritySet flat)"
  "set (prioritySet flat) = insert 64 ((\<lambda>e. priority (baseProperty e)) ` set flat)"
  unfolding prioritySet_def
  by (auto simp: setOrder_sorted setOrder_distinct setOrder_set)

lemma sortStep_eq:
  "sortStep p (xs, s) i =
     (if \<not> bucketMatch p (xs ! i) then (xs, s)
      else ((if s \<noteq> i then xs[i := xs ! s, s := xs ! i] else xs), Suc s))"
  unfolding sortStep_def bucketMatch_def Let_def by auto

lemma pass_inv_step:
  assumes "pass_inv p xs s0 m st" "m < length xs" "s0 \<le> m"
  shows "pass_inv p xs s0 (Suc m) (sortStep p st m)"
proof -
  obtain ys s where st: "st = (ys, s)" by (cases st)
  have inv: "length ys = length xs" "mset ys = mset xs" "s0 \<le> s" "s \<le> m"
      "take s0 ys = take s0 xs"
      "\<And>j. s0 \<le> j \<Longrightarrow> j < s \<Longrightarrow> bucketMatch p (ys ! j)"
      "\<And>j. s \<le> j \<Longrightarrow> j < m \<Longrightarrow> \<not> bucketMatch p (ys ! j)"
    using assms(1) unfolding pass_inv_def st by (simp_all add: Let_def)
  show ?thesis
  proof (cases "bucketMatch p (ys ! m)")
    case False
    then have "sortStep p st m = (ys, s)" by (simp add: st sortStep_eq)
    moreover have "\<not> bucketMatch p (ys ! j)" if "s \<le> j" "j < Suc m" for j
      using that inv(7)[of j] False by (cases "j = m") auto
    ultimately show ?thesis
      unfolding pass_inv_def using inv by (auto simp: Let_def)
  next
    case True
    show ?thesis
    proof (cases "s = m")
      case eq: True
      then have "sortStep p st m = (ys, Suc s)" using True by (simp add: st sortStep_eq)
      moreover have "bucketMatch p (ys ! j)" if "s0 \<le> j" "j < Suc s" for j
        using that inv(6)[of j] True eq by (cases "j = m") auto
      ultimately show ?thesis
        unfolding pass_inv_def using inv eq by (auto simp: Let_def)
    next
      case ne: False
      then have sm: "s < m" using inv(4) by simp
      define zs where "zs = ys[m := ys ! s, s := ys ! m]"
      have r: "sortStep p st m = (zs, Suc s)" using True ne by (simp add: st sortStep_eq zs_def)
      have len: "length zs = length xs" by (simp add: zs_def inv)
      have ms: "mset zs = mset xs"
        unfolding zs_def using mset_swap[of s ys m] sm assms(2) inv(1,2) by simp
      have nth: "zs ! j = (if j = s then ys ! m else if j = m then ys ! s else ys ! j)"
        if "j < length xs" for j
        using that sm assms(2) inv(1) by (auto simp: zs_def nth_list_update)
      have tk: "take s0 zs = take s0 xs"
        unfolding zs_def using inv(3,5) sm by (simp add: take_update_cancel)
      have a: "bucketMatch p (zs ! j)" if "s0 \<le> j" "j < Suc s" for j
        using that inv(6)[of j] True nth[of j] sm assms(2) by (cases "j = s") auto
      have b: "\<not> bucketMatch p (zs ! j)" if "Suc s \<le> j" "j < Suc m" for j
        using that inv(7)[of j] inv(7)[of s] nth[of j] sm assms(2) by (cases "j = m") auto
      show ?thesis
        unfolding pass_inv_def r using len ms tk a b inv(3) sm by (auto simp: Let_def)
    qed
  qed
qed


lemma pass_inv_fold:
  assumes "s0 \<le> m" "m \<le> length xs"
  shows "pass_inv p xs s0 m (foldl (sortStep p) (xs, s0) [s0..<m])"
  using assms
proof (induction m)
  case 0
  then show ?case by (auto simp add: pass_inv_def)
next
  case (Suc m)
  show ?case
  proof (cases "s0 = Suc m")
    case True
    then show ?thesis by (auto simp add: pass_inv_def)
  next
    case False
    then have le: "s0 \<le> m" "m \<le> length xs" "m < length xs" using Suc.prems by simp_all
    have "[s0..<Suc m] = [s0..<m] @ [m]" using le(1) by simp
    then show ?thesis
      using pass_inv_step[OF Suc.IH[OF le(1,2)] le(3) le(1)] by simp
  qed
qed

lemma sortBucket_inv:
  "s0 \<le> length xs \<Longrightarrow> pass_inv p xs s0 (length xs) (sortBucket (xs, s0) p)"
  unfolding sortBucket_def using pass_inv_fold[of s0 "length xs" xs p] by simp

lemma key_of_match:
  assumes "bucketMatch p x" "\<And>q. q \<in> P \<Longrightarrow> \<not> bucketMatch q x"
    and "64 \<in> A" "priority (baseProperty x) \<in> A" "\<And>q. q \<in> A \<Longrightarrow> q < p \<Longrightarrow> q \<in> P"
  shows "bucketKey x = p"
proof (cases "priority (baseProperty x) = p")
  case True
  show ?thesis
  proof (cases "hasFlag (baseProperty x) ChangesOften \<and> 64 < p")
    case c: True
    then have "64 \<in> P" using assms(3,5) by simp
    moreover have "bucketMatch 64 x" using c by (simp add: bucketMatch_def)
    ultimately show ?thesis using assms(2) by blast
  next
    case False
    then show ?thesis using True by (auto simp: bucketKey_def)
  qed
next
  case False
  then have c: "hasFlag (baseProperty x) ChangesOften" "p = 64"
    using assms(1) by (auto simp: bucketMatch_def)
  show ?thesis
  proof (cases "priority (baseProperty x) < 64")
    case True
    then have "priority (baseProperty x) \<in> P" using assms(4,5) c by simp
    moreover have "bucketMatch (priority (baseProperty x)) x" by (simp add: bucketMatch_def)
    ultimately show ?thesis using assms(2) by blast
  next
    case False
    then show ?thesis using c by (simp add: bucketKey_def)
  qed
qed

lemma sorted_map_const: "(\<And>x. x \<in> set xs \<Longrightarrow> f x = (c::int)) \<Longrightarrow> sorted (map f xs)"
  by (induction xs) auto

lemma outer_inv_step:
  assumes inv: "outer_inv xs P st"
    and lt: "\<And>q. q \<in> P \<Longrightarrow> q < p"
    and A: "64 \<in> A" "(\<lambda>e. priority (baseProperty e)) ` set xs \<subseteq> A"
           "\<And>q. q \<in> A \<Longrightarrow> q < p \<Longrightarrow> q \<in> P"
  shows "outer_inv xs (insert p P) (sortBucket st p)"
proof -
  obtain ys s where st: "st = (ys, s)" by (cases st)
  have i: "mset ys = mset xs" "s \<le> length ys" "sorted (map bucketKey (take s ys))"
      "\<And>x. x \<in> set (take s ys) \<Longrightarrow> bucketKey x \<in> P"
      "\<And>x q. x \<in> set (drop s ys) \<Longrightarrow> q \<in> P \<Longrightarrow> \<not> bucketMatch q x"
    using inv unfolding outer_inv_def st by (simp_all add: Let_def)
  obtain zs t where r: "sortBucket (ys, s) p = (zs, t)" by (cases "sortBucket (ys, s) p")
  have pi: "length zs = length ys" "mset zs = mset ys" "s \<le> t" "t \<le> length ys"
      "take s zs = take s ys"
      "\<And>j. s \<le> j \<Longrightarrow> j < t \<Longrightarrow> bucketMatch p (zs ! j)"
      "\<And>j. t \<le> j \<Longrightarrow> j < length ys \<Longrightarrow> \<not> bucketMatch p (zs ! j)"
    using sortBucket_inv[OF i(2), of p] unfolding pass_inv_def r by (simp_all add: Let_def)
  have "mset (take s zs) + mset (drop s zs) = mset (take s ys) + mset (drop s ys)"
    using pi(2) by (metis append_take_drop_id mset_append)
  then have md: "mset (drop s zs) = mset (drop s ys)" using pi(5) by simp
  then have sd: "set (drop s zs) = set (drop s ys)" by (rule mset_eq_setD)
  have inxs: "x \<in> set xs" if "x \<in> set zs" for x
    using that pi(2) i(1) by (metis mset_eq_setD)
  define mid where "mid = take (t - s) (drop s zs)"
  have tk: "take t zs = take s ys @ mid"
    unfolding mid_def using pi(3,5) by (metis le_add_diff_inverse take_add)
  have midmem: "bucketMatch p x \<and> x \<in> set (drop s zs)" if "x \<in> set mid" for x
  proof -
    from that obtain k where k: "k < length mid" "x = mid ! k" by (auto simp: in_set_conv_nth)
    then have kk: "k < t - s" "s + k < length zs" using pi by (auto simp: mid_def)
    then have "x = zs ! (s + k)" using k by (simp add: mid_def)
    moreover have "bucketMatch p (zs ! (s + k))" using pi(6)[of "s + k"] kk by simp
    moreover have "x \<in> set (drop s zs)" using that unfolding mid_def by (rule in_set_takeD)
    ultimately show ?thesis by simp
  qed
  have midkey: "bucketKey x = p" if "x \<in> set mid" for x
  proof (rule key_of_match[where P = P and A = A])
    show "bucketMatch p x" using midmem[OF that] by simp
    show "\<not> bucketMatch q x" if "q \<in> P" for q using midmem[OF \<open>x \<in> set mid\<close>] i(5)[of x q] that sd by simp
    show "64 \<in> A" by fact
    have "x \<in> set zs" using midmem[OF that] by (auto dest: in_set_dropD)
    then show "priority (baseProperty x) \<in> A" using inxs A(2) by auto
    show "q \<in> P" if "q \<in> A" "q < p" for q using A(3) that by simp
  qed
  have 1: "sorted (map bucketKey (take t zs))"
    unfolding tk using i(3) i(4) lt midkey
    by (auto simp: sorted_append sorted_map_const[of mid bucketKey p] dest!: lt i(4) less_imp_le)
  have 2: "bucketKey x \<in> insert p P" if "x \<in> set (take t zs)" for x
    using that unfolding tk using i(4) midkey by auto
  have 3: "\<not> bucketMatch q x" if "x \<in> set (drop t zs)" "q \<in> insert p P" for x q
  proof -
    from that(1) obtain k where k: "k < length zs - t" "x = zs ! (t + k)"
      by (auto simp: in_set_conv_nth)
    have "x \<in> set (drop s zs)" using that(1) pi(3) by (metis set_drop_subset_set_drop subsetD)
    then have "\<not> bucketMatch q x" if "q \<in> P" for q using i(5)[of x q] that sd by simp
    moreover have "\<not> bucketMatch p x" using pi(7)[of "t + k"] k pi(1) by simp
    ultimately show ?thesis using that(2) by auto
  qed
  show ?thesis
    unfolding outer_inv_def st r using pi(1,2,4) i(1) 1 2 3 by (auto simp: Let_def)
qed


lemma outer_inv_fold:
  assumes "outer_inv xs P st" "sorted ps" "distinct ps"
    and "\<And>q p. q \<in> P \<Longrightarrow> p \<in> set ps \<Longrightarrow> q < p"
    and "64 \<in> P \<union> set ps" "(\<lambda>e. priority (baseProperty e)) ` set xs \<subseteq> P \<union> set ps"
  shows "outer_inv xs (P \<union> set ps) (foldl sortBucket st ps)"
  using assms
proof (induction ps arbitrary: P st)
  case Nil
  then show ?case by simp
next
  case (Cons p ps)
  define A where "A = P \<union> set (p # ps)"
  have step: "outer_inv xs (insert p P) (sortBucket st p)"
  proof (rule outer_inv_step[where A = A])
    show "outer_inv xs P st" by fact
    show "q < p" if "q \<in> P" for q using Cons.prems(4)[of q p] that by simp
    show "64 \<in> A" using Cons.prems(5) by (simp add: A_def)
    show "(\<lambda>e. priority (baseProperty e)) ` set xs \<subseteq> A" using Cons.prems(6) by (simp add: A_def)
    show "q \<in> P" if "q \<in> A" "q < p" for q
      using that Cons.prems(2) by (auto simp: A_def)
  qed
  have "outer_inv xs (insert p P \<union> set ps) (foldl sortBucket (sortBucket st p) ps)"
  proof (rule Cons.IH[OF step])
    show "sorted ps" "distinct ps" using Cons.prems(2,3) by simp_all
    show "q < r" if "q \<in> insert p P" "r \<in> set ps" for q r
      using that Cons.prems(2,3) Cons.prems(4)[of q r] by (auto simp: less_le)
    show "64 \<in> insert p P \<union> set ps" using Cons.prems(5) by auto
    show "(\<lambda>e. priority (baseProperty e)) ` set xs \<subseteq> insert p P \<union> set ps"
      using Cons.prems(6) by auto
  qed
  then show ?case by simp
qed

lemma sortProperties_inv:
  "outer_inv xs (set (prioritySet xs)) (foldl sortBucket (xs, 0) (prioritySet xs))"
proof -
  have "outer_inv xs {} (xs, 0)" by (simp add: outer_inv_def)
  from outer_inv_fold[OF this prioritySet_props(1,2), of xs]
  show ?thesis by (auto simp add: prioritySet_props(3))
qed

lemma sortProperties_buckets_aux:
  "mset (sortProperties xs) = mset xs \<and> sorted (map bucketKey (sortProperties xs))"
proof -
  obtain ys s where r: "foldl sortBucket (xs, 0) (prioritySet xs) = (ys, s)"
    by (cases "foldl sortBucket (xs, 0) (prioritySet xs)")
  have i: "mset ys = mset xs" "s \<le> length ys" "sorted (map bucketKey (take s ys))"
      "\<And>x q. x \<in> set (drop s ys) \<Longrightarrow> q \<in> set (prioritySet xs) \<Longrightarrow> \<not> bucketMatch q x"
    using sortProperties_inv[of xs] unfolding outer_inv_def r by (simp_all add: Let_def)
  have "drop s ys = []"
  proof (rule ccontr)
    assume "drop s ys \<noteq> []"
    then obtain x where x: "x \<in> set (drop s ys)" by (cases "drop s ys") auto
    then have "x \<in> set xs" using i(1) by (metis in_set_dropD mset_eq_setD)
    then have "priority (baseProperty x) \<in> set (prioritySet xs)"
      by (simp add: prioritySet_props(3))
    then have "\<not> bucketMatch (priority (baseProperty x)) x" using i(4) x by blast
    then show False by (simp add: bucketMatch_def)
  qed
  then have "take s ys = ys" using i(2) by simp
  then show ?thesis using i(1,3) by (simp add: sortProperties_def r)
qed

text \<open>
  C1 (as amended).  \<open>sortProperties\<close> returns a permutation of the flattened list in
  ascending bucket order, where the bucket of a property is 64 if it is flagged "changes
  often" and its declared priority is at least 64, and its declared priority otherwise.
\<close>

theorem sortProperties_buckets:
  "mset (sortProperties flat) = mset flat \<and> sorted (map bucketKey (sortProperties flat))"
  by (rule sortProperties_buckets_aux)

theorem sortProperties_buckets_witness:
  "sortProperties [intProp ''a'' 128 0, intProp ''b'' 128 262144, intProp ''c'' 0 262144,
                   intProp ''d'' 64 0, intProp ''e'' 128 0]
     = [intProp ''c'' 0 262144, intProp ''b'' 128 262144, intProp ''d'' 64 0,
        intProp ''a'' 128 0, intProp ''e'' 128 0]
   \<and> sorted (map bucketKey (sortProperties
        [intProp ''a'' 128 0, intProp ''b'' 128 262144, intProp ''c'' 0 262144,
         intProp ''d'' 64 0, intProp ''e'' 128 0]))"
proof -
  have "sortProperties [intProp ''a'' 128 0, intProp ''b'' 128 262144, intProp ''c'' 0 262144,
                   intProp ''d'' 64 0, intProp ''e'' 128 0]
     = [intProp ''c'' 0 262144, intProp ''b'' 128 262144, intProp ''d'' 64 0,
        intProp ''a'' 128 0, intProp ''e'' 128 0]"
    by code_simp
  then show ?thesis
    using sortProperties_buckets[of "[intProp ''a'' 128 0, intProp ''b'' 128 262144,
      intProp ''c'' 0 262144, intProp ''d'' 64 0, intProp ''e'' 128 0]"]
    by simp
qed

text \<open>
  The sort is not the stable partition of the claim, and not every "changes often"
  property goes to bucket 64: on two properties of priority 1 followed by a "changes
  often" property of priority 0 (flag bit 18 is 262144), the last one is swapped to the
  front, in bucket 0, and the two others come out in reverse order.
\<close>

theorem sortProperties_counterexample:
  "sortProperties [intProp ''a'' 1 0, intProp ''b'' 1 0, intProp ''c'' 0 262144]
     = [intProp ''c'' 0 262144, intProp ''b'' 1 0, intProp ''a'' 1 0]
   \<and> specSortProperties [intProp ''a'' 1 0, intProp ''b'' 1 0, intProp ''c'' 0 262144]
     = [intProp ''a'' 1 0, intProp ''b'' 1 0, intProp ''c'' 0 262144]
   \<and> sortProperties [intProp ''a'' 1 0, intProp ''b'' 1 0, intProp ''c'' 0 262144]
     \<noteq> specSortProperties [intProp ''a'' 1 0, intProp ''b'' 1 0, intProp ''c'' 0 262144]"
  by code_simp

section \<open>Schema resolver: array pairing\<close>


















section \<open>The float codec\<close>

text \<open>
  The last branch of \<open>decodeFloat\<close>: a definition with none of the flags that select
  another encoding reads \<open>bits\<close> unsigned bits and interpolates between the bounds.
  The divisor is \<open>(1 << bits) - 1\<close>, which is \<open>2 ^ bits - 1\<close> as long as the 32-bit shift
  does not reach the sign bit.
\<close>

lemma decodeFloat_fallback:
  assumes "plainFloat p" and "propValue p = Some \<lparr>low = Num l, high = Num h, bits = n\<rparr>"
    and "1 \<le> n" "n \<le> 30"
  shows "decodeFloat b p =
     Inr (Num (l + (h - l) * (of_int (getInt b (cursor b) n) / (2 ^ n - 1))),
          b\<lparr>cursor := cursor b + n\<rparr>)"
proof -
  have sh: "js_shl 1 (int n) = 2 ^ n"
    using assms(4) by (simp add: js_shl_1)
  have "(1::real) < 2 ^ n"
    using assms(3) by (simp add: one_less_power)
  then have nz: "(2::real) ^ n - 1 \<noteq> 0"
    by simp
  show ?thesis
    using assms(1,2) nz unfolding decodeFloat_def plainFloat_def
    by (simp add: nextInt_def Let_def sh num_of_int_def num_sub_def)
qed

lemma plainFloat_floatProp: "plainFloat (floatProp l h n)"
  by (simp add: plainFloat_def floatProp_def hasFlag_def js_and_def)

text \<open>
  The scenario of the specification: range \<open>[0, 100]\<close>, 8 bits, raw value 128. The result
  is \<open>12800 / 255\<close>, that is \<open>50.196...\<close>.
\<close>

lemma decodeFloat_128_of_255:
  "decodeFloat \<lparr>bytes = [128], cursor = 0\<rparr> (floatProp 0 100 8)
     = Inr (Num (12800 / 255), \<lparr>bytes = [128], cursor = 8\<rparr>)"
proof -
  have g: "getInt \<lparr>bytes = [128], cursor = 0\<rparr> 0 8 = 128"
    by code_simp
  show ?thesis
    using decodeFloat_fallback[OF plainFloat_floatProp, of 0 100 8 0 100 8
        "\<lparr>bytes = [128], cursor = 0\<rparr>"]
    by (simp add: floatProp_def g)
qed

lemma decoded_128_of_255_approx: "\<bar>(12800 / 255 :: real) - 50.196\<bar> < 0.001"
  by simp

text \<open>
  Claim C5. A float property without a special encoding flag is decoded as
  \<open>low + (high - low) * r / (2 ^ bits - 1)\<close>, where \<open>r\<close> is the value of the \<open>bits\<close> bits read.
  The code does so for widths up to 30 (\<open>decodeFloat_fallback\<close>, and the scenario in
  \<open>decodeFloat_128_of_255\<close>). At width 31 the shift \<open>1 << 31\<close> is \<open>- 2147483648\<close>: with range
  \<open>[0, 100]\<close> and all 31 bits set, the raw value is \<open>2 ^ 31 - 1\<close>, for which the formula gives
  100, and the code returns \<open>- 214748364700 / 2147483649\<close>, just above \<open>- 100\<close>.
\<close>

theorem decodeFloat_width_31:
  "decodeFloat \<lparr>bytes = [255, 255, 255, 127], cursor = 0\<rparr> (floatProp 0 100 31)
     = Inr (Num (- (214748364700 / 2147483649)), \<lparr>bytes = [255, 255, 255, 127], cursor = 31\<rparr>)
   \<and> plainFloat (floatProp 0 100 31)
   \<and> getInt \<lparr>bytes = [255, 255, 255, 127], cursor = 0\<rparr> 0 31 = 2 ^ 31 - 1
   \<and> (0 + (100 - 0) * (of_int (2 ^ 31 - 1) / (2 ^ 31 - 1)) :: real) = 100"
proof -
  have g: "getInt \<lparr>bytes = [255, 255, 255, 127], cursor = 0\<rparr> 0 31 = 2147483647"
    by code_simp
  have s: "js_shl 1 31 = - 2147483648"
    by code_simp
  have p: "plainFloat (floatProp 0 100 31)"
    by (rule plainFloat_floatProp)
  have d: "decodeFloat \<lparr>bytes = [255, 255, 255, 127], cursor = 0\<rparr> (floatProp 0 100 31)
     = Inr (Num (- (214748364700 / 2147483649)), \<lparr>bytes = [255, 255, 255, 127], cursor = 31\<rparr>)"
    using p unfolding decodeFloat_def plainFloat_def
    by (simp add: nextInt_def Let_def g s num_of_int_def num_sub_def floatProp_def)
  show ?thesis
    using d p g by simp
qed

text \<open>The value decoded at width 31 is not the value of the formula, and it is negative.\<close>

theorem decodeFloat_width_31_witness:
  "decodeFloat \<lparr>bytes = [255, 255, 255, 127], cursor = 0\<rparr> (floatProp 0 100 31)
     \<noteq> Inr (Num 100, \<lparr>bytes = [255, 255, 255, 127], cursor = 31\<rparr>)
   \<and> (\<exists>x. fst (projr (decodeFloat \<lparr>bytes = [255, 255, 255, 127], cursor = 0\<rparr>
                       (floatProp 0 100 31))) = Num x \<and> x < 0)"
  using decodeFloat_width_31 by simp
section \<open>Entity store: entering visibility\<close>

lemma arrayGet_arraySet: "arrayGet (arraySet xs i v) i = Some v"
  unfolding arrayGet_def arraySet_def by (auto simp: nth_append)

lemma arrayGet_arraySet_other: "j \<noteq> i \<Longrightarrow> arrayGet (arraySet xs i v) j = arrayGet xs j"
  unfolding arrayGet_def arraySet_def by (auto simp: nth_append)

lemma fromBaseline_heap:
  "entityHeap (snd (fromBaseline d sc ser idx)) = entityHeap d"
  "entities (snd (fromBaseline d sc ser idx)) = entities d"
  "baselines (snd (fromBaseline d sc ser idx)) \<noteq> [] \<or> True"
  unfolding fromBaseline_def by (auto simp: Let_def warn_def split: option.splits)

lemma fromBaseline_entity:
  "serial (fst (fromBaseline d sc ser idx)) = ser"
  "entityIndex (fst (fromBaseline d sc ser idx)) = idx"
  "inPVS (fst (fromBaseline d sc ser idx))"
  "entityClass (fst (fromBaseline d sc ser idx)) = sc"
  "entityProps (fst (fromBaseline d sc ser idx)) =
     (case arrayGet (baselines d) (tableID sc) of None \<Rightarrow> [] | Some bl \<Rightarrow> entityProperties bl)"
  unfolding fromBaseline_def by (auto simp: Let_def split: option.splits)

lemma enterPVS_new:
  assumes s: "entities d = Some slots" and bl: "baselines d \<noteq> []"
    and new: "arrayGet slots idx = None \<or>
              (\<exists>a. arrayGet slots idx = Some a \<and> serial (entityHeap d ! a) \<noteq> ser)"
  shows "enterPVS d (enterUpdate (entityHeap d) slots pc idx ser props) =
     (let (e, d1) = fromBaseline d (serverClass pc) ser idx
      in case applyProperties (entityProps e) props of
           Inl err \<Rightarrow> Inl err
         | Inr ps \<Rightarrow>
             Inr (d1\<lparr>entityHeap := entityHeap d @ [e\<lparr>entityProps := ps\<rparr>],
                     entities := Some (arraySet slots idx (length (entityHeap d)))\<rparr>))"
proof -
  obtain e d1 where fb: "fromBaseline d (serverClass pc) ser idx = (e, d1)"
    by (cases "fromBaseline d (serverClass pc) ser idx")
  have h: "entityHeap d1 = entityHeap d" and i: "inPVS e"
    using fromBaseline_heap(1)[of d "serverClass pc" ser idx]
      fromBaseline_entity(3)[of d "serverClass pc" ser idx] fb by simp_all
  have n: "isNew (enterUpdate (entityHeap d) slots pc idx ser props)"
    using new by (auto simp: enterUpdate_def)
  have ei: "e\<lparr>inPVS := True\<rparr> = e" using i by simp
  let ?a = "length (entityHeap d)"
  show ?thesis
    unfolding enterPVS_def using s bl n
    by (auto simp: fb h Let_def enterUpdate_def applyDelta_def arrayGet_arraySet ei
        split: sum.splits)
qed

lemma enterPVS_reuse:
  assumes s: "entities d = Some slots" and bl: "baselines d \<noteq> []"
    and old: "arrayGet slots idx = Some a" "serial (entityHeap d ! a) = ser"
  shows "enterPVS d (enterUpdate (entityHeap d) slots pc idx ser props) =
     (case applyProperties (entityProps (entityHeap d ! a)) props of
        Inl err \<Rightarrow> Inl err
      | Inr ps \<Rightarrow>
          Inr (d\<lparr>entityHeap := (entityHeap d)[a := (entityHeap d ! a)\<lparr>inPVS := True, entityProps := ps\<rparr>]\<rparr>))"
proof -
  have n: "\<not> isNew (enterUpdate (entityHeap d) slots pc idx ser props)"
    using old by (auto simp: enterUpdate_def)
  show ?thesis
  proof (cases "a < length (entityHeap d)")
    case True
    then show ?thesis
      unfolding enterPVS_def using s bl n old
      by (auto simp: Let_def enterUpdate_def applyDelta_def split: sum.splits)
  next
    case False
    then have "(entityHeap d)[a := y] = entityHeap d" for y
      by (simp add: list_update_beyond)
    then show ?thesis
      unfolding enterPVS_def using s bl n old
      by (auto simp: Let_def enterUpdate_def applyDelta_def split: sum.splits)
  qed
qed


text \<open>How one property of an update changes the properties of an entity.\<close>

lemma applyStep_Inl: "foldl applyStep (Inl e) ps = Inl e"
  by (induction ps) (simp_all add: applyStep_def)

lemma applyProperties_Cons:
  "applyProperties ps (p # rest) =
     (case applyStep (Inr ps) p of Inl e \<Rightarrow> Inl e | Inr ps' \<Rightarrow> applyProperties ps' rest)"
  unfolding applyProperties_def
  by (cases "applyStep (Inr ps) p") (simp_all add: applyStep_Inl)

lemma applyStep_scalar:
  "\<not> isArray (epValue p) \<Longrightarrow> applyStep (Inr ps) p = Inr (arraySet ps (epIndex p) p)"
  by (simp add: applyStep_def)

lemma applyStep_array_empty:
  "isArray (epValue p) \<Longrightarrow> arrayGet ps (epIndex p) = None \<Longrightarrow>
     applyStep (Inr ps) p = Inr (arraySet ps (epIndex p) p)"
  by (simp add: applyStep_def copyArrayProperty_def)

lemma applyStep_array_update:
  "isArray (epValue p) \<Longrightarrow> arrayGet ps (epIndex p) = Some old \<Longrightarrow> isArray (epValue old) \<Longrightarrow>
     applyStep (Inr ps) p =
       Inr (arraySet ps (epIndex p)
              (old\<lparr>bufferFrom := bufferFrom p, bufferSize := bufferSize p, epValue := epValue p\<rparr>))"
  by (simp add: applyStep_def updateArrayProperty_def)

lemma applyStep_array_scalar:
  "isArray (epValue p) \<Longrightarrow> arrayGet ps (epIndex p) = Some old \<Longrightarrow> \<not> isArray (epValue old) \<Longrightarrow>
     applyStep (Inr ps) p = Inl (Thrown ''Tried to update array of non-array property.'')"
  by (simp add: applyStep_def updateArrayProperty_def)

text \<open>
  C3.  \<open>enterPVS\<close> throws, before it looks at the slot, in a session without a baseline and
  in one without an entity store. Otherwise, for an enter-visibility update at slot \<open>idx\<close>
  with serial \<open>ser\<close>: when the slot is empty or holds an entity with another serial, a new
  entity is made from the class baseline, stored at a fresh address and placed at the slot,
  and the update's properties are applied to it, while every entity that existed before,
  the previous occupant included, stays as it was; when the slot holds an entity with the
  same serial, that entity is kept in place, marked visible, and only the update's
  properties are applied to it. The properties are applied in order: a scalar one takes the
  place of the entity's property of its index; an array-valued one is put at an empty
  index, or gives its position, size and elements to the array-valued property that is
  there, and the update throws if the property there is a scalar.
\<close>

theorem enter_visibility:
  "(baselines d = [] \<longrightarrow>
      enterPVS d u = Inl (Thrown ''Tried to parse entity update without baselines.''))
   \<and> (baselines d \<noteq> [] \<and> entities d = None \<longrightarrow>
      enterPVS d u = Inl (Thrown ''Tried to parse entity update without entities.''))
   \<and> (baselines d \<noteq> [] \<and> entities d = Some slots \<longrightarrow>
        (arrayGet slots idx = None \<or>
          (\<exists>a. arrayGet slots idx = Some a \<and> serial (entityHeap d ! a) \<noteq> ser) \<longrightarrow>
            enterPVS d (enterUpdate (entityHeap d) slots pc idx ser props) =
              (case fromBaseline d (serverClass pc) ser idx of
                 (e, d1) \<Rightarrow>
                   (case applyProperties (entityProps e) props of
                      Inl err \<Rightarrow> Inl err
                    | Inr ps \<Rightarrow>
                        Inr (d1\<lparr>entityHeap := entityHeap d @ [e\<lparr>entityProps := ps\<rparr>],
                                entities := Some (arraySet slots idx (length (entityHeap d)))\<rparr>))))
       \<and> (\<forall>a. arrayGet slots idx = Some a \<and> serial (entityHeap d ! a) = ser \<longrightarrow>
            enterPVS d (enterUpdate (entityHeap d) slots pc idx ser props) =
              (case applyProperties (entityProps (entityHeap d ! a)) props of
                 Inl err \<Rightarrow> Inl err
               | Inr ps \<Rightarrow>
                   Inr (d\<lparr>entityHeap := (entityHeap d)
                            [a := (entityHeap d ! a)\<lparr>inPVS := True, entityProps := ps\<rparr>]\<rparr>))))
   \<and> applyProperties qs [] = Inr qs
   \<and> applyProperties qs (p # rest) =
        (case applyStep (Inr qs) p of Inl err \<Rightarrow> Inl err | Inr qs' \<Rightarrow> applyProperties qs' rest)
   \<and> (\<not> isArray (epValue p) \<longrightarrow> applyStep (Inr qs) p = Inr (arraySet qs (epIndex p) p))
   \<and> (isArray (epValue p) \<and> arrayGet qs (epIndex p) = None \<longrightarrow>
        applyStep (Inr qs) p = Inr (arraySet qs (epIndex p) p))
   \<and> (\<forall>old. isArray (epValue p) \<and> arrayGet qs (epIndex p) = Some old \<and> isArray (epValue old) \<longrightarrow>
        applyStep (Inr qs) p =
          Inr (arraySet qs (epIndex p)
                 (old\<lparr>bufferFrom := bufferFrom p, bufferSize := bufferSize p,
                       epValue := epValue p\<rparr>)))
   \<and> (\<forall>old. isArray (epValue p) \<and> arrayGet qs (epIndex p) = Some old \<and> \<not> isArray (epValue old) \<longrightarrow>
        applyStep (Inr qs) p = Inl (Thrown ''Tried to update array of non-array property.''))"
proof -
  have 1: "baselines d = [] \<longrightarrow>
      enterPVS d u = Inl (Thrown ''Tried to parse entity update without baselines.'')"
    by (simp add: enterPVS_def)
  have 2: "baselines d \<noteq> [] \<and> entities d = None \<longrightarrow>
      enterPVS d u = Inl (Thrown ''Tried to parse entity update without entities.'')"
    by (simp add: enterPVS_def)
  have 3: "enterPVS d (enterUpdate (entityHeap d) slots pc idx ser props) =
              (case fromBaseline d (serverClass pc) ser idx of
                 (e, d1) \<Rightarrow>
                   (case applyProperties (entityProps e) props of
                      Inl err \<Rightarrow> Inl err
                    | Inr ps \<Rightarrow>
                        Inr (d1\<lparr>entityHeap := entityHeap d @ [e\<lparr>entityProps := ps\<rparr>],
                                entities := Some (arraySet slots idx (length (entityHeap d)))\<rparr>)))"
    if "baselines d \<noteq> []" "entities d = Some slots"
      "arrayGet slots idx = None \<or>
          (\<exists>a. arrayGet slots idx = Some a \<and> serial (entityHeap d ! a) \<noteq> ser)"
    using enterPVS_new[OF that(2,1,3), of pc props] by (simp add: Let_def)
  have 4: "enterPVS d (enterUpdate (entityHeap d) slots pc idx ser props) =
              (case applyProperties (entityProps (entityHeap d ! a)) props of
                 Inl err \<Rightarrow> Inl err
               | Inr ps \<Rightarrow>
                   Inr (d\<lparr>entityHeap := (entityHeap d)
                            [a := (entityHeap d ! a)\<lparr>inPVS := True, entityProps := ps\<rparr>]\<rparr>))"
    if "baselines d \<noteq> []" "entities d = Some slots"
      "arrayGet slots idx = Some a \<and> serial (entityHeap d ! a) = ser" for a
    using enterPVS_reuse[OF that(2,1), of idx a ser pc props] that(3) by simp
  have 5: "applyProperties qs [] = Inr qs"
    by (simp add: applyProperties_def)
  note 6 = applyProperties_Cons[of qs p rest]
  from 1 2 3 4 5 6 applyStep_scalar[of p qs] applyStep_array_empty[of p qs]
    applyStep_array_update[of p qs] applyStep_array_scalar[of p qs]
  show ?thesis
    by blast
qed

text \<open>
  The scenario of the claim: slot 4 is entered with serial 7, then with serial 9 and a new
  health value.  The second update puts a new entity, made from the baseline, at slot 4
  and leaves the serial-7 entity untouched at its address; entering again with serial 7
  would have changed the serial-7 entity in place. An array-valued property of an update
  is put next to the health of a new entity, and overwrites the position, size and
  elements of the array-valued property of the entity that is kept.
\<close>

theorem enter_visibility_witness:
  "enterPVS (scenarioDemo (replicate 8 None) [])
       (enterUpdate [] (replicate 8 None) healthParser 4 7 [])
     = Inr (scenarioDemo [None, None, None, None, Some 0, None, None, None] [healthEntity 7 100])
   \<and> enterPVS (scenarioDemo [None, None, None, None, Some 0, None, None, None] [healthEntity 7 100])
       (enterUpdate [healthEntity 7 100] [None, None, None, None, Some 0, None, None, None]
          healthParser 4 9 [healthProp 80])
     = Inr (scenarioDemo [None, None, None, None, Some 1, None, None, None]
              [healthEntity 7 100, healthEntity 9 80])
   \<and> enterPVS (scenarioDemo [None, None, None, None, Some 0, None, None, None] [healthEntity 7 100])
       (enterUpdate [healthEntity 7 100] [None, None, None, None, Some 0, None, None, None]
          healthParser 4 7 [healthProp 80])
     = Inr (scenarioDemo [None, None, None, None, Some 0, None, None, None] [healthEntity 7 80])
   \<and> enterPVS (scenarioDemo [None, None, None, None, Some 0, None, None, None] [healthEntity 7 100])
       (enterUpdate [healthEntity 7 100] [None, None, None, None, Some 0, None, None, None]
          healthParser 4 9 [tagsProp 50 24 [3, 4, 5]])
     = Inr (scenarioDemo [None, None, None, None, Some 1, None, None, None]
              [healthEntity 7 100, taggedEntity 9 100 (tagsProp 50 24 [3, 4, 5])])
   \<and> enterPVS (scenarioDemo [None, None, None, None, Some 0, None, None, None]
                [taggedEntity 7 100 (tagsProp 10 16 [1, 2])])
       (enterUpdate [taggedEntity 7 100 (tagsProp 10 16 [1, 2])]
          [None, None, None, None, Some 0, None, None, None]
          healthParser 4 7 [healthProp 80, tagsProp 50 24 [3, 4, 5]])
     = Inr (scenarioDemo [None, None, None, None, Some 0, None, None, None]
              [taggedEntity 7 80 (tagsProp 50 24 [3, 4, 5])])
   \<and> enterPVS ((scenarioDemo (replicate 8 None) [])\<lparr>baselines := []\<rparr>)
       (enterUpdate [] (replicate 8 None) healthParser 4 7 [])
     = Inl (Thrown ''Tried to parse entity update without baselines.'')
   \<and> enterPVS ((scenarioDemo (replicate 8 None) [])\<lparr>entities := None\<rparr>)
       (enterUpdate [] (replicate 8 None) healthParser 4 7 [])
     = Inl (Thrown ''Tried to parse entity update without entities.'')
   \<and> applyStep (Inr [Some (healthProp 100)]) (healthProp 80) = Inr [Some (healthProp 80)]
   \<and> applyStep (Inr [Some (healthProp 100)]) (tagsProp 50 24 [3, 4, 5])
     = Inr [Some (healthProp 100), Some (tagsProp 50 24 [3, 4, 5])]
   \<and> applyStep (Inr [Some (healthProp 100), Some (tagsProp 10 16 [1, 2])]) (tagsProp 50 24 [3, 4, 5])
     = Inr [Some (healthProp 100), Some (tagsProp 50 24 [3, 4, 5])]
   \<and> applyStep (Inr [Some (healthProp 100), Some (healthProp 5)]) (tagsProp 50 24 [3, 4, 5])
     = Inl (Thrown ''Tried to update array of non-array property.'')"
proof -
  let ?s0 = "replicate 8 (None :: nat option)"
  let ?s7 = "[None, None, None, None, Some (0::nat), None, None, None]"
  let ?s9 = "[None, None, None, None, Some (1::nat), None, None, None]"
  let ?d0 = "scenarioDemo ?s0 []"
  let ?d7 = "scenarioDemo ?s7 [healthEntity 7 100]"
  let ?t = "tagsProp 50 24 [3, 4, 5]"
  let ?old = "tagsProp 10 16 [1, 2]"
  let ?dt = "scenarioDemo ?s7 [taggedEntity 7 100 ?old]"
  let ?u0 = "enterUpdate [] ?s0 healthParser 4 7 []"
  have e0: "baselines ?d0 \<noteq> [] \<and> entities ?d0 = Some ?s0" "entityHeap ?d0 = []"
    by (simp_all add: scenarioDemo_def)
  have e7: "baselines ?d7 \<noteq> [] \<and> entities ?d7 = Some ?s7" "entityHeap ?d7 = [healthEntity 7 100]"
    by (simp_all add: scenarioDemo_def)
  have et: "baselines ?dt \<noteq> [] \<and> entities ?dt = Some ?s7"
    "entityHeap ?dt = [taggedEntity 7 100 ?old]"
    by (simp_all add: scenarioDemo_def)
  have c0: "arrayGet ?s0 4 = None" by code_simp
  have c7: "arrayGet ?s7 4 = Some 0" by code_simp
  have s7: "serial (entityHeap ?d7 ! 0) = 7" "serial (entityHeap ?d7 ! 0) \<noteq> 9"
    unfolding e7(2) by (simp_all add: healthEntity_def)
  have st: "serial (entityHeap ?dt ! 0) = 7"
    unfolding et(2) by (simp add: taggedEntity_def healthEntity_def)
  have r1: "(case fromBaseline ?d0 (serverClass healthParser) 7 4 of
               (e, d1) \<Rightarrow>
                 (case applyProperties (entityProps e) [] of
                    Inl err \<Rightarrow> Inl err
                  | Inr ps \<Rightarrow>
                      Inr (d1\<lparr>entityHeap := entityHeap ?d0 @ [e\<lparr>entityProps := ps\<rparr>],
                              entities := Some (arraySet ?s0 4 (length (entityHeap ?d0)))\<rparr>)))
            = Inr ?d7"
    by code_simp
  have r2: "(case fromBaseline ?d7 (serverClass healthParser) 9 4 of
               (e, d1) \<Rightarrow>
                 (case applyProperties (entityProps e) [healthProp 80] of
                    Inl err \<Rightarrow> Inl err
                  | Inr ps \<Rightarrow>
                      Inr (d1\<lparr>entityHeap := entityHeap ?d7 @ [e\<lparr>entityProps := ps\<rparr>],
                              entities := Some (arraySet ?s7 4 (length (entityHeap ?d7)))\<rparr>)))
            = Inr (scenarioDemo ?s9 [healthEntity 7 100, healthEntity 9 80])"
    by code_simp
  have r3: "(case applyProperties (entityProps (entityHeap ?d7 ! 0)) [healthProp 80] of
               Inl err \<Rightarrow> Inl err
             | Inr ps \<Rightarrow>
                 Inr (?d7\<lparr>entityHeap := (entityHeap ?d7)
                          [0 := (entityHeap ?d7 ! 0)\<lparr>inPVS := True, entityProps := ps\<rparr>]\<rparr>))
            = Inr (scenarioDemo ?s7 [healthEntity 7 80])"
    by code_simp
  have r4: "(case fromBaseline ?d7 (serverClass healthParser) 9 4 of
               (e, d1) \<Rightarrow>
                 (case applyProperties (entityProps e) [?t] of
                    Inl err \<Rightarrow> Inl err
                  | Inr ps \<Rightarrow>
                      Inr (d1\<lparr>entityHeap := entityHeap ?d7 @ [e\<lparr>entityProps := ps\<rparr>],
                              entities := Some (arraySet ?s7 4 (length (entityHeap ?d7)))\<rparr>)))
            = Inr (scenarioDemo ?s9 [healthEntity 7 100, taggedEntity 9 100 ?t])"
    by code_simp
  have r5: "(case applyProperties (entityProps (entityHeap ?dt ! 0)) [healthProp 80, ?t] of
               Inl err \<Rightarrow> Inl err
             | Inr ps \<Rightarrow>
                 Inr (?dt\<lparr>entityHeap := (entityHeap ?dt)
                          [0 := (entityHeap ?dt ! 0)\<lparr>inPVS := True, entityProps := ps\<rparr>]\<rparr>))
            = Inr (scenarioDemo ?s7 [taggedEntity 7 80 ?t])"
    by code_simp
  have 1: "enterPVS ?d0 ?u0 = Inr ?d7"
    using enter_visibility[of ?d0 _ ?s0 4 7 healthParser "[]"] e0(1) c0 r1
    by (simp add: e0(2))
  have 2: "enterPVS ?d7 (enterUpdate [healthEntity 7 100] ?s7 healthParser 4 9 [healthProp 80])
      = Inr (scenarioDemo ?s9 [healthEntity 7 100, healthEntity 9 80])"
    using enter_visibility[of ?d7 _ ?s7 4 9 healthParser "[healthProp 80]"] e7(1) c7 s7(2) r2
    by (simp add: e7(2))
  have 3: "enterPVS ?d7 (enterUpdate [healthEntity 7 100] ?s7 healthParser 4 7 [healthProp 80])
      = Inr (scenarioDemo ?s7 [healthEntity 7 80])"
    using enter_visibility[of ?d7 _ ?s7 4 7 healthParser "[healthProp 80]"] e7(1) c7 s7(1) r3
    by (simp add: e7(2))
  have 4: "enterPVS ?d7 (enterUpdate [healthEntity 7 100] ?s7 healthParser 4 9 [?t])
      = Inr (scenarioDemo ?s9 [healthEntity 7 100, taggedEntity 9 100 ?t])"
    using enter_visibility[of ?d7 _ ?s7 4 9 healthParser "[?t]"] e7(1) c7 s7(2) r4
    by (simp add: e7(2))
  have 5: "enterPVS ?dt (enterUpdate [taggedEntity 7 100 ?old] ?s7 healthParser 4 7 [healthProp 80, ?t])
      = Inr (scenarioDemo ?s7 [taggedEntity 7 80 ?t])"
    using enter_visibility[of ?dt _ ?s7 4 7 healthParser "[healthProp 80, ?t]"] et(1) c7 st r5
    by (simp add: et(2))
  have b: "baselines (?d0\<lparr>baselines := []\<rparr>) = []"
    "baselines (?d0\<lparr>entities := None\<rparr>) \<noteq> [] \<and> entities (?d0\<lparr>entities := None\<rparr>) = None"
    by (simp_all add: scenarioDemo_def)
  have 6: "enterPVS (?d0\<lparr>baselines := []\<rparr>) ?u0
      = Inl (Thrown ''Tried to parse entity update without baselines.'')"
    using enter_visibility[of "?d0\<lparr>baselines := []\<rparr>" ?u0] b(1) by blast
  have 7: "enterPVS (?d0\<lparr>entities := None\<rparr>) ?u0
      = Inl (Thrown ''Tried to parse entity update without entities.'')"
    using enter_visibility[of "?d0\<lparr>entities := None\<rparr>" ?u0] b(2) by blast
  have a: "\<not> isArray (epValue (healthProp 80))" "isArray (epValue ?t)" "isArray (epValue ?old)"
    "\<not> isArray (epValue (healthProp 5))" "epIndex ?t = 1" "epIndex (healthProp 80) = 0"
    by (simp_all add: healthProp_def tagsProp_def num_of_int_def)
  have g: "arrayGet [Some (healthProp 100)] 1 = None"
    "arrayGet [Some (healthProp 100), Some ?old] 1 = Some ?old"
    "arrayGet [Some (healthProp 100), Some (healthProp 5)] 1 = Some (healthProp 5)"
    by (simp_all add: arrayGet_def)
  have v: "arraySet [Some (healthProp 100)] 0 (healthProp 80) = [Some (healthProp 80)]"
    "arraySet [Some (healthProp 100)] 1 ?t = [Some (healthProp 100), Some ?t]"
    "arraySet [Some (healthProp 100), Some ?old] 1
        (?old\<lparr>bufferFrom := bufferFrom ?t, bufferSize := bufferSize ?t, epValue := epValue ?t\<rparr>)
      = [Some (healthProp 100), Some ?t]"
    by (simp_all add: arraySet_def tagsProp_def)
  have 8: "applyStep (Inr [Some (healthProp 100)]) (healthProp 80) = Inr [Some (healthProp 80)]"
    using enter_visibility[of _ _ _ _ _ _ _ "[Some (healthProp 100)]" "healthProp 80"] a(1,6) v(1)
    by simp
  have 9: "applyStep (Inr [Some (healthProp 100)]) ?t = Inr [Some (healthProp 100), Some ?t]"
    using enter_visibility[of _ _ _ _ _ _ _ "[Some (healthProp 100)]" ?t] a(2,5) g(1) v(2)
    by simp
  have 10: "applyStep (Inr [Some (healthProp 100), Some ?old]) ?t
      = Inr [Some (healthProp 100), Some ?t]"
    using enter_visibility[of _ _ _ _ _ _ _ "[Some (healthProp 100), Some ?old]" ?t]
      a(2,3,5) g(2) v(3)
    by simp
  have 11: "applyStep (Inr [Some (healthProp 100), Some (healthProp 5)]) ?t
      = Inl (Thrown ''Tried to update array of non-array property.'')"
    using enter_visibility[of _ _ _ _ _ _ _ "[Some (healthProp 100), Some (healthProp 5)]" ?t]
      a(2,4,5) g(3)
    by simp
  show ?thesis
    by (intro conjI; rule 1 2 3 4 5 6 7 8 9 10 11)
qed

text \<open>
  Without a baseline no entity is made for the empty slot: \<open>enterPVS\<close> throws, and so does
  a full snapshot that brings an entity into slot 0 of a session that has its data tables
  but has not received a baseline.
\<close>

theorem enter_without_baseline_throws:
  "enterPVS ((scenarioDemo (replicate 8 None) [])\<lparr>baselines := []\<rparr>)
       (enterUpdate [] (replicate 8 None) healthParser 4 7 [])
     = Inl (Thrown ''Tried to parse entity update without baselines.'')
   \<and> SvcPacketEntities ((messageDemo deleteThenDelta)\<lparr>baselines := []\<rparr>)
     = Inl (Thrown ''Tried to parse entity update without baselines.'')"
  by code_simp

section \<open>Writing a property through \<open>SetProperty\<close>\<close>





















section \<open>String tables: what an update changes\<close>

lemma updateBaseline_tables:
  "updateBaseline d sc props k = Inr d' \<Longrightarrow> stringTables d' = stringTables d"
  unfolding updateBaseline_def
  by (auto simp: Let_def split: sum.splits)

lemma readInstanceBaseline_tables:
  assumes "readInstanceBaseline name d = Inr (x, d')"
  shows "stringTables d' = stringTables d"
proof (cases "parserClasses d")
  case None
  then show ?thesis
    using assms by (auto simp: readInstanceBaseline_def warn_def)
next
  case (Some parsers)
  show ?thesis
  proof (cases "parseInt name")
    case None
    then show ?thesis using assms Some by (simp add: readInstanceBaseline_def)
  next
    case (Some i)
    let ?pc = "parsers ! nat i"
    have r: "\<not> (i < 0 \<or> i \<ge> int (length parsers))"
      using assms Some \<open>parserClasses d = Some parsers\<close>
      by (auto simp: readInstanceBaseline_def)
    obtain props b1 ws where rp: "readProperties (buf d) (flatProperties ?pc) = Inr (props, b1, ws)"
      using assms Some \<open>parserClasses d = Some parsers\<close> r
      by (cases "readProperties (buf d) (flatProperties ?pc)")
         (auto simp: readInstanceBaseline_def Let_def)
    have "updateBaseline (withWarnings ws (d\<lparr>buf := b1\<rparr>)) (serverClass ?pc) props
             (length (flatProperties ?pc)) = Inr d'"
      using assms Some \<open>parserClasses d = Some parsers\<close> r rp
      by (auto simp: readInstanceBaseline_def Let_def split: sum.splits)
    then have "stringTables d' = stringTables (withWarnings ws (d\<lparr>buf := b1\<rparr>))"
      by (rule updateBaseline_tables)
    then show ?thesis by (simp add: withWarnings_def)
  qed
qed

lemma keeps_if: "keepsTables d a \<Longrightarrow> keepsTables d b \<Longrightarrow> keepsTables d (if c then a else b)"
  by simp

lemma keeps_Let: "(\<And>x. keepsTables d (f x)) \<Longrightarrow> keepsTables d (Let a f)"
  by (simp add: Let_def)

lemma keeps_prod: "(\<And>x y. keepsTables d (f x y)) \<Longrightarrow> keepsTables d (case p of (x, y) \<Rightarrow> f x y)"
  by (cases p) simp

lemma keeps_buf: "keepsTables d (Inr (x, d\<lparr>buf := b\<rparr>))"
  by (simp add: keepsTables_def)

lemma keeps_same: "keepsTables d (Inr (x, d))"
  by (simp add: keepsTables_def)

lemma keeps_baseline:
  "keepsTables d (case readInstanceBaseline name d of Inl e \<Rightarrow> Inl e
                  | Inr (x, d1) \<Rightarrow> Inr (mk x, d1))"
proof (cases "readInstanceBaseline name d")
  case (Inl e)
  then show ?thesis by (simp add: keepsTables_def)
next
  case (Inr r)
  obtain x d1 where "r = (x, d1)" by (cases r)
  then show ?thesis
    using Inr readInstanceBaseline_tables[of name d x d1] by (simp add: keepsTables_def)
qed

lemma entryFromDemo_keeps: "keepsTables d (entryFromDemo table name d)"
  unfolding entryFromDemo_def
  by (intro keeps_Let keeps_if keeps_prod keeps_buf keeps_same keeps_baseline)

lemma entryFromDemo_tables:
  "entryFromDemo table name d = Inr (e, d') \<Longrightarrow> stringTables d' = stringTables d"
  using entryFromDemo_keeps[of d table name] by (simp add: keepsTables_def)

lemma readEntryName_Inl:
  "readEntryName b h = (Inl msg, b') \<Longrightarrow> msg \<in> set (tl malformedWarnings)"
  unfolding readEntryName_def malformedWarnings_def
  by (auto simp: Let_def split: if_splits prod.splits)

lemma updateEntry_Stop:
  assumes "updateEntry dataEnd tid i h d = Inr (StopUpdate d')"
  shows "stringTables d' = stringTables d \<and> cursor (buf d') = dataEnd \<and>
         (\<exists>msg \<in> set malformedWarnings. warnings d' = warnings d @ [msg])"
proof -
  have 1: "msg \<in> set (tl malformedWarnings) \<Longrightarrow> msg \<in> set malformedWarnings" for msg
    by (simp add: malformedWarnings_def)
  have 2: "''Overflowed string table size when parsing update.'' \<in> set malformedWarnings"
    by (simp add: malformedWarnings_def)
  show ?thesis
    using assms 2
    unfolding updateEntry_def
    by (auto simp: Let_def setCursor_def warn_def dest!: readEntryName_Inl 1
        split: if_splits prod.splits sum.splits)
qed

lemma entriesOnly_refl: "stringTables d' = stringTables d \<Longrightarrow> entriesOnly tid d d'"
  by (simp add: entriesOnly_def)

lemma entriesOnly_put:
  assumes "stringTables d6 = stringTables d"
  shows "entriesOnly tid d (setCursor c (putEntry tid k e d6))"
proof (cases "tid < length (stringTables d)")
  case True
  then show ?thesis
    using assms
    by (simp add: entriesOnly_def setCursor_def putEntry_def Let_def split_beta)
next
  case False
  then show ?thesis
    using assms
    by (simp add: entriesOnly_def setCursor_def putEntry_def Let_def split_beta
          list_update_beyond not_less)
qed

lemma entriesOnly_trans:
  assumes "entriesOnly tid d0 d1" "entriesOnly tid d1 d2"
  shows "entriesOnly tid d0 d2"
proof (cases "tid < length (stringTables d0)")
  case True
  have l: "length (stringTables d1) = length (stringTables d0)"
    using assms(1) unfolding entriesOnly_def by (metis length_list_update)
  have "stringTables d1 ! tid = (fst (stringTables d0 ! tid),
           (snd (stringTables d0 ! tid))\<lparr>entries := entries (snd (stringTables d1 ! tid))\<rparr>)"
    using assms(1) True unfolding entriesOnly_def by (metis nth_list_update_eq)
  then have f: "fst (stringTables d1 ! tid) = fst (stringTables d0 ! tid)"
    and s: "snd (stringTables d1 ! tid) =
         (snd (stringTables d0 ! tid))\<lparr>entries := entries (snd (stringTables d1 ! tid))\<rparr>"
    by (metis fst_conv, metis snd_conv)
  have "stringTables d2 = (stringTables d1)[tid := (fst (stringTables d0 ! tid),
           ((snd (stringTables d0 ! tid))\<lparr>entries := entries (snd (stringTables d1 ! tid))\<rparr>)
              \<lparr>entries := entries (snd (stringTables d2 ! tid))\<rparr>)]"
    using assms(2) f s unfolding entriesOnly_def by metis
  also have "\<dots> = (stringTables d1)[tid := (fst (stringTables d0 ! tid),
           (snd (stringTables d0 ! tid))\<lparr>entries := entries (snd (stringTables d2 ! tid))\<rparr>)]"
    by simp
  also have "\<dots> = (stringTables d0)[tid := (fst (stringTables d0 ! tid),
           (snd (stringTables d0 ! tid))\<lparr>entries := entries (snd (stringTables d2 ! tid))\<rparr>)]"
  proof -
    obtain X where e1: "stringTables d1 = (stringTables d0)[tid := X]"
      using assms(1) unfolding entriesOnly_def by blast
    show ?thesis
      by (simp add: e1)
  qed
  finally show ?thesis
    by (simp add: entriesOnly_def)
next
  case False
  then have 1: "stringTables d1 = stringTables d0"
    using assms(1) by (simp add: entriesOnly_def list_update_beyond not_less)
  then have "stringTables d2 = stringTables d1"
    using assms(2) False by (simp add: entriesOnly_def list_update_beyond not_less)
  then show ?thesis
    using 1 False by (simp add: entriesOnly_def list_update_beyond not_less)
qed

lemma updateEntry_Next:
  assumes "updateEntry dataEnd tid i h d = Inr (NextEntry i' h' d')"
  shows "entriesOnly tid d d' \<and> (\<exists>name. h' = pushHistory h name)"
  using assms
  unfolding updateEntry_def
  by (auto simp: Let_def intro!: entriesOnly_refl entriesOnly_put dest!: entryFromDemo_tables
      split: if_splits prod.splits sum.splits)

text \<open>The entry loop changes nothing but the entries of the table it updates.\<close>

lemma updateEntries_Next:
  "updateEntries n dataEnd tid i h d = Inr (NextEntry i' h' d') \<Longrightarrow> entriesOnly tid d d'"
proof (induction n arbitrary: i h d)
  case 0
  then show ?case by (simp add: entriesOnly_refl)
next
  case (Suc n)
  obtain i1 h1 d1 where 1: "updateEntry dataEnd tid i h d = Inr (NextEntry i1 h1 d1)"
    and 2: "updateEntries n dataEnd tid i1 h1 d1 = Inr (NextEntry i' h' d')"
    using Suc.prems by (auto split: sum.splits updateOutcome.splits)
  show ?case
    using updateEntry_Next[OF 1] Suc.IH[OF 2] entriesOnly_trans by blast
qed

text \<open>
  A loop that stops has applied the entries before the one it stops at: the result has the
  string tables reached after those \<open>k\<close> entries, one more warning, and the cursor at the
  declared end.
\<close>

lemma updateEntries_Stop:
  "updateEntries n dataEnd tid i h d = Inr (StopUpdate d') \<Longrightarrow>
     \<exists>k i' h' dk. k < n \<and> updateEntries k dataEnd tid i h d = Inr (NextEntry i' h' dk) \<and>
        stringTables d' = stringTables dk \<and> cursor (buf d') = dataEnd \<and>
        (\<exists>msg \<in> set malformedWarnings. warnings d' = warnings dk @ [msg])"
proof (induction n arbitrary: i h d)
  case 0
  then show ?case by simp
next
  case (Suc n)
  show ?case
  proof (cases "updateEntry dataEnd tid i h d")
    case (Inl e)
    then show ?thesis using Suc.prems by simp
  next
    case (Inr out)
    show ?thesis
    proof (cases out)
      case (StopUpdate d1)
      then have "updateEntry dataEnd tid i h d = Inr (StopUpdate d')"
        using Suc.prems Inr by simp
      then have "stringTables d' = stringTables d \<and> cursor (buf d') = dataEnd \<and>
         (\<exists>msg \<in> set malformedWarnings. warnings d' = warnings d @ [msg])"
        by (rule updateEntry_Stop)
      moreover have "updateEntries 0 dataEnd tid i h d = Inr (NextEntry i h d)"
        by simp
      ultimately show ?thesis
        by blast
    next
      case (NextEntry i1 h1 d1)
      then have "updateEntries n dataEnd tid i1 h1 d1 = Inr (StopUpdate d')"
        using Suc.prems Inr by simp
      then obtain k i' h' dk where k: "k < n"
        and r: "updateEntries k dataEnd tid i1 h1 d1 = Inr (NextEntry i' h' dk)"
        and c: "stringTables d' = stringTables dk \<and> cursor (buf d') = dataEnd \<and>
                (\<exists>msg \<in> set malformedWarnings. warnings d' = warnings dk @ [msg])"
        using Suc.IH by blast
      have "updateEntries (Suc k) dataEnd tid i h d = Inr (NextEntry i' h' dk)"
        using r Inr NextEntry by simp
      then show ?thesis
        using k c by (metis Suc_less_eq)
    qed
  qed
qed

lemma updateEntries_Stop_entriesOnly:
  assumes "updateEntries n dataEnd tid i h d = Inr (StopUpdate d')"
  shows "entriesOnly tid d d'"
proof -
  obtain k i' h' dk where r: "updateEntries k dataEnd tid i h d = Inr (NextEntry i' h' dk)"
    and s: "stringTables d' = stringTables dk"
    using updateEntries_Stop[OF assms] by blast
  show ?thesis
    using updateEntries_Next[OF r] s by (simp add: entriesOnly_def)
qed

text \<open>
  Whatever the message holds, if it returns then only the entries of its table have
  changed among the string tables, and the cursor is at the declared end.
\<close>

lemma SvcUpdateStringTable_entriesOnly:
  assumes "SvcUpdateStringTable d0 = Inr d'"
  shows "entriesOnly (updateTableID d0) d0 d' \<and> cursor (buf d') = updateDataEnd d0"
proof -
  obtain tid n dataEnd b4 where h: "updateHeader (buf d0) = (tid, n, dataEnd, b4)"
    by (cases "updateHeader (buf d0)") auto
  have t: "updateTableID d0 = tid" "updateDataEnd d0 = dataEnd"
    by (simp_all add: updateTableID_def updateDataEnd_def h)
  have w: "entriesOnly tid d0 (setCursor dataEnd (warn msg (d0\<lparr>buf := b\<rparr>)))" for msg b
    by (simp add: entriesOnly_def setCursor_def warn_def)
  have c: "cursor (buf (setCursor dataEnd x)) = dataEnd" for x
    by (simp add: setCursor_def)
  have e: "entriesOnly tid d0 d" if "entriesOnly tid (d0\<lparr>buf := b\<rparr>) d" for b d
    using that by (simp add: entriesOnly_def)
  have s: "entriesOnly tid d0 (setCursor dataEnd d)" if "entriesOnly tid d0 d" for d
    using that by (simp add: entriesOnly_def setCursor_def)
  obtain dict b5 where nb: "nextBit b4 = (dict, b5)"
    by (cases "nextBit b4") auto
  let ?d1 = "d0\<lparr>buf := b5\<rparr>"
  consider (early) msg b where "d' = setCursor dataEnd (warn msg (d0\<lparr>buf := b\<rparr>))"
    | (stop) "updateEntries n dataEnd tid (- 1) [] ?d1 = Inr (StopUpdate d')"
    | (finished) i hist d2 where "updateEntries n dataEnd tid (- 1) [] ?d1 = Inr (NextEntry i hist d2)"
        "d' = setCursor dataEnd d2"
    using assms unfolding SvcUpdateStringTable_def h
    by (auto simp: Let_def nb split: if_splits sum.splits updateOutcome.splits)
  then show ?thesis
  proof cases
    case early
    then show ?thesis using w c t by simp
  next
    case stop
    have "entriesOnly tid d0 d'"
      using updateEntries_Stop_entriesOnly[OF stop] by (rule e)
    moreover have "cursor (buf d') = dataEnd"
      using updateEntries_Stop[OF stop] by blast
    ultimately show ?thesis using t by simp
  next
    case finished
    have "entriesOnly tid d0 d2"
      using updateEntries_Next[OF finished(1)] by (rule e)
    then show ?thesis using finished(2) s c t by simp
  qed
qed

text \<open>
  Each of the three malformations stops the entry loop at that entry, and a stop at entry
  \<open>k\<close> is the result of the whole loop.
\<close>

lemma updateEntry_malformed:
  assumes "malformedEntry tid i h d"
  shows "\<exists>d'. updateEntry dataEnd tid i h d = Inr (StopUpdate d')"
proof -
  obtain entryIndex b2 where r: "readEntryIndex (snd (stringTables d ! tid)) i (buf d) = (entryIndex, b2)"
    by (cases "readEntryIndex (snd (stringTables d ! tid)) i (buf d)") auto
  show ?thesis
  proof (cases "entryIndex > int (length (entries (snd (stringTables d ! tid))))")
    case True
    then show ?thesis
      unfolding updateEntry_def by (simp add: Let_def r)
  next
    case False
    obtain hasName b3 where 1: "nextBit b2 = (hasName, b3)" by (cases "nextBit b2") auto
    obtain compressed b4 where 2: "nextBit b3 = (compressed, b4)" by (cases "nextBit b3") auto
    obtain historyIndex b5 where 3: "nextInt b4 5 = (historyIndex, b5)" by (cases "nextInt b4 5") auto
    obtain substringLength b6 where 4: "nextInt b5 5 = (substringLength, b6)"
      by (cases "nextInt b5 5") auto
    have m: "hasName \<noteq> 0" "compressed \<noteq> 0"
      "nat historyIndex \<ge> length h \<or> substringLength > int (length (h ! nat historyIndex))"
      using assms False unfolding malformedEntry_def by (simp_all add: Let_def r 1 2 3 4)
    have "\<exists>msg b'. readEntryName b2 h = (Inl msg, b')"
      unfolding readEntryName_def using m by (auto simp: Let_def 1 2 3 4)
    then obtain msg b' where n: "readEntryName b2 h = (Inl msg, b')" by blast
    show ?thesis
      unfolding updateEntry_def using False by (simp add: Let_def r n)
  qed
qed

lemma updateEntries_stop_at:
  "updateEntries k dataEnd tid i0 h0 d = Inr (NextEntry i h dk) \<Longrightarrow>
   updateEntry dataEnd tid i h dk = Inr (StopUpdate d2) \<Longrightarrow> k < n \<Longrightarrow>
   updateEntries n dataEnd tid i0 h0 d = Inr (StopUpdate d2)"
proof (induction k arbitrary: n i0 h0 d)
  case 0
  then obtain m where "n = Suc m" by (cases n) auto
  then show ?case using 0 by simp
next
  case (Suc k)
  obtain m where n: "n = Suc m" and m: "k < m" using Suc.prems(3) by (cases n) auto
  obtain i1 h1 d1 where 1: "updateEntry dataEnd tid i0 h0 d = Inr (NextEntry i1 h1 d1)"
    and 2: "updateEntries k dataEnd tid i1 h1 d1 = Inr (NextEntry i h dk)"
    using Suc.prems(1) by (auto split: sum.splits updateOutcome.splits)
  have "updateEntries m dataEnd tid i1 h1 d1 = Inr (StopUpdate d2)"
    using Suc.IH[OF 2 Suc.prems(2) m] .
  then show ?case using n 1 by simp
qed

text \<open>
  Claim C8. A message whose first \<open>k\<close> entries are read and applied, and whose next entry is
  malformed (its index past the end of the table, its name a reference to a missing history
  slot, or its shared prefix longer than the history name): the message returns normally,
  with one more warning and the cursor at its declared end. The string tables are those
  reached after the \<open>k\<close> entries: the table is not put back to the state it had before the
  message, and among the string tables only the entries of the targeted table can differ
  from before.
\<close>

theorem update_stop_keeps_applied_entries:
  assumes "updateHeader (buf d0) = (tid, n, dataEnd, b4)"
    and "tid < length (stringTables d0)"
    and "maxEntries (snd (stringTables d0 ! tid)) \<noteq> None"
    and "nextBit b4 = (0, b5)"
    and "k < n"
    and "updateEntries k dataEnd tid (- 1) [] (d0\<lparr>buf := b5\<rparr>) = Inr (NextEntry i hist dk)"
    and "malformedEntry tid i hist dk"
  shows "\<exists>d2. SvcUpdateStringTable d0 = Inr d2 \<and> stringTables d2 = stringTables dk \<and>
           entriesOnly tid d0 d2 \<and> cursor (buf d2) = dataEnd \<and>
           (\<exists>msg \<in> set malformedWarnings. warnings d2 = warnings dk @ [msg])"
proof -
  obtain d2 where s: "updateEntry dataEnd tid i hist dk = Inr (StopUpdate d2)"
    using updateEntry_malformed[OF assms(7)] by blast
  have u: "updateEntries n dataEnd tid (- 1) [] (d0\<lparr>buf := b5\<rparr>) = Inr (StopUpdate d2)"
    using updateEntries_stop_at[OF assms(6) s assms(5)] .
  have r: "SvcUpdateStringTable d0 = Inr d2"
    using assms(1-4) u unfolding SvcUpdateStringTable_def by (auto simp: Let_def)
  have "entriesOnly (updateTableID d0) d0 d2"
    using SvcUpdateStringTable_entriesOnly[OF r] by simp
  then have e: "entriesOnly tid d0 d2"
    using assms(1) by (simp add: updateTableID_def)
  show ?thesis
    using r e updateEntry_Stop[OF s] by blast
qed

theorem update_stop_keeps_applied_entries_witness:
  "updateHeader (buf (tablesDemo partialUpdate))
     = (0, 2, 93, \<lparr>bytes = partialUpdate, cursor = 42\<rparr>)
   \<and> nextBit \<lparr>bytes = partialUpdate, cursor = 42\<rparr> = (0, \<lparr>bytes = partialUpdate, cursor = 43\<rparr>)
   \<and> updateEntries 1 93 0 (- 1) []
        ((tablesDemo partialUpdate)\<lparr>buf := \<lparr>bytes = partialUpdate, cursor = 43\<rparr>\<rparr>)
     = Inr (NextEntry 0 [''a'']
         ((tablesDemo partialUpdate)
            \<lparr>buf := \<lparr>bytes = partialUpdate, cursor = 85\<rparr>,
             stringTables := [(''downloadables'',
                                (plainTable ''downloadables'')\<lparr>entries := [plainEntry ''a'']\<rparr>),
                              (''lightstyles'', plainTable ''lightstyles'')]\<rparr>))
   \<and> malformedEntry 0 0 [''a'']
         ((tablesDemo partialUpdate)
            \<lparr>buf := \<lparr>bytes = partialUpdate, cursor = 85\<rparr>,
             stringTables := [(''downloadables'',
                                (plainTable ''downloadables'')\<lparr>entries := [plainEntry ''a'']\<rparr>),
                              (''lightstyles'', plainTable ''lightstyles'')]\<rparr>)
   \<and> (\<exists>d2. SvcUpdateStringTable (tablesDemo partialUpdate) = Inr d2 \<and>
          stringTables d2 = [(''downloadables'',
                                (plainTable ''downloadables'')\<lparr>entries := [plainEntry ''a'']\<rparr>),
                             (''lightstyles'', plainTable ''lightstyles'')] \<and>
          entriesOnly 0 (tablesDemo partialUpdate) d2 \<and> cursor (buf d2) = 93)"
proof -
  let ?dk = "(tablesDemo partialUpdate)
            \<lparr>buf := \<lparr>bytes = partialUpdate, cursor = 85\<rparr>,
             stringTables := [(''downloadables'',
                                (plainTable ''downloadables'')\<lparr>entries := [plainEntry ''a'']\<rparr>),
                              (''lightstyles'', plainTable ''lightstyles'')]\<rparr>"
  have h: "updateHeader (buf (tablesDemo partialUpdate))
     = (0, 2, 93, \<lparr>bytes = partialUpdate, cursor = 42\<rparr>)"
    by code_simp
  have t: "0 < length (stringTables (tablesDemo partialUpdate))"
    "maxEntries (snd (stringTables (tablesDemo partialUpdate) ! 0)) \<noteq> None"
    by (simp_all add: tablesDemo_def plainTable_def)
  have b: "nextBit \<lparr>bytes = partialUpdate, cursor = 42\<rparr>
     = (0, \<lparr>bytes = partialUpdate, cursor = 43\<rparr>)"
    by code_simp
  have k: "(1::nat) < 2"
    by simp
  have u: "updateEntries 1 93 0 (- 1) []
       ((tablesDemo partialUpdate)\<lparr>buf := \<lparr>bytes = partialUpdate, cursor = 43\<rparr>\<rparr>)
     = Inr (NextEntry 0 [''a''] ?dk)"
    by code_simp
  have m: "malformedEntry 0 0 [''a''] ?dk"
    by code_simp
  have s: "stringTables ?dk = [(''downloadables'',
                                (plainTable ''downloadables'')\<lparr>entries := [plainEntry ''a'']\<rparr>),
                             (''lightstyles'', plainTable ''lightstyles'')]"
    by simp
  show ?thesis
    using update_stop_keeps_applied_entries[OF h t b k u m] h b u m unfolding s by blast
qed

text \<open>
  The other two malformations: an index past the end of the empty table, and a prefix of
  length 4 of the name \<open>abc\<close>.
\<close>

lemma overflow_and_long_prefix:
  "(case SvcUpdateStringTable (tablesDemo overflowUpdate) of
      Inl e \<Rightarrow> False
    | Inr d \<Rightarrow>
        entryNames d = [[], []] \<and> cursor (buf d) = 52 \<and>
        warnings d = [''Overflowed string table size when parsing update.'']) \<and>
   (case SvcUpdateStringTable (tablesDemo longPrefixUpdate) of
      Inl e \<Rightarrow> False
    | Inr d \<Rightarrow>
        entryNames d = [[''abc''], []] \<and> cursor (buf d) = 153 \<and>
        warnings d = [''String table update entry substring longer than entry name.''])"
  by code_simp

text \<open>
  The table before and after \<open>partialUpdate\<close>: the message is given up at its second entry,
  and the first one stays in the table.
\<close>

theorem update_stop_is_not_a_rollback:
  "entryNames (tablesDemo partialUpdate) = [[], []] \<and>
   (case SvcUpdateStringTable (tablesDemo partialUpdate) of
      Inl e \<Rightarrow> False
    | Inr d \<Rightarrow>
        entryNames d = [[''a''], []] \<and> cursor (buf d) = 93 \<and>
        warnings d = [''Tried to retrieve non-existent entry from string table update history.''])"
  by code_simp

section \<open>String tables: substring-compressed names\<close>

text \<open>The history is a queue of at most 32 names: a push on a full one drops the oldest.\<close>

lemma pushHistory_fifo:
  "length h \<le> 32 \<Longrightarrow> pushHistory h x = drop (Suc (length h) - 32) (h @ [x])"
  by (cases h) (auto simp: pushHistory_def)

lemma pushHistory_length:
  "length h \<le> 32 \<Longrightarrow> length (pushHistory h x) = min 32 (Suc (length h))"
  by (auto simp: pushHistory_def)

lemma pushHistory_last: "last (pushHistory h x) = x"
  by (simp add: pushHistory_def)

text \<open>
  After \<open>n\<close> entries the history holds the last 32 of the names it held before followed by
  the \<open>n\<close> names of the entries.
\<close>

lemma updateEntries_history:
  "updateEntries n dataEnd tid i h d = Inr (NextEntry i' h' d') \<Longrightarrow> length h \<le> 32 \<Longrightarrow>
     \<exists>names. length names = n \<and> h' = drop (length h + n - 32) (h @ names)"
proof (induction n arbitrary: i h d)
  case 0
  then show ?case by simp
next
  case (Suc n)
  obtain i1 h1 d1 where 1: "updateEntry dataEnd tid i h d = Inr (NextEntry i1 h1 d1)"
    and 2: "updateEntries n dataEnd tid i1 h1 d1 = Inr (NextEntry i' h' d')"
    using Suc.prems(1) by (auto split: sum.splits updateOutcome.splits)
  obtain name where n: "h1 = pushHistory h name"
    using updateEntry_Next[OF 1] by blast
  have l: "length h1 = min 32 (Suc (length h))"
    using n pushHistory_length[OF Suc.prems(2)] by simp
  then have "length h1 \<le> 32" by simp
  then obtain names where ln: "length names = n"
    and h': "h' = drop (length h1 + n - 32) (h1 @ names)"
    using Suc.IH[OF 2] by blast
  have "h' = drop (length h + Suc n - 32) (h @ name # names)"
  proof (cases "length h = 32")
    case True
    then have "h \<noteq> []" by auto
    then have "h1 @ names = drop 1 (h @ name # names)"
      using n True by (simp add: pushHistory_def drop_Suc)
    then show ?thesis
      using h' l True by simp
  next
    case False
    then have "h1 = h @ [name]"
      using n by (simp add: pushHistory_def)
    then show ?thesis
      using h' by simp
  qed
  then show ?case
    using ln by (metis length_Cons)
qed

text \<open>
  The two ways a name is sent: in full, or as a history slot, the length of the shared
  prefix and the suffix. A reference is taken when the slot holds a name that is not empty
  and the prefix is no longer than it.
\<close>

lemma readEntryName_plain:
  assumes "nextBit b = (1, b1)" and "nextBit b1 = (0, b2)"
    and "nextNullTerminatedString b2 = (s, b3)"
  shows "readEntryName b h = (Inr s, b3)"
  using assms by (simp add: readEntryName_def)

lemma readEntryName_compressed:
  assumes "nextBit b = (1, b1)" and "nextBit b1 = (1, b2)"
    and "nextInt b2 5 = (i, b3)" and "nat i < length h" and "h ! nat i \<noteq> []"
    and "nextInt b3 5 = (l, b4)" and "l \<le> int (length (h ! nat i))"
    and "nextNullTerminatedString b4 = (s, b5)"
  shows "readEntryName b h = (Inr (take (nat l) (h ! nat i) @ s), b5)"
  using assms by (simp add: readEntryName_def)

text \<open>A reference to a slot that holds the empty name is refused like a missing slot.\<close>

lemma readEntryName_empty_slot:
  assumes "nextBit b = (1, b1)" and "nextBit b1 = (1, b2)"
    and "nextInt b2 5 = (i, b3)" and "nat i < length h" and "h ! nat i = []"
  shows "readEntryName b h
     = (Inl ''Tried to retrieve non-existent entry from string table update history.'', b3)"
  using assms by (simp add: readEntryName_def)

text \<open>
  The names \<open>abc\<close> and \<open>abd\<close>, the second one compressed against the first or sent in full:
  the table ends up the same.
\<close>

lemma compressed_as_uncompressed:
  "(case SvcUpdateStringTable (tablesDemo compressedUpdate) of
      Inl e \<Rightarrow> False
    | Inr d \<Rightarrow> entryNames d = [[''abc'', ''abd''], []] \<and> warnings d = [] \<and> cursor (buf d) = 153) \<and>
   (case SvcUpdateStringTable (tablesDemo uncompressedUpdate) of
      Inl e \<Rightarrow> False
    | Inr d \<Rightarrow> entryNames d = [[''abc'', ''abd''], []] \<and> warnings d = [] \<and> cursor (buf d) = 159)"
  by code_simp

text \<open>
  Claim C7. A compressed name is decoded from a history slot, a prefix length and a suffix
  (\<open>readEntryName_compressed\<close>), the history is a queue of 32 names (\<open>pushHistory_fifo\<close>,
  \<open>updateEntries_history\<close>), and the result is the name sent in full
  (\<open>compressed_as_uncompressed\<close>), except when the slot holds the empty name. An entry
  without a name pushes the empty name; the test \<open>!historyItem\<close> then takes a reference to
  that slot for a missing one. In \<open>emptyReferenceUpdate\<close> the second entry is the name \<open>ab\<close>
  as slot 0, prefix length 0, suffix \<open>ab\<close>: the update is given up and the entry is not
  stored. In \<open>plainNameUpdate\<close> the same name is sent in full and stored.
\<close>

theorem empty_history_name_is_refused:
  "(case SvcUpdateStringTable (tablesDemo emptyReferenceUpdate) of
      Inl e \<Rightarrow> False
    | Inr d \<Rightarrow>
        entryNames d = [[''''], []] \<and>
        warnings d = [''Tried to retrieve non-existent entry from string table update history.'']) \<and>
   (case SvcUpdateStringTable (tablesDemo plainNameUpdate) of
      Inl e \<Rightarrow> False
    | Inr d \<Rightarrow> entryNames d = [['''', ''ab''], []] \<and> warnings d = [])"
  by code_simp

theorem empty_history_name_is_refused_witness:
  "\<exists>d d'. SvcUpdateStringTable (tablesDemo emptyReferenceUpdate) = Inr d \<and>
           SvcUpdateStringTable (tablesDemo plainNameUpdate) = Inr d' \<and>
           entryNames d \<noteq> entryNames d' \<and> warnings d \<noteq> []"
  using empty_history_name_is_refused by (auto split: sum.splits)
section \<open>Snapshot messages: giving up on a desynchronised message\<close>

lemma arrayGet_arrayDelete: "arrayGet (arrayDelete xs i) i = None"
  unfolding arrayGet_def arrayDelete_def by simp

text \<open>
  The range check of the update loop: an index below 0 or above the length of the entity
  store ends the message with a warning, the cursor at the declared end.
\<close>

lemma entityUpdate_overflow:
  assumes "entities d = Some slots" "serverClasses d = Some cs" "parserClasses d = Some ps"
    and "index0 + (fst (nextBitInt (buf d)) + 1) < 0
         \<or> index0 + (fst (nextBitInt (buf d)) + 1) > int (length slots)"
  shows "entityUpdate dataEnd index0 d =
     Inr (Stop (setCursor dataEnd (warn ''Entity update index overflowed.''
                  (d\<lparr>buf := snd (nextBitInt (buf d))\<rparr>))))"
  using assms unfolding entityUpdate_def desync_def
  by (auto simp: split_beta Let_def)

text \<open>A delta for a slot that holds no entity ends the message in the same way.\<close>

lemma entityUpdate_delta_absent:
  assumes "entities d = Some slots" "serverClasses d = Some cs" "parserClasses d = Some ps"
    and "0 \<le> index0 + (fst (nextBitInt (buf d)) + 1)"
    and "index0 + (fst (nextBitInt (buf d)) + 1) \<le> int (length slots)"
    and "fst (nextInt (snd (nextBitInt (buf d))) 2) = 0"
    and "arrayGet slots (nat (index0 + (fst (nextBitInt (buf d)) + 1))) = None"
  shows "entityUpdate dataEnd index0 d =
     Inr (Stop (setCursor dataEnd (warn ''Tried to apply delta to non-existent entity.''
                  (d\<lparr>buf := snd (nextInt (snd (nextBitInt (buf d))) 2)\<rparr>))))"
  using assms unfolding entityUpdate_def desync_def
  by (auto simp: split_beta Let_def)

text \<open>The two-bit update type is one of 0, 1, 2, 3, so the "unknown type" branch is never taken.\<close>

lemma updateType_known: "fst (nextInt b 2) \<in> {0, 1, 2, 3}"
proof -
  have "0 \<le> getInt b (cursor b) 2" "getInt b (cursor b) 2 < 2 ^ 2"
    by (rule getInt_range; simp)+
  then show ?thesis unfolding nextInt_def by auto
qed

text \<open>Every early end of the loop leaves the cursor at the declared end and adds a warning.\<close>

lemma entityUpdate_Stop:
  assumes "entityUpdate dataEnd index0 d = Inr (Stop d')"
  shows "cursor (buf d') = dataEnd \<and> length (warnings d') = Suc (length (warnings d))"
  using assms unfolding entityUpdate_def desync_def
  by (auto simp: split_beta Let_def setCursor_def warn_def
      split: option.splits if_splits sum.splits prod.splits)

lemma entityUpdates_Stop:
  "entityUpdates n dataEnd index0 d = Inr (Stop d') \<Longrightarrow>
     cursor (buf d') = dataEnd \<and> warnings d' \<noteq> []"
proof (induction n arbitrary: index0 d)
  case 0
  then show ?case by simp
next
  case (Suc n)
  show ?case
  proof (cases "entityUpdate dataEnd index0 d")
    case (Inl e)
    then show ?thesis using Suc.prems by simp
  next
    case (Inr out)
    show ?thesis
    proof (cases out)
      case (Stop d1)
      then have "d1 = d'" using Suc.prems Inr by simp
      then show ?thesis using entityUpdate_Stop[of dataEnd index0 d d'] Inr Stop by auto
    next
      case (Next i d1)
      then have "entityUpdates n dataEnd i d1 = Inr (Stop d')" using Suc.prems Inr by simp
      then show ?thesis by (rule Suc.IH)
    qed
  qed
qed

text \<open>A message that returns leaves the cursor at its declared end, whatever happened.\<close>

lemma SvcPacketEntities_cursor:
  assumes "SvcPacketEntities d0 = Inr d'"
  shows "cursor (buf d') = packetDataEnd d0"
proof -
  obtain isDelta deltaFrom updatedEntries dataEnd b7
    where h: "packetHeader (buf d0) = (isDelta, deltaFrom, updatedEntries, dataEnd, b7)"
    by (cases "packetHeader (buf d0)") auto
  have e: "packetDataEnd d0 = dataEnd" by (simp add: packetDataEnd_def h)
  have sc: "cursor (buf (setCursor dataEnd x)) = dataEnd" for x by (simp add: setCursor_def)
  show ?thesis
    using assms entityUpdates_Stop[of "nat updatedEntries" dataEnd "- 1" _ d']
    unfolding SvcPacketEntities_def h e
    by (auto simp: Let_def sc split: if_splits sum.splits outcome.splits)
qed

text \<open>An early end of the loop is a normal return of the message, not an exception.\<close>

lemma SvcPacketEntities_Stop:
  assumes "packetHeader (buf d0) = (isDelta, deltaFrom, updatedEntries, dataEnd, b7)"
    and "dataTables d0 \<noteq> None" "serverClasses d0 \<noteq> None" "parserClasses d0 \<noteq> None"
    and "\<not> (isDelta \<and> deltaFrom \<noteq> 0 \<and> deltaFrom > tick d0)"
    and "d1 = (if \<not> isDelta then d0\<lparr>buf := b7, entities := Some (replicate 2048 None)\<rparr>
               else d0\<lparr>buf := b7\<rparr>)"
    and "entities d1 \<noteq> None"
    and "entityUpdates (nat updatedEntries) dataEnd (- 1) d1 = Inr (Stop d2)"
  shows "SvcPacketEntities d0 = Inr d2"
  using assms unfolding SvcPacketEntities_def by (auto simp: Let_def)

text \<open>
  The scenario of the spec: an entity enters slot 0, the next message deletes the slot, and
  a delta against the slot in the third message is reported and the message returns, the
  cursor at its end (bit 252) and the slot still empty.
\<close>

lemma delete_then_delta_is_reported:
  "(case SvcPacketEntities (messageDemo deleteThenDelta) of
      Inl e \<Rightarrow> False
    | Inr d1 \<Rightarrow>
        cursor (buf d1) = 81 \<and> map_option (\<lambda>s. arrayGet s 0) (entities d1) = Some (Some 0) \<and>
        (case SvcPacketEntities d1 of
           Inl e \<Rightarrow> False
         | Inr d2 \<Rightarrow>
             cursor (buf d2) = 167 \<and> map_option (\<lambda>s. arrayGet s 0) (entities d2) = Some None \<and>
             warnings d2 = [] \<and>
             (case SvcPacketEntities d2 of
                Inl e \<Rightarrow> False
              | Inr d3 \<Rightarrow>
                  cursor (buf d3) = 252 \<and> entities d3 = entities d2 \<and>
                  warnings d3 = [''Tried to apply delta to non-existent entity.''])))"
  by code_simp

text \<open>
  C4 (the code at the failing input).  The range check accepts an entity index equal to
  the length of the store.  In a full snapshot whose only update is an enter-visibility at
  index 2048, taken by a session with a parser class and a baseline, the message is
  processed to its end without any warning: the store grows to 2049 slots and slot 2048
  holds a new entity of serial 7.
\<close>

theorem index_at_length_is_accepted:
  "(case SvcPacketEntities (messageDemo enterAtLength) of
      Inl e \<Rightarrow> False
    | Inr d \<Rightarrow>
        cursor (buf d) = 89 \<and> warnings d = [] \<and>
        map_option length (entities d) = Some 2049 \<and>
        map_option (\<lambda>s. arrayGet s 2048) (entities d) = Some (Some 0) \<and>
        map serial (entityHeap d) = [7])"
  by code_simp

end
